(* ===== verification/Prelude.thy ===== *)
theory Prelude
  imports Main "HOL-Library.Word" "HOL-Library.Monad_Syntax" "HOL-Library.Sublist"
begin

text \<open>
  Shared ground of the development: the machine integer types of the C++ sources, the
  library operations of the standard library that several components use, the notion of
  a reachable state with the interface every transition system of the development is
  checked against, and the generic list, option and map lemmas the component proofs rest
  on.

  Conventions. An operation of the source that can run into undefined behaviour (an
  iterator past the end is dereferenced, a node is erased twice) returns an \<open>option\<close>,
  with \<^term>\<open>None\<close> for the undefined outcome; the theorems prove that outcome away.
  Signed 64-bit and 32-bit values (AIDL \<open>long\<close> and \<open>int\<close>, \<open>int64_t\<close>) are words
  read with \<^term>\<open>sint\<close>; their arithmetic wraps around, which is what the compiled code
  does on the targets.
\<close>

type_synonym i64 = "64 word"
type_synonym i32 = "32 word"
type_synonym u32 = "32 word"
type_synonym u64 = "64 word"

named_theorems nl_simps \<open>reading a node list after an operation\<close>
named_theorems field_defs \<open>record update operations unfolded by the component proofs\<close>

subsection \<open>Standard library operations\<close>

text \<open>\<open>std::max\<close> on signed 64-bit values: \<open>(a < b) ? b : a\<close>.\<close>

definition smax :: "i64 \<Rightarrow> i64 \<Rightarrow> i64" where
  "smax a b = (if sint a < sint b then b else a)"

text \<open>Characters and C strings.\<close>

abbreviation newline :: char where
  "newline \<equiv> CHR 0x0A"

definition isspace :: "char \<Rightarrow> bool" where
  "isspace c \<longleftrightarrow> c \<in> {CHR '' '', CHR 0x09, CHR 0x0A, CHR 0x0B, CHR 0x0C, CHR 0x0D}"

text \<open>What \<open>c_str\<close> gives to code that stops at the first null character.\<close>

definition c_str :: "string \<Rightarrow> string" where
  "c_str s = takeWhile (\<lambda>c. c \<noteq> CHR 0x00) s"

text \<open>The decimal notation of a number, as \<open>%d\<close>, \<open>std::to_string\<close> and stream output print it.\<close>

fun dec_nat :: "nat \<Rightarrow> string" where
  "dec_nat n = (if n < 10 then [char_of (48 + n)] else dec_nat (n div 10) @ [char_of (48 + n mod 10)])"

definition dec_int :: "int \<Rightarrow> string" where
  "dec_int i = (if i < 0 then CHR ''-'' # dec_nat (nat (- i)) else dec_nat (nat i))"

declare dec_nat.simps [simp del]

text \<open>The keys of a most-recently-used list after one more use of \<open>k\<close>.\<close>

definition mru_push :: "nat \<Rightarrow> 'k \<Rightarrow> 'k list \<Rightarrow> 'k list" where
  "mru_push cap k ks = take cap (k # removeAll k ks)"

text \<open>A sequence of operations, each of which may be undefined.\<close>

fun run_opt :: "('a \<Rightarrow> 's \<Rightarrow> 's option) \<Rightarrow> 'a list \<Rightarrow> 's \<Rightarrow> 's option" where
  "run_opt f [] s = Some s"
| "run_opt f (a # as) s = Option.bind (f a s) (run_opt f as)"

text \<open>
  The outcomes of a step of a concurrent program: the step cannot be taken now, it is undefined
  behaviour, or it is done.
\<close>

datatype 'a outcome = NotEnabled | Undefined | Done 'a

subsection \<open>Reachable states\<close>

text \<open>
  The states a labelled transition system can get to. The labels stand for the inputs a
  step consumes (what the kernel answered, which client called).
\<close>

inductive reach :: "('s \<Rightarrow> bool) \<Rightarrow> ('s \<Rightarrow> 'l \<Rightarrow> 's \<Rightarrow> bool) \<Rightarrow> 's \<Rightarrow> bool"
  for init :: "'s \<Rightarrow> bool" and step :: "'s \<Rightarrow> 'l \<Rightarrow> 's \<Rightarrow> bool" where
  reach_init: "init s \<Longrightarrow> reach init step s"
| reach_step: "reach init step s \<Longrightarrow> step s l t \<Longrightarrow> reach init step t"

subsection \<open>Lemmas\<close>

lemma sint_smax: "sint (smax a b) = max (sint a) (sint b)"
  by (auto simp: smax_def)

text \<open>64-bit sums and differences that stay in range are exact.\<close>

lemma sint_add_exact:
  fixes a b :: i64
  assumes "- (2 ^ 63) \<le> sint a + sint b" "sint a + sint b < 2 ^ 63"
  shows "sint (a + b) = sint a + sint b"
  using assms by (simp add: sint_word_ariths(1) signed_take_bit_int_eq_self)

lemma sint_diff_exact:
  fixes a b :: i64
  assumes "- (2 ^ 63) \<le> sint a - sint b" "sint a - sint b < 2 ^ 63"
  shows "sint (a - b) = sint a - sint b"
  using assms by (simp add: sint_word_ariths(2) signed_take_bit_int_eq_self)

text \<open>A 32-bit counter that has not wrapped around.\<close>

lemma unat_u32_of_nat: "n < 2 ^ 32 \<Longrightarrow> unat (of_nat n :: u32) = n"
  by (simp add: unat_of_nat)

lemma u32_of_nat_compare:
  fixes w :: u32
  assumes "n < 2 ^ 32"
  shows "w \<le> of_nat n \<longleftrightarrow> unat w \<le> n" "w < of_nat n \<longleftrightarrow> unat w < n" "of_nat n = w \<longleftrightarrow> n = unat w"
  using unat_u32_of_nat [OF assms] by (auto simp: word_le_nat_alt word_less_nat_alt)

lemma smax_idem [simp]: "smax a a = a"
  by (simp add: smax_def)

lemma smax_left_idem [simp]: "smax (smax a b) b = smax a b"
  by (auto simp: smax_def)

lemma smax_absorb: "sint b \<le> sint c \<Longrightarrow> smax (smax a b) c = smax a c"
  by (auto simp: smax_def intro: signed_word_eqI)

lemma run_opt_append: "run_opt f (as @ bs) s = Option.bind (run_opt f as s) (run_opt f bs)"
  by (induction as arbitrary: s) (auto split: bind_splits)

lemma length_tl_dropWhile:
  assumes "s \<noteq> []"
  shows "length (tl (dropWhile P s)) < length s"
proof -
  have "length (dropWhile P s) \<le> length s" "0 < length s"
    using assms by (simp add: length_dropWhile_le, cases s) simp_all
  then show ?thesis unfolding length_tl by linarith
qed

lemma find_Some_in: "find P xs = Some x \<Longrightarrow> x \<in> set xs \<and> P x"
  by (auto simp: find_Some_iff)

lemma find_append: "find P (xs @ ys) = (case find P xs of None \<Rightarrow> find P ys | Some x \<Rightarrow> Some x)"
  by (induction xs) auto

lemma find_None_filter: "find (\<lambda>e. f e = k) xs = None \<Longrightarrow> filter (\<lambda>e. f e \<noteq> k) xs = xs"
  by (simp add: find_None_iff filter_id_conv)

lemma find_None_key:
  "find (\<lambda>e. f e = k) xs = None \<longleftrightarrow> k \<notin> set (map f xs)"
  "find (\<lambda>e. k = f e) xs = None \<longleftrightarrow> k \<notin> set (map f xs)"
  by (auto simp: find_None_iff image_iff)

lemma find_distinct_iff:
  assumes "distinct (map f xs)"
  shows "find (\<lambda>e. f e = k) xs = Some x \<longleftrightarrow> x \<in> set xs \<and> f x = k"
  using assms
  by (induction xs) (auto simp: image_iff)

lemma map_filter_key: "map f (filter (\<lambda>e. f e \<noteq> k) xs) = removeAll k (map f xs)"
  by (induction xs) auto

lemma filter_last_key:
  assumes "distinct (map f xs)" "xs \<noteq> []"
  shows "filter (\<lambda>e. f e \<noteq> f (last xs)) xs = butlast xs"
proof -
  obtain ys y where xs: "xs = ys @ [y]"
    using assms(2) by (cases xs rule: rev_cases) auto
  with assms(1) have "f y \<notin> f ` set ys" by simp
  then have "filter (\<lambda>e. f e \<noteq> f y) ys = ys"
    by (intro filter_True ballI) (metis imageI)
  with xs show ?thesis by simp
qed

lemma remdups_snoc: "remdups (ks @ [k]) = removeAll k (remdups ks) @ [k]"
  by (induction ks) auto

lemma mru_step: "rev (remdups (ks @ [k])) = k # removeAll k (rev (remdups ks))"
proof -
  have "rev (removeAll k xs) = removeAll k (rev xs)" for xs :: "'a list"
    by (simp add: removeAll_filter_not_eq rev_filter)
  then show ?thesis by (simp add: remdups_snoc)
qed

lemma take_removeAll:
  assumes "distinct xs" "k \<in> set (take (Suc n) xs)"
  shows "removeAll k (take (Suc n) xs) = take n (removeAll k xs)"
  using assms
proof (induction xs arbitrary: n)
  case Nil
  then show ?case by simp
next
  case (Cons x xs)
  show ?case
  proof (cases "x = k")
    case True
    with Cons.prems have "k \<notin> set xs" by simp
    then have "k \<notin> set (take n xs)" by (meson in_set_takeD)
    with True \<open>k \<notin> set xs\<close> show ?thesis by simp
  next
    case False
    with Cons.prems have "k \<in> set (take n xs)" by auto
    then obtain m where n: "n = Suc m" by (cases n) auto
    with Cons False show ?thesis by auto
  qed
qed

lemma take_removeAll_notin:
  "k \<notin> set (take n xs) \<Longrightarrow> take n (removeAll k xs) = take n xs"
  by (induction xs arbitrary: n) (auto simp: take_Cons' split: if_splits)

text \<open>
  Truncating a most-recently-used list after every use gives the same keys as truncating
  it once at the end.
\<close>

lemma mru_push_take:
  assumes "distinct ks"
  shows "mru_push cap k (take cap ks) = take cap (k # removeAll k ks)"
proof (cases cap)
  case 0
  then show ?thesis by (simp add: mru_push_def)
next
  case (Suc n)
  show ?thesis
  proof (cases "k \<in> set (take cap ks)")
    case True
    with assms Suc show ?thesis
      by (simp add: mru_push_def take_removeAll)
  next
    case False
    then have "removeAll k (take cap ks) = take cap ks" by simp
    moreover from False Suc have "k \<notin> set (take n ks)"
      using set_take_subset_set_take [of n "Suc n" ks] by auto
    ultimately show ?thesis using Suc
      by (simp add: mru_push_def take_removeAll_notin)
  qed
qed

lemma fold_mru_push:
  "fold (mru_push cap) ks [] = take cap (rev (remdups ks))"
proof (induction ks rule: rev_induct)
  case Nil
  then show ?case by simp
next
  case (snoc k ks)
  then show ?case by (simp add: mru_push_take mru_step)
qed

text \<open>A field that one stat file alone writes has, after the loop, the value of that file.\<close>

lemma fold_field:
  assumes step: "\<And>n c i. g (f (n, c) i) = (if n = nm then case h c of Some v \<Rightarrow> v | None \<Rightarrow> g i else g i)"
    and dist: "distinct (map fst files)"
  shows "g (fold f files i) = (case Option.bind (map_of files nm) h of Some v \<Rightarrow> v | None \<Rightarrow> g i)"
  using dist
proof (induction files arbitrary: i)
  case Nil
  then show ?case by simp
next
  case (Cons x files)
  obtain n c where x: "x = (n, c)" by (cases x)
  have "map_of files nm = None" if "n = nm"
    using that Cons.prems x by (auto simp: map_of_eq_None_iff)
  with Cons x show ?case by (auto simp: step split: option.splits)
qed

lemma fold_const: "(\<And>n c i. g (f (n, c) i) = g i) \<Longrightarrow> g (fold f files i) = g i"
  by (induction files arbitrary: i) auto

subsection \<open>The interface of an invariant\<close>

text \<open>
  What a component has to show about its transition system: the invariant holds at the
  start and every step keeps it. What it gets: the invariant in every reachable state.
\<close>

locale invariant_system =
  fixes init :: "'s \<Rightarrow> bool"
    and step :: "'s \<Rightarrow> 'l \<Rightarrow> 's \<Rightarrow> bool"
    and inv :: "'s \<Rightarrow> bool"
  assumes inv_start: "init s \<Longrightarrow> inv s"
    and inv_kept: "inv s \<Longrightarrow> step s l t \<Longrightarrow> inv t"
begin

lemma reach_inv: "reach init step s \<Longrightarrow> inv s"
  by (induction rule: reach.induct) (auto intro: inv_start inv_kept)

lemma reach_step_inv: "reach init step s \<Longrightarrow> step s l t \<Longrightarrow> inv s \<and> inv t"
  using reach_inv inv_kept by blast

end

end
