(* ===== verification/Chrono.thy ===== *)
theory Chrono
  imports Prelude Complex_Main "HOL-Library.Log_Nat"
begin

text \<open>
  The parts of \<open>std::chrono\<close> and of double arithmetic that the suspend service computes
  with. A duration with an integer representation is its count as an \<^typ>\<open>int\<close>
  (milliseconds for the sleep times, nanoseconds for the times read from the kernel). A finite
  \<open>double\<close> is its exact value as a \<^typ>\<open>rat\<close>; an arithmetic result is rounded to 53
  significant bits, to nearest with ties to even (\<open>dbl_round\<close>), with gradual underflow.
  Infinities and NaNs are not represented: no operation of the service produces them from
  finite configuration values and kernel times in the range of the sources.

  \<open>std::chrono::round\<close> rounds to the nearest tick, ties to the even one;
  \<open>duration_cast\<close> truncates towards zero.
\<close>

definition half_even :: "rat \<Rightarrow> int" where
  "half_even x =
     (let lower = \<lfloor>x\<rfloor>; lowerDiff = x - of_int lower; upperDiff = of_int (lower + 1) - x
      in if lowerDiff < upperDiff then lower
         else if upperDiff < lowerDiff then lower + 1
         else if odd lower then lower + 1 else lower)"

text \<open>The exponent of the leading bit of a non-zero value.\<close>

definition dbl_exponent :: "rat \<Rightarrow> int" where
  "dbl_exponent x =
     (case quotient_of \<bar>x\<bar> of (n, d) \<Rightarrow>
        let e = bitlen n - bitlen d in if 2 powi e \<le> \<bar>x\<bar> then e else e - 1)"

definition dbl_round :: "rat \<Rightarrow> rat" where
  "dbl_round x =
     (if x = 0 then 0
      else let ulp = 2 powi (max (dbl_exponent x - 52) (- 1074))
           in of_int (half_even (x / ulp)) * ulp)"

text \<open>A \<open>double\<close> converted to a 64-bit integer, in range.\<close>

definition dbl_trunc :: "rat \<Rightarrow> int" where
  "dbl_trunc x = (if 0 \<le> x then \<lfloor>x\<rfloor> else \<lceil>x\<rceil>)"

text \<open>\<open>round<milliseconds>(d * factor)\<close> for a count of milliseconds and a \<open>double\<close> factor.\<close>

definition ms_scaled :: "int \<Rightarrow> rat \<Rightarrow> int" where
  "ms_scaled t factor = half_even (dbl_round (dbl_round (of_int t) * factor))"

text \<open>\<open>round<milliseconds>\<close> of a count of nanoseconds, in integer arithmetic.\<close>

definition round_ns_to_ms :: "int \<Rightarrow> int" where
  "round_ns_to_ms n =
     (let lower = n div 1000000; lowerDiff = n - lower * 1000000; upperDiff = (lower + 1) * 1000000 - n
      in if lowerDiff < upperDiff then lower
         else if upperDiff < lowerDiff then lower + 1
         else if odd lower then lower + 1 else lower)"

text \<open>\<open>duration_cast<nanoseconds>\<close> of a \<open>double\<close> count of seconds.\<close>

definition seconds_to_ns :: "rat \<Rightarrow> int" where
  "seconds_to_ns x = dbl_trunc (dbl_round (x * 1000000000))"

subsection \<open>Rounding is exact on integers of up to 53 bits\<close>

lemma half_even_of_int [simp]: "half_even (of_int k) = k"
  by (simp add: half_even_def Let_def)

lemma quotient_of_of_int: "quotient_of (of_int k) = (k, 1)"
  by (simp add: of_int_rat quotient_of_Fract normalize_def)

lemma bitlen_one: "bitlen 1 = 1"
  by (simp add: bitlen_alt_def)

lemma dbl_exponent_of_int:
  assumes "k \<noteq> 0"
  shows "dbl_exponent (of_int k) = bitlen \<bar>k\<bar> - 1"
proof -
  have pos: "0 < \<bar>k\<bar>" using assms by simp
  have "1 \<le> bitlen \<bar>k\<bar>" using pos by (simp add: bitlen_alt_def)
  then have "(2 :: rat) powi (bitlen \<bar>k\<bar> - 1) = of_int (2 ^ nat (bitlen \<bar>k\<bar> - 1))"
    by (simp add: power_int_def)
  also have "\<dots> \<le> of_int \<bar>k\<bar>"
    using bitlen_bounds [OF pos] by (simp only: of_int_le_iff)
  finally show ?thesis
    by (simp add: dbl_exponent_def quotient_of_of_int bitlen_one flip: of_int_abs)
qed

lemma dbl_round_of_int:
  assumes "\<bar>k\<bar> < 2 ^ 53"
  shows "dbl_round (of_int k) = of_int k"
proof (cases "k = 0")
  case True
  then show ?thesis by (simp add: dbl_round_def)
next
  case False
  define u where "u = max (dbl_exponent (of_int k) - 52) (- 1074)"
  have "bitlen \<bar>k\<bar> \<le> 53" using assms by (simp add: bitlen_le_iff_power)
  then have "u \<le> 0" using dbl_exponent_of_int [OF False] by (simp add: u_def)
  then have "(2 :: rat) powi u * 2 ^ nat (- u) = 1" by (simp add: power_int_def field_simps)
  then have q: "of_int k / (2 :: rat) powi u = of_int (k * 2 ^ nat (- u))"
    by (simp add: field_simps)
  have "dbl_round (of_int k) = of_int (half_even (of_int k / 2 powi u)) * 2 powi u"
    using False by (simp add: dbl_round_def Let_def u_def)
  also have "\<dots> = of_int (k * 2 ^ nat (- u)) * 2 powi u" unfolding q by (simp only: half_even_of_int)
  also have "\<dots> = of_int k / 2 powi u * 2 powi u" by (simp only: q)
  finally show ?thesis by simp
qed

lemma ms_scaled_of_int:
  assumes "\<bar>t\<bar> < 2 ^ 53" "\<bar>t * k\<bar> < 2 ^ 53"
  shows "ms_scaled t (of_int k) = t * k"
  using dbl_round_of_int [OF assms(1)] dbl_round_of_int [OF assms(2)]
  by (simp add: ms_scaled_def flip: of_int_mult)

lemma round_ns_to_ms_eq: "round_ns_to_ms n = half_even (of_int n / 1000000)"
proof -
  have fl: "\<lfloor>(of_int n :: rat) / 1000000\<rfloor> = n div 1000000"
    using floor_divide_of_int_eq [of n 1000000, where ?'a = rat] by simp
  have scale: "(2 * (of_int n / 1000000) < (of_int m :: rat)) = (2 * n < m * 1000000)"
    "((of_int m :: rat) < 2 * (of_int n / 1000000)) = (m * 1000000 < 2 * n)" for m
  proof -
    have "(2 * (of_int n / 1000000) < (of_int m :: rat)) = (of_int (2 * n) < (of_int (m * 1000000) :: rat))"
      "((of_int m :: rat) < 2 * (of_int n / 1000000)) = ((of_int (m * 1000000) :: rat) < of_int (2 * n))"
      by (simp_all add: field_simps)
    then show "(2 * (of_int n / 1000000) < (of_int m :: rat)) = (2 * n < m * 1000000)"
      "((of_int m :: rat) < 2 * (of_int n / 1000000)) = (m * 1000000 < 2 * n)"
      by (simp_all only: of_int_less_iff)
  qed
  have "(x - of_int l < of_int (l + 1) - x) = (2 * x < of_int (2 * l + 1))"
    "(of_int (l + 1) - x < x - of_int l) = (of_int (2 * l + 1) < 2 * x)" for x :: rat and l
    by auto
  from this [where x = "of_int n / 1000000"] scale
  have "(of_int n / 1000000 - of_int l < of_int (l + 1) - of_int n / (1000000 :: rat)) =
      (n - l * 1000000 < (l + 1) * 1000000 - n)"
    "(of_int (l + 1) - of_int n / (1000000 :: rat) < of_int n / 1000000 - of_int l) =
      ((l + 1) * 1000000 - n < n - l * 1000000)" for l :: int
    by (auto simp: algebra_simps)
  then show ?thesis by (simp add: round_ns_to_ms_def half_even_def Let_def fl)
qed

lemma half_even_near: "\<bar>of_int (half_even x) - x\<bar> \<le> 1 / 2"
  using floor_correct [of x] of_int_floor_le [of x]
  by (simp add: half_even_def Let_def abs_if) linarith

subsection \<open>The rounding error\<close>

lemma dbl_exponent_lower:
  assumes "x \<noteq> 0"
  shows "2 powi (dbl_exponent x) \<le> \<bar>x\<bar>"
proof -
  obtain n d where nd: "quotient_of \<bar>x\<bar> = (n, d)" by fastforce
  then have x: "\<bar>x\<bar> = of_int n / of_int d" and d: "0 < d"
    by (simp_all add: quotient_of_div quotient_of_denom_pos)
  have n: "0 < n" using x d assms by (metis divide_nonpos_pos abs_le_zero_iff not_le of_int_0_less_iff of_int_le_0_iff)
  have "1 \<le> bitlen n" "0 \<le> bitlen d" using n by (simp_all add: bitlen_alt_def)
  then have pn: "(2 :: rat) powi (bitlen n - 1) \<le> of_int n" and pd: "of_int d \<le> (2 :: rat) powi bitlen d"
  proof -
    have "of_int (2 ^ nat (bitlen n - 1)) \<le> (of_int n :: rat)" "(of_int d :: rat) \<le> of_int (2 ^ nat (bitlen d))"
      using bitlen_bounds [OF n] bitlen_bounds [OF d] by (simp_all only: of_int_le_iff less_imp_le)
    then show "(2 :: rat) powi (bitlen n - 1) \<le> of_int n" "of_int d \<le> (2 :: rat) powi bitlen d"
      using \<open>1 \<le> bitlen n\<close> \<open>0 \<le> bitlen d\<close> by (simp_all add: power_int_def)
  qed
  have "(2 :: rat) powi (bitlen n - bitlen d - 1) = 2 powi (bitlen n - 1) / 2 powi bitlen d"
    by (simp add: power_int_diff)
  also have "\<dots> \<le> of_int n / of_int d"
    using pn pd d n by (intro frac_le) simp_all
  finally show ?thesis
    by (simp add: dbl_exponent_def nd Let_def x [symmetric])
qed

lemma dbl_round_error: "\<bar>dbl_round x - x\<bar> \<le> max (\<bar>x\<bar> / 2 ^ 53) (1 / 2 ^ 1075)"
proof (cases "x = 0")
  case True
  then show ?thesis by (simp add: dbl_round_def)
next
  case False
  define u where "u = max (dbl_exponent x - 52) (- 1074)"
  have "dbl_round x - x = (of_int (half_even (x / 2 powi u)) - x / 2 powi u) * 2 powi u"
    using False by (simp add: dbl_round_def Let_def u_def [symmetric] left_diff_distrib)
  then have "\<bar>dbl_round x - x\<bar> = \<bar>of_int (half_even (x / 2 powi u)) - x / 2 powi u\<bar> * 2 powi u"
    by (simp add: abs_mult)
  also have "\<dots> \<le> 1 / 2 * 2 powi u"
    by (intro mult_right_mono half_even_near) simp
  also have "\<dots> \<le> max (\<bar>x\<bar> / 2 ^ 53) (1 / 2 ^ 1075)"
  proof (cases "- 1074 \<le> dbl_exponent x - 52")
    case True
    then have "1 / 2 * (2 :: rat) powi u = 2 powi (dbl_exponent x) / 2 ^ 53"
      by (simp add: u_def power_int_diff)
    also have "\<dots> \<le> \<bar>x\<bar> / 2 ^ 53"
      by (intro divide_right_mono dbl_exponent_lower False) simp
    finally show ?thesis by simp
  next
    case False
    then have "1 / 2 * (2 :: rat) powi u = 1 / 2 ^ 1075"
      by (simp add: u_def power_int_minus divide_simps)
    then show ?thesis by simp
  qed
  finally show ?thesis .
qed

text \<open>A count of nanoseconds given in seconds is recovered up to one nanosecond.\<close>

lemma seconds_to_ns_near:
  assumes "0 \<le> k" "k < 2 ^ 51"
  shows "seconds_to_ns (dbl_round (of_int k / 1000000000)) \<in> {k - 1, k}"
proof (cases "k = 0")
  case True
  then show ?thesis by (simp add: seconds_to_ns_def dbl_round_def dbl_trunc_def)
next
  case False
  define x :: rat where "x = of_int k"
  define y where "y = dbl_round (x / 1000000000)"
  define z where "z = dbl_round (y * 1000000000)"
  have x: "1 \<le> x" "x < 2 ^ 51"
  proof -
    show "1 \<le> x" using False assms(1) by (simp add: x_def)
    have "(of_int k :: rat) < of_int (2 ^ 51)" using assms(2) by (simp only: of_int_less_iff)
    then show "x < 2 ^ 51" by (simp add: x_def)
  qed
  have "\<bar>y - x / 1000000000\<bar> \<le> max (x / 1000000000 / 2 ^ 53) (1 / 2 ^ 1075)"
    using dbl_round_error [of "x / 1000000000"] x by (simp add: y_def)
  also have "\<dots> = x / 1000000000 / 2 ^ 53"
    using x(1) by (intro max_absorb1) (simp add: field_simps)
  finally have y: "\<bar>y * 1000000000 - x\<bar> \<le> x / 2 ^ 53" by (simp add: abs_le_iff field_simps)
  then have yp: "x / 2 \<le> y * 1000000000" "y * 1000000000 \<le> 2 * x" using x unfolding abs_le_iff by simp_all
  have "\<bar>z - y * 1000000000\<bar> \<le> max (y * 1000000000 / 2 ^ 53) (1 / 2 ^ 1075)"
    using dbl_round_error [of "y * 1000000000"] yp x by (simp add: z_def)
  also have "\<dots> \<le> 2 * x / 2 ^ 53"
    using x(1) yp(2) by (intro max.boundedI) (simp_all add: field_simps)
  finally have "\<bar>z - x\<bar> \<le> 3 * x / 2 ^ 53" using y unfolding abs_le_iff by simp
  then have "\<bar>z - x\<bar> < 1" using x(2) by (simp add: field_simps)
  then have "\<lfloor>z\<rfloor> \<in> {k - 1, k}" "0 \<le> z"
    using x(1) by (simp_all add: x_def abs_less_iff floor_eq_iff) linarith+
  then show ?thesis
    by (simp add: seconds_to_ns_def dbl_trunc_def z_def [symmetric] y_def [symmetric] x_def [symmetric])
qed

end
