(* ===== verification/SuspendBackoff.thy ===== *)
theory SuspendBackoff
  imports Chrono
begin

text \<open>
  How long the autosuspend thread sleeps between suspend attempts, and the counters reported as
  \<open>SuspendInfo\<close>: \<open>SystemSuspend::updateSleepTime\<close> in
  \<open>suspend/1.0/default/SystemSuspend.cpp\<close>. The state is the part of \<open>SystemSuspend\<close> guarded
  by \<open>mSuspendInfoLock\<close> together with \<open>mSleepTime\<close>. The counters are 64-bit AIDL longs and
  wrap around; \<open>mNumConsecutiveBadSuspends\<close> is an \<open>int32_t\<close> that the code compares with a
  \<open>uint32_t\<close>, so both are read as unsigned 32-bit values. Counting it beyond \<open>2 ^ 31 - 1\<close> is undefined in
  C++ and wraps around here; the durations (64-bit in C++) are unbounded integers.

  An attempt is bad or short as the code decides it: a successful suspend whose time was read as 0, as when
  \<open>last_suspend_time\<close> cannot be read, is not short, although the comments only ask for a time less than the
  threshold.

  Shown: the sleep time after any history of attempts follows the backoff formula documented
  above the function, as a function of the length of the current run of bad attempts (for whole
  scale factors); it never exceeds the larger of base and maximum; the reported counters count
  and sum what their names say, the backoffs once for each run of bad attempts.
\<close>

record SuspendTime =
  suspendOverhead :: int
  suspendTime :: int

record SleepTimeConfig =
  baseSleepTime :: int
  maxSleepTime :: int
  sleepTimeScaleFactor :: rat
  backoffThreshold :: u32
  shortSuspendThreshold :: int
  failedSuspendBackoffEnabled :: bool
  shortSuspendBackoffEnabled :: bool

record SuspendInfo =
  suspendAttemptCount :: i64
  failedSuspendCount :: i64
  shortSuspendCount :: i64
  suspendTimeMillis :: i64
  shortSuspendTimeMillis :: i64
  suspendOverheadTimeMillis :: i64
  failedSuspendOverheadTimeMillis :: i64
  newBackoffCount :: i64
  backoffContinueCount :: i64
  sleepTimeMillis :: i64

record sleep_state =
  mSuspendInfo :: SuspendInfo
  mSleepTime :: int
  mNumConsecutiveBadSuspends :: i32

definition SuspendInfo_zero :: SuspendInfo where
  "SuspendInfo_zero =
     \<lparr>suspendAttemptCount = 0, failedSuspendCount = 0, shortSuspendCount = 0,
      suspendTimeMillis = 0, shortSuspendTimeMillis = 0, suspendOverheadTimeMillis = 0,
      failedSuspendOverheadTimeMillis = 0, newBackoffCount = 0, backoffContinueCount = 0,
      sleepTimeMillis = 0\<rparr>"

text \<open>The initial values the constructor of \<open>SystemSuspend\<close> gives.\<close>

definition sleep_state_new :: "SleepTimeConfig \<Rightarrow> sleep_state" where
  "sleep_state_new cfg =
     \<lparr>mSuspendInfo = SuspendInfo_zero, mSleepTime = baseSleepTime cfg,
      mNumConsecutiveBadSuspends = 0\<rparr>"

text \<open>The two conditions \<open>shortSuspend\<close> and \<open>badSuspend\<close>; times are in nanoseconds, the
  threshold in milliseconds.\<close>

definition shortSuspend :: "SleepTimeConfig \<Rightarrow> bool \<Rightarrow> SuspendTime \<Rightarrow> bool" where
  "shortSuspend cfg success st \<longleftrightarrow>
     success \<and> 0 < suspendTime st \<and> suspendTime st < shortSuspendThreshold cfg * 1000000"

definition badSuspend :: "SleepTimeConfig \<Rightarrow> bool \<Rightarrow> SuspendTime \<Rightarrow> bool" where
  "badSuspend cfg success st \<longleftrightarrow>
     (failedSuspendBackoffEnabled cfg \<and> \<not> success) \<or>
     (shortSuspendBackoffEnabled cfg \<and> shortSuspend cfg success st)"

definition updateSleepTime ::
  "SleepTimeConfig \<Rightarrow> bool \<Rightarrow> SuspendTime \<Rightarrow> sleep_state \<Rightarrow> sleep_state" where
  "updateSleepTime cfg success st s =
     (let info0 = mSuspendInfo s;
          info1 = info0\<lparr>suspendAttemptCount := suspendAttemptCount info0 + 1,
                        sleepTimeMillis := sleepTimeMillis info0 + of_int (mSleepTime s)\<rparr>;
          short = shortSuspend cfg success st;
          bad = badSuspend cfg success st;
          timeMillis = of_int (round_ns_to_ms (suspendTime st));
          overheadMillis = of_int (round_ns_to_ms (suspendOverhead st));
          info2 = (if success
                   then info1\<lparr>suspendOverheadTimeMillis := suspendOverheadTimeMillis info1 + overheadMillis,
                              suspendTimeMillis := suspendTimeMillis info1 + timeMillis\<rparr>
                   else info1\<lparr>failedSuspendCount := failedSuspendCount info1 + 1,
                              failedSuspendOverheadTimeMillis :=
                                failedSuspendOverheadTimeMillis info1 + overheadMillis\<rparr>);
          info3 = (if short
                   then info2\<lparr>shortSuspendCount := shortSuspendCount info2 + 1,
                              shortSuspendTimeMillis := shortSuspendTimeMillis info2 + timeMillis\<rparr>
                   else info2);
          n = mNumConsecutiveBadSuspends s
      in if \<not> bad
         then s\<lparr>mSuspendInfo := info3, mNumConsecutiveBadSuspends := 0,
                mSleepTime := baseSleepTime cfg\<rparr>
         else if backoffThreshold cfg \<le> n
         then s\<lparr>mSuspendInfo :=
                  (if n = backoffThreshold cfg
                   then info3\<lparr>newBackoffCount := newBackoffCount info3 + 1\<rparr>
                   else info3\<lparr>backoffContinueCount := backoffContinueCount info3 + 1\<rparr>),
                mSleepTime := min (ms_scaled (mSleepTime s) (sleepTimeScaleFactor cfg)) (maxSleepTime cfg),
                mNumConsecutiveBadSuspends := n + 1\<rparr>
         else s\<lparr>mSuspendInfo := info3, mNumConsecutiveBadSuspends := n + 1\<rparr>)"

text \<open>A history of suspend attempts: outcome and times of each, oldest first.\<close>

type_synonym attempt = "bool \<times> SuspendTime"

definition sleep_run :: "SleepTimeConfig \<Rightarrow> attempt list \<Rightarrow> sleep_state \<Rightarrow> sleep_state" where
  "sleep_run cfg as s = fold (\<lambda>(ok, st). updateSleepTime cfg ok st) as s"

abbreviation bad_attempt :: "SleepTimeConfig \<Rightarrow> attempt \<Rightarrow> bool" where
  "bad_attempt cfg a \<equiv> badSuspend cfg (fst a) (snd a)"

text \<open>The length of the run of bad attempts a history ends with.\<close>

definition bad_streak :: "SleepTimeConfig \<Rightarrow> attempt list \<Rightarrow> nat" where
  "bad_streak cfg as = length (takeWhile (bad_attempt cfg) (rev as))"

text \<open>The lengths of the runs of bad attempts of a history, oldest first; good attempts separate them, so some may
  be empty. The run that is going on when the history begins has \<open>n\<close> attempts already.\<close>

fun bad_runs :: "SleepTimeConfig \<Rightarrow> nat \<Rightarrow> attempt list \<Rightarrow> nat list" where
  "bad_runs cfg n [] = [n]"
| "bad_runs cfg n (a # as) = (if bad_attempt cfg a then bad_runs cfg (Suc n) as else n # bad_runs cfg 0 as)"

text \<open>The documented formula, for a whole scale factor \<open>S\<close>: \<open>B\<close> up to the threshold
  \<open>N\<close>, then \<open>min (B * S ^ (n - N)) M\<close>.\<close>

definition backoff_formula :: "SleepTimeConfig \<Rightarrow> int \<Rightarrow> nat \<Rightarrow> int" where
  "backoff_formula cfg S n =
     (if n \<le> unat (backoffThreshold cfg) then baseSleepTime cfg
      else min (baseSleepTime cfg * S ^ (n - unat (backoffThreshold cfg))) (maxSleepTime cfg))"

subsection \<open>One attempt\<close>

lemma updateSleepTime_good:
  assumes "\<not> badSuspend cfg ok st"
  shows "mSleepTime (updateSleepTime cfg ok st s) = baseSleepTime cfg"
    "mNumConsecutiveBadSuspends (updateSleepTime cfg ok st s) = 0"
  using assms by (simp_all add: updateSleepTime_def Let_def)

lemma updateSleepTime_bad:
  assumes "badSuspend cfg ok st"
  shows "mSleepTime (updateSleepTime cfg ok st s) =
      (if backoffThreshold cfg \<le> mNumConsecutiveBadSuspends s
       then min (ms_scaled (mSleepTime s) (sleepTimeScaleFactor cfg)) (maxSleepTime cfg)
       else mSleepTime s)"
    "mNumConsecutiveBadSuspends (updateSleepTime cfg ok st s) = mNumConsecutiveBadSuspends s + 1"
  using assms by (simp_all add: updateSleepTime_def Let_def)

lemma updateSleepTime_info:
  fixes s cfg ok st
  defines "i \<equiv> mSuspendInfo s" and "i' \<equiv> mSuspendInfo (updateSleepTime cfg ok st s)"
  shows "suspendAttemptCount i' = suspendAttemptCount i + 1"
    "failedSuspendCount i' = failedSuspendCount i + (if ok then 0 else 1)"
    "shortSuspendCount i' = shortSuspendCount i + (if shortSuspend cfg ok st then 1 else 0)"
    "suspendTimeMillis i' = suspendTimeMillis i +
       (if ok then of_int (round_ns_to_ms (suspendTime st)) else 0)"
    "shortSuspendTimeMillis i' = shortSuspendTimeMillis i +
       (if shortSuspend cfg ok st then of_int (round_ns_to_ms (suspendTime st)) else 0)"
    "suspendOverheadTimeMillis i' = suspendOverheadTimeMillis i +
       (if ok then of_int (round_ns_to_ms (suspendOverhead st)) else 0)"
    "failedSuspendOverheadTimeMillis i' = failedSuspendOverheadTimeMillis i +
       (if ok then 0 else of_int (round_ns_to_ms (suspendOverhead st)))"
    "sleepTimeMillis i' = sleepTimeMillis i + of_int (mSleepTime s)"
  unfolding i_def i'_def by (simp_all add: updateSleepTime_def Let_def)

lemma updateSleepTime_backoffs:
  fixes s cfg ok st
  defines "i \<equiv> mSuspendInfo s" and "i' \<equiv> mSuspendInfo (updateSleepTime cfg ok st s)"
    and "n \<equiv> mNumConsecutiveBadSuspends s"
  shows "newBackoffCount i' = newBackoffCount i +
      (if badSuspend cfg ok st \<and> n = backoffThreshold cfg then 1 else 0)"
    "backoffContinueCount i' = backoffContinueCount i +
      (if badSuspend cfg ok st \<and> backoffThreshold cfg < n then 1 else 0)"
  unfolding i_def i'_def n_def by (auto simp: updateSleepTime_def Let_def)

subsection \<open>Histories\<close>

lemma sleep_run_Nil [simp]: "sleep_run cfg [] s = s"
  by (simp add: sleep_run_def)

lemma sleep_run_snoc [simp]:
  "sleep_run cfg (as @ [a]) s = updateSleepTime cfg (fst a) (snd a) (sleep_run cfg as s)"
  by (simp add: sleep_run_def split_def)

lemma bad_streak_Nil [simp]: "bad_streak cfg [] = 0"
  by (simp add: bad_streak_def)

lemma bad_streak_snoc [simp]:
  "bad_streak cfg (as @ [a]) = (if bad_attempt cfg a then Suc (bad_streak cfg as) else 0)"
  by (simp add: bad_streak_def)

lemma bad_streak_le: "bad_streak cfg as \<le> length as"
  unfolding bad_streak_def by (metis length_rev length_takeWhile_le)

lemma bad_runs_snoc:
  "bad_runs cfg n (as @ [a]) =
     (if bad_attempt cfg a then butlast (bad_runs cfg n as) @ [Suc (last (bad_runs cfg n as))]
      else bad_runs cfg n as @ [0])"
proof (induction as arbitrary: n)
  case (Cons b as)
  have "bad_runs cfg m as \<noteq> []" for m by (induction as arbitrary: m) auto
  with Cons show ?case by simp
qed simp

text \<open>The last run is the one the history ends with.\<close>

lemma bad_runs_last: "\<exists>rs. bad_runs cfg 0 as = rs @ [bad_streak cfg as]"
  by (induction as rule: rev_induct) (auto simp: bad_runs_snoc)

lemma sleep_run_streak:
  "mNumConsecutiveBadSuspends (sleep_run cfg as (sleep_state_new cfg)) = of_nat (bad_streak cfg as)"
  by (induction as rule: rev_induct)
    (auto simp: sleep_state_new_def updateSleepTime_good updateSleepTime_bad add.commute)

lemma formula_step:
  assumes "1 \<le> S" "0 \<le> baseSleepTime cfg" "0 \<le> maxSleepTime cfg"
    and "unat (backoffThreshold cfg) \<le> n"
  shows "backoff_formula cfg S (Suc n) = min (backoff_formula cfg S n * S) (maxSleepTime cfg)"
proof (cases "n = unat (backoffThreshold cfg)")
  case True
  then show ?thesis by (simp add: backoff_formula_def)
next
  case False
  let ?b = "baseSleepTime cfg * S ^ (n - unat (backoffThreshold cfg))" and ?M = "maxSleepTime cfg"
  have "?M * 1 \<le> ?M * S" using assms by (intro mult_left_mono) auto
  moreover have "?M * S \<le> ?b * S" if "?M \<le> ?b" using that assms by (intro mult_right_mono) auto
  ultimately have "min (?b * S) ?M = min (min ?b ?M * S) ?M" by (auto simp: min_def)
  with False assms(4) show ?thesis by (simp add: backoff_formula_def Suc_diff_le mult_ac)
qed

lemma formula_range:
  assumes "1 \<le> S" "0 \<le> baseSleepTime cfg" "0 \<le> maxSleepTime cfg"
  shows "0 \<le> backoff_formula cfg S n"
    "backoff_formula cfg S n \<le> max (baseSleepTime cfg) (maxSleepTime cfg)"
  using assms by (auto simp: backoff_formula_def)

lemma formula_scaled:
  assumes "1 \<le> S" "0 \<le> baseSleepTime cfg" "0 \<le> maxSleepTime cfg"
    and "max (baseSleepTime cfg) (maxSleepTime cfg) * S < 2 ^ 53"
  shows "ms_scaled (backoff_formula cfg S n) (of_int S) = backoff_formula cfg S n * S"
proof (rule ms_scaled_of_int)
  let ?t = "backoff_formula cfg S n" and ?m = "max (baseSleepTime cfg) (maxSleepTime cfg)"
  have t: "0 \<le> ?t" "?t \<le> ?m" using formula_range [OF assms(1-3)] by auto
  have "?t * S \<le> ?m * S" using t assms(1) by (intro mult_right_mono) auto
  then have tS: "?t * S < 2 ^ 53" using assms(4) by linarith
  have "?t * 1 \<le> ?t * S" using t assms(1) by (intro mult_left_mono) auto
  with tS t show "\<bar>?t\<bar> < 2 ^ 53" by simp
  from tS t assms(1) show "\<bar>?t * S\<bar> < 2 ^ 53" by simp
qed

lemma sleep_run_formula:
  assumes "sleepTimeScaleFactor cfg = of_int S" "1 \<le> S" "0 \<le> baseSleepTime cfg" "0 \<le> maxSleepTime cfg"
    and "max (baseSleepTime cfg) (maxSleepTime cfg) * S < 2 ^ 53" and "length as < 2 ^ 32"
  shows "mSleepTime (sleep_run cfg as (sleep_state_new cfg)) = backoff_formula cfg S (bad_streak cfg as)"
  using assms(6)
proof (induction as rule: rev_induct)
  case Nil
  then show ?case by (simp add: sleep_state_new_def backoff_formula_def)
next
  case (snoc a as)
  show ?case
  proof (cases "bad_attempt cfg a")
    case False
    then show ?thesis by (simp add: updateSleepTime_good backoff_formula_def)
  next
    case True
    let ?n = "bad_streak cfg as"
    have n: "?n < 2 ^ 32" using bad_streak_le [of cfg as] snoc.prems by simp
    have ih: "mSleepTime (sleep_run cfg as (sleep_state_new cfg)) = backoff_formula cfg S ?n"
      using snoc by simp
    show ?thesis
    proof (cases "unat (backoffThreshold cfg) \<le> ?n")
      case le: True
      with True n ih assms(1) show ?thesis
        by (simp add: updateSleepTime_bad sleep_run_streak u32_of_nat_compare
            formula_scaled [OF assms(2-5)] formula_step [OF assms(2-4)])
    next
      case False
      with True n ih show ?thesis
        by (simp add: updateSleepTime_bad sleep_run_streak u32_of_nat_compare backoff_formula_def)
    qed
  qed
qed

lemma sleep_run_upper:
  "mSleepTime (sleep_run cfg as (sleep_state_new cfg)) \<le> max (baseSleepTime cfg) (maxSleepTime cfg)"
proof (induction as rule: rev_induct)
  case Nil
  then show ?case by (simp add: sleep_state_new_def)
next
  case (snoc a as)
  then show ?case
    by (cases "bad_attempt cfg a") (auto simp: updateSleepTime_good updateSleepTime_bad)
qed

subsection \<open>Properties\<close>

text \<open>C20. After any history of suspend attempts the sleep time is the one the comment above
  \<open>updateSleepTime\<close> documents, as a function of the number \<open>n\<close> of consecutive bad attempts the
  history ends with: the base time while \<open>n\<close> is at most the threshold, then the base time scaled
  \<open>n - N\<close> times but never above the maximum. Stated for whole scale factors, which double
  arithmetic scales exactly.\<close>

theorem sleep_time_follows_formula:
  assumes "sleepTimeScaleFactor cfg = of_int S" "1 \<le> S" "0 \<le> baseSleepTime cfg" "0 \<le> maxSleepTime cfg"
    and "max (baseSleepTime cfg) (maxSleepTime cfg) * S < 2 ^ 53" and "length as < 2 ^ 32"
  shows "mSleepTime (sleep_run cfg as (sleep_state_new cfg)) = backoff_formula cfg S (bad_streak cfg as)"
  using assms by (rule sleep_run_formula)

theorem sleep_time_follows_formula_witness:
  "mSleepTime (sleep_run
      \<lparr>baseSleepTime = 10, maxSleepTime = 500, sleepTimeScaleFactor = 2, backoffThreshold = 1,
       shortSuspendThreshold = 50, failedSuspendBackoffEnabled = True, shortSuspendBackoffEnabled = True\<rparr>
      (replicate 4 (False, \<lparr>suspendOverhead = 0, suspendTime = 0\<rparr>))
      (sleep_state_new
      \<lparr>baseSleepTime = 10, maxSleepTime = 500, sleepTimeScaleFactor = 2, backoffThreshold = 1,
       shortSuspendThreshold = 50, failedSuspendBackoffEnabled = True, shortSuspendBackoffEnabled = True\<rparr>)) = 80"
proof -
  let ?cfg = "\<lparr>baseSleepTime = 10, maxSleepTime = 500, sleepTimeScaleFactor = 2, backoffThreshold = 1,
       shortSuspendThreshold = 50, failedSuspendBackoffEnabled = True, shortSuspendBackoffEnabled = True\<rparr>"
  let ?as = "replicate 4 (False, \<lparr>suspendOverhead = 0, suspendTime = 0\<rparr>)"
  have "bad_streak ?cfg ?as = 4"
    by (simp add: bad_streak_def badSuspend_def numeral_eq_Suc)
  with sleep_time_follows_formula [of ?cfg 2 ?as] show ?thesis
    by (simp add: backoff_formula_def)
qed

text \<open>A configuration with a fractional scale factor, and its third bad attempt: the sleep time is rounded
  after every step, 10, 15, 22 and 33 ms, and not once at the end.\<close>

definition fractional_cfg :: SleepTimeConfig where
  "fractional_cfg =
     \<lparr>baseSleepTime = 10, maxSleepTime = 500, sleepTimeScaleFactor = 3 / 2, backoffThreshold = 0,
      shortSuspendThreshold = 50, failedSuspendBackoffEnabled = True, shortSuspendBackoffEnabled = True\<rparr>"

lemma sleep_time_fractional:
  "mSleepTime (sleep_run fractional_cfg (replicate 3 (False, \<lparr>suspendOverhead = 0, suspendTime = 0\<rparr>))
     (sleep_state_new fractional_cfg)) = 33"
  by code_simp

text \<open>C21. Whatever the scale factor, the sleep time is never longer than the larger of the
  configured base and maximal sleep times, and one attempt that is not bad resets it to the base
  time. It need not be the documented product, though, if the factor is not whole: three bad attempts
  with base 10 ms and factor 1.5 give 33 ms, where the product is 33.75 ms.\<close>

theorem sleep_time_any_factor:
  "mSleepTime (sleep_run cfg as (sleep_state_new cfg)) \<le> max (baseSleepTime cfg) (maxSleepTime cfg) \<and>
   (badSuspend cfg ok st \<or>
      mSleepTime (updateSleepTime cfg ok st (sleep_run cfg as (sleep_state_new cfg))) = baseSleepTime cfg) \<and>
   mSleepTime (sleep_run fractional_cfg (replicate 3 (False, \<lparr>suspendOverhead = 0, suspendTime = 0\<rparr>))
     (sleep_state_new fractional_cfg)) = 33 \<and>
   10 * sleepTimeScaleFactor fractional_cfg ^ 3 = 33 + 3 / 4"
proof -
  have "10 * sleepTimeScaleFactor fractional_cfg ^ 3 = 33 + 3 / 4"
    by (simp add: fractional_cfg_def power3_eq_cube)
  with sleep_run_upper [of cfg as] updateSleepTime_good(1) [of cfg ok st] sleep_time_fractional
  show ?thesis by blast
qed

text \<open>C22. The reported \<open>SuspendInfo\<close> counts what it says: over any history the attempt, failure
  and short-suspend counters are the numbers of such attempts, the suspend times are the sums over
  the successful (and the short) attempts, the overheads are split between successful and failed
  attempts, each time rounded to milliseconds, all as 64-bit values.\<close>

theorem suspend_info_counts:
  fixes cfg as
  defines "i \<equiv> mSuspendInfo (sleep_run cfg as (sleep_state_new cfg))"
    and "ms \<equiv> \<lambda>f. (\<lambda>a :: attempt. of_int (round_ns_to_ms (f (snd a))) :: i64)"
  shows "suspendAttemptCount i = of_nat (length as) \<and>
    failedSuspendCount i = of_nat (length (filter (\<lambda>a. \<not> fst a) as)) \<and>
    shortSuspendCount i = of_nat (length (filter (\<lambda>a. shortSuspend cfg (fst a) (snd a)) as)) \<and>
    suspendTimeMillis i = sum_list (map (ms suspendTime) (filter fst as)) \<and>
    shortSuspendTimeMillis i =
      sum_list (map (ms suspendTime) (filter (\<lambda>a. shortSuspend cfg (fst a) (snd a)) as)) \<and>
    suspendOverheadTimeMillis i = sum_list (map (ms suspendOverhead) (filter fst as)) \<and>
    failedSuspendOverheadTimeMillis i = sum_list (map (ms suspendOverhead) (filter (\<lambda>a. \<not> fst a) as))"
  unfolding i_def ms_def
proof (induction as rule: rev_induct)
  case Nil
  then show ?case by (simp add: sleep_state_new_def SuspendInfo_zero_def)
next
  case (snoc a as)
  then show ?case by (simp add: updateSleepTime_info add.commute)
qed

text \<open>C23. Over any history of attempts, a backoff is counted as new once for every unbroken run of bad
  attempts that is longer than the threshold \<open>N\<close>, and as continued once for every attempt of a run beyond the
  first \<open>N + 1\<close>: an attempt that is not bad ends the run, and the next run is counted on its own.\<close>

theorem backoff_counts:
  assumes "length as < 2 ^ 32"
  shows "newBackoffCount (mSuspendInfo (sleep_run cfg as (sleep_state_new cfg))) =
      of_nat (length (filter (\<lambda>n. unat (backoffThreshold cfg) < n) (bad_runs cfg 0 as))) \<and>
    backoffContinueCount (mSuspendInfo (sleep_run cfg as (sleep_state_new cfg))) =
      of_nat (sum_list (map (\<lambda>n. n - unat (backoffThreshold cfg) - 1) (bad_runs cfg 0 as)))"
  using assms
proof (induction as rule: rev_induct)
  case Nil
  then show ?case by (simp add: sleep_state_new_def SuspendInfo_zero_def)
next
  case (snoc a as)
  let ?s = "sleep_run cfg as (sleep_state_new cfg)" and ?N = "unat (backoffThreshold cfg)"
  obtain rs where rs: "bad_runs cfg 0 as = rs @ [bad_streak cfg as]" using bad_runs_last by blast
  have n: "bad_streak cfg as < 2 ^ 32" using bad_streak_le [of cfg as] snoc.prems by simp
  note step = updateSleepTime_backoffs [of cfg "fst a" "snd a" ?s]
  have cmp: "mNumConsecutiveBadSuspends ?s = backoffThreshold cfg \<longleftrightarrow> bad_streak cfg as = ?N"
    "backoffThreshold cfg < mNumConsecutiveBadSuspends ?s \<longleftrightarrow> ?N < bad_streak cfg as"
    using u32_of_nat_compare [OF n, of "backoffThreshold cfg"] by (auto simp: sleep_run_streak)
  show ?case
  proof (cases "bad_attempt cfg a")
    case True
    let ?m = "bad_streak cfg as"
    have "Suc ?m - ?N - 1 = (?m - ?N - 1) + (if ?N < ?m then 1 else 0)" by auto
    with True snoc rs step cmp show ?thesis by (auto simp: bad_runs_snoc simp del: diff_Suc_1 diff_diff_left)
  next
    case False
    with snoc rs step show ?thesis by (simp add: bad_runs_snoc)
  qed
qed

text \<open>Two runs, of three and of two bad attempts, with one good attempt between them.\<close>

theorem backoff_counts_witness:
  "let cfg = \<lparr>baseSleepTime = 10, maxSleepTime = 500, sleepTimeScaleFactor = 2, backoffThreshold = 1,
         shortSuspendThreshold = 50, failedSuspendBackoffEnabled = True, shortSuspendBackoffEnabled = True\<rparr>;
       bad = (False, \<lparr>suspendOverhead = 0, suspendTime = 0\<rparr>);
       good = (True, \<lparr>suspendOverhead = 0, suspendTime = 60000000\<rparr>);
       info = mSuspendInfo (sleep_run cfg [bad, bad, bad, good, bad, bad] (sleep_state_new cfg))
   in newBackoffCount info = 2 \<and> backoffContinueCount info = 1"
  using backoff_counts [of "[(False, \<lparr>suspendOverhead = 0, suspendTime = 0\<rparr>), (False, \<lparr>suspendOverhead = 0, suspendTime = 0\<rparr>),
        (False, \<lparr>suspendOverhead = 0, suspendTime = 0\<rparr>), (True, \<lparr>suspendOverhead = 0, suspendTime = 60000000\<rparr>),
        (False, \<lparr>suspendOverhead = 0, suspendTime = 0\<rparr>), (False, \<lparr>suspendOverhead = 0, suspendTime = 0\<rparr>)]"
      "\<lparr>baseSleepTime = 10, maxSleepTime = 500, sleepTimeScaleFactor = 2, backoffThreshold = 1,
       shortSuspendThreshold = 50, failedSuspendBackoffEnabled = True, shortSuspendBackoffEnabled = True\<rparr>"]
  by (simp add: Let_def badSuspend_def shortSuspend_def)

end
