(* ===== verification/SysfsReaders.thy ===== *)
theory SysfsReaders
  imports SuspendBackoff
begin

text \<open>
  The readers of kernel files in \<open>suspend/1.0/default/SystemSuspend.cpp\<close>: \<open>readFd\<close>,
  \<open>readWakeupReasons\<close>, \<open>readSuspendTime\<close> and the directory walk of
  \<open>SystemSuspend::getSuspendStats\<close>. What a file or a directory yields is an argument of the
  reader: \<^term>\<open>None\<close> where opening or reading fails, \<^term>\<open>Some\<close> of the bytes otherwise.

  The text processing of the standard library that the readers use is modelled: \<open>std::getline\<close>
  on a string stream, the extraction of a \<open>double\<close> (the character loop of libc++'s
  \<open>num_get\<close>, then \<open>strtod\<close> on the collected characters, all of which must be consumed) and
  \<open>std::stoi\<close>, whose exceptions nothing catches. \<open>strtod\<close> is modelled for decimal notation;
  what it makes of hexadecimal notation, infinities and NaNs is the argument \<open>strtod_other\<close>.
  \<open>android::base::Trim\<close> is not part of the sources and is the argument \<open>trim\<close>.

  Shown: the wakeup reasons are never empty and are exactly the trimmed non-empty lines; a suspend
  time printed by the kernel is read with an error of at most one nanosecond; the suspend
  statistics depend on the files by name only, and a file the service does not know ends the process
  if it does not start with a number.
\<close>

subsection \<open>\<open>readFd\<close>\<close>

text \<open>\<open>rd n\<close> is the answer of \<open>read\<close> with a buffer of \<open>n\<close> bytes.\<close>

definition readFd :: "nat \<Rightarrow> (nat \<Rightarrow> string option) \<Rightarrow> string" where
  "readFd BUFSIZ rd = (case rd BUFSIZ of None \<Rightarrow> [] | Some buf \<Rightarrow> buf)"

subsection \<open>\<open>readWakeupReasons\<close>\<close>

text \<open>The lines a loop over \<open>std::getline\<close> sees: a last line without newline counts, an empty rest
  does not.\<close>

function getlines :: "string \<Rightarrow> string list" where
  "getlines s =
     (if s = [] then []
      else takeWhile (\<lambda>c. c \<noteq> newline) s # getlines (tl (dropWhile (\<lambda>c. c \<noteq> newline) s)))"
  by pat_completeness auto
termination
  by (relation "measure length") (auto simp only: in_measure intro: length_tl_dropWhile)

declare getlines.simps [simp del]

definition kErrorWakeup :: string where
  "kErrorWakeup = ''error''"

definition kUnknownWakeup :: string where
  "kUnknownWakeup = ''unknown''"

definition readWakeupReasons :: "(string \<Rightarrow> string) \<Rightarrow> string option \<Rightarrow> string list" where
  "readWakeupReasons trim content =
     (case content of
        None \<Rightarrow> [kErrorWakeup]
      | Some reasonlines \<Rightarrow>
          if reasonlines = [] then [kUnknownWakeup]
          else
            let wakeupReasons = filter (\<lambda>r. r \<noteq> []) (map trim (getlines reasonlines))
            in if wakeupReasons = [] then [kUnknownWakeup] else wakeupReasons)"

subsection \<open>\<open>readSuspendTime\<close>\<close>

definition isdigit :: "char \<Rightarrow> bool" where
  "isdigit c \<longleftrightarrow> c \<in> set ''0123456789''"

definition digit_value :: "char \<Rightarrow> nat" where
  "digit_value c = of_char c - 48"

definition digits_value :: "string \<Rightarrow> nat" where
  "digits_value ds = foldl (\<lambda>n c. 10 * n + digit_value c) 0 ds"

text \<open>ASCII case, for the letters that can occur.\<close>

definition toupper :: "char \<Rightarrow> char" where
  "toupper c = (if 97 \<le> (of_char c :: nat) \<and> (of_char c :: nat) \<le> 122
     then char_of ((of_char c :: nat) - 32) else c)"

text \<open>
  The characters of a floating-point number collected by \<open>num_get\<close>: \<open>units\<close> holds up to the
  decimal point or the exponent, \<open>e\<close> is the exponent letter in upper case until it is seen; a sign is
  taken at the start and after the exponent letter only.
\<close>

definition float_atoms :: string where
  "float_atoms = ''0123456789abcdefABCDEFxX+-pPiInN''"

fun stage2_float :: "bool \<Rightarrow> char \<Rightarrow> string \<Rightarrow> string \<Rightarrow> string \<times> string" where
  "stage2_float units e a [] = (a, [])"
| "stage2_float units e a (c # cs) =
     (if c = CHR ''.'' then
        if units then stage2_float False e (a @ [c]) cs else (a, c # cs)
      else if c \<notin> set float_atoms then (a, c # cs)
      else if c = CHR ''-'' \<or> c = CHR ''+'' then
        if a = [] \<or> toupper (last a) = toupper e then stage2_float units e (a @ [c]) cs
        else (a, c # cs)
      else if c = CHR ''x'' \<or> c = CHR ''X'' then stage2_float units CHR ''P'' (a @ [c]) cs
      else if toupper c = e then
        stage2_float False (if e = CHR ''P'' then CHR ''p'' else CHR ''e'') (a @ [c]) cs
      else stage2_float units e (a @ [c]) cs)"

text \<open>An optional sign, and an exponent up to the end of the text.\<close>

definition split_sign :: "string \<Rightarrow> bool \<times> string" where
  "split_sign s =
     (case s of c # r \<Rightarrow> if c = CHR ''-'' then (True, r) else if c = CHR ''+'' then (False, r) else (False, s)
      | [] \<Rightarrow> (False, s))"

definition strtod_exponent :: "string \<Rightarrow> int option" where
  "strtod_exponent s =
     (case s of [] \<Rightarrow> Some 0
      | c # r \<Rightarrow>
          if c = CHR ''e'' \<or> c = CHR ''E'' then
            (case split_sign r of (neg, ds) \<Rightarrow>
               if ds = [] \<or> \<not> list_all isdigit ds then None
               else Some (if neg then - int (digits_value ds) else int (digits_value ds)))
          else None)"

text \<open>\<open>strtod\<close> on a whole text; \<^term>\<open>None\<close> if it does not consume all of it.\<close>

definition strtod_all :: "(string \<Rightarrow> rat option) \<Rightarrow> string \<Rightarrow> rat option" where
  "strtod_all strtod_other s =
     (case split_sign s of (neg, b) \<Rightarrow>
        if (\<exists>c \<in> set ''iInN''. take 1 b = [c]) \<or> take 2 b = ''0x'' \<or> take 2 b = ''0X''
        then strtod_other s
        else
          let ip = takeWhile isdigit b; r1 = dropWhile isdigit b;
              point = (take 1 r1 = ''.'');
              fp = (if point then takeWhile isdigit (tl r1) else []);
              r2 = (if point then dropWhile isdigit (tl r1) else r1)
          in if ip = [] \<and> fp = [] then None
             else case strtod_exponent r2 of None \<Rightarrow> None
             | Some e \<Rightarrow>
                 let v = of_nat (digits_value (ip @ fp)) * 10 powi (e - int (length fp))
                 in Some (dbl_round (if neg then - v else v)))"

text \<open>\<open>ss >> x\<close> for a \<open>double\<close>: the value and the rest of the stream.\<close>

definition extract_double :: "(string \<Rightarrow> rat option) \<Rightarrow> string \<Rightarrow> (rat \<times> string) option" where
  "extract_double strtod_other s =
     (case stage2_float True CHR ''E'' [] (dropWhile isspace s) of (a, rest) \<Rightarrow>
        if a = [] then None
        else case strtod_all strtod_other a of None \<Rightarrow> None | Some v \<Rightarrow> Some (v, rest))"

definition readSuspendTime :: "(string \<Rightarrow> rat option) \<Rightarrow> string option \<Rightarrow> SuspendTime" where
  "readSuspendTime strtod_other content =
     (let failed = \<lparr>suspendOverhead = 0, suspendTime = 0\<rparr> in
      case content of None \<Rightarrow> failed
      | Some ss \<Rightarrow>
          (case extract_double strtod_other ss of None \<Rightarrow> failed
           | Some (overhead, ss1) \<Rightarrow>
               (case extract_double strtod_other ss1 of None \<Rightarrow> failed
                | Some (time, ss2) \<Rightarrow>
                    \<lparr>suspendOverhead = seconds_to_ns overhead, suspendTime = seconds_to_ns time\<rparr>)))"

subsection \<open>\<open>getSuspendStats\<close>\<close>

text \<open>\<open>std::stoi\<close>: \<^term>\<open>None\<close> where it throws.\<close>

definition stoi :: "string \<Rightarrow> i32 option" where
  "stoi s =
     (case split_sign (dropWhile isspace s) of (neg, b) \<Rightarrow>
        let ds = takeWhile isdigit b;
            v = (if neg then - int (digits_value ds) else int (digits_value ds))
        in if ds = [] then None
           else if v < - (2 ^ 31) \<or> 2 ^ 31 \<le> v then None
           else Some (of_int v))"

record SuspendStats =
  st_success :: i32
  st_fail :: i32
  failedFreeze :: i32
  failedPrepare :: i32
  failedSuspend :: i32
  failedSuspendLate :: i32
  failedSuspendNoirq :: i32
  failedResume :: i32
  failedResumeEarly :: i32
  failedResumeNoirq :: i32
  lastFailedDev :: string
  lastFailedErrno :: i32
  lastFailedStep :: string

definition SuspendStats_zero :: SuspendStats where
  "SuspendStats_zero =
     \<lparr>st_success = 0, st_fail = 0, failedFreeze = 0, failedPrepare = 0, failedSuspend = 0,
      failedSuspendLate = 0, failedSuspendNoirq = 0, failedResume = 0, failedResumeEarly = 0,
      failedResumeNoirq = 0, lastFailedDev = [], lastFailedErrno = 0, lastFailedStep = []\<rparr>"

text \<open>The outcomes: a value, an error value, or an exception that ends the process.\<close>

datatype stats_result = StatsOk SuspendStats | StatsError string | StatsAbort

text \<open>A directory entry: its name, and whether the file opens and what reading it gives.\<close>

type_synonym stats_file = "string \<times> string option option"

text \<open>The chain of comparisons for the numeric files.\<close>

definition set_stat :: "string \<Rightarrow> i32 \<Rightarrow> SuspendStats \<Rightarrow> SuspendStats" where
  "set_stat statName statVal stats =
     (if statName = ''success'' then stats\<lparr>st_success := statVal\<rparr>
      else if statName = ''fail'' then stats\<lparr>st_fail := statVal\<rparr>
      else if statName = ''failed_freeze'' then stats\<lparr>failedFreeze := statVal\<rparr>
      else if statName = ''failed_prepare'' then stats\<lparr>failedPrepare := statVal\<rparr>
      else if statName = ''failed_suspend'' then stats\<lparr>failedSuspend := statVal\<rparr>
      else if statName = ''failed_suspend_late'' then stats\<lparr>failedSuspendLate := statVal\<rparr>
      else if statName = ''failed_suspend_noirq'' then stats\<lparr>failedSuspendNoirq := statVal\<rparr>
      else if statName = ''failed_resume'' then stats\<lparr>failedResume := statVal\<rparr>
      else if statName = ''failed_resume_early'' then stats\<lparr>failedResumeEarly := statVal\<rparr>
      else if statName = ''failed_resume_noirq'' then stats\<lparr>failedResumeNoirq := statVal\<rparr>
      else if statName = ''last_failed_errno'' then stats\<lparr>lastFailedErrno := statVal\<rparr>
      else stats)"

fun read_stats :: "stats_file list \<Rightarrow> SuspendStats \<Rightarrow> stats_result" where
  "read_stats [] stats = StatsOk stats"
| "read_stats ((statName, file) # des) stats =
     (if statName = ''.'' \<or> statName = ''..'' then read_stats des stats
      else case file of None \<Rightarrow> StatsError (''Failed to open '' @ statName)
      | Some content \<Rightarrow>
          (case content of None \<Rightarrow> StatsError (''Failed to read '' @ statName)
           | Some raw \<Rightarrow>
               let valStr = filter (\<lambda>c. c \<noteq> newline) raw in
               if statName = ''last_failed_dev'' then read_stats des (stats\<lparr>lastFailedDev := valStr\<rparr>)
               else if statName = ''last_failed_step'' then read_stats des (stats\<lparr>lastFailedStep := valStr\<rparr>)
               else case stoi valStr of None \<Rightarrow> StatsAbort
                    | Some statVal \<Rightarrow> read_stats des (set_stat statName statVal stats)))"

text \<open>
  While the directory is read the service holds a wake lock of its own, which it acquires through
  the service manager if the service is registered and which the destructor of \<open>wl\<close> releases on
  every return. \<open>suspendService\<close> is \<^term>\<open>None\<close> if the service is not registered, and otherwise says whether
  \<open>acquireWakeLock\<close> gave a lock; if it did not, \<open>wl\<close> stays null and the files are read without one. The second
  component lists the wake lock calls.
\<close>

datatype stats_lock = StatsAcquire string | StatsRelease string

definition getSuspendStats ::
  "bool option \<Rightarrow> stats_file list option \<Rightarrow> stats_result \<times> stats_lock list" where
  "getSuspendStats suspendService dp =
     (case dp of None \<Rightarrow> (StatsOk SuspendStats_zero, [])
      | Some des \<Rightarrow>
          let r = read_stats des SuspendStats_zero;
              acquired = (if suspendService \<noteq> None then [StatsAcquire ''suspend_stats_lock''] else []);
              released = (if suspendService = Some True \<and> r \<noteq> StatsAbort
                          then [StatsRelease ''suspend_stats_lock''] else [])
          in (r, acquired @ released))"

subsection \<open>Lines\<close>

lemma getlines_Nil [simp]: "getlines [] = []"
  by (subst getlines.simps) simp

lemma getlines_line:
  assumes "newline \<notin> set l"
  shows "getlines (l @ newline # rest) = l # getlines rest"
proof -
  have "takeWhile (\<lambda>c. c \<noteq> newline) (l @ newline # rest) = l"
    "dropWhile (\<lambda>c. c \<noteq> newline) (l @ newline # rest) = newline # rest"
    using assms by (induction l) auto
  then show ?thesis by (subst getlines.simps) simp
qed

lemma getlines_concat:
  assumes "\<forall>l \<in> set ls. newline \<notin> set l"
  shows "getlines (concat (map (\<lambda>l. l @ [newline]) ls)) = ls"
  using assms by (induction ls) (simp_all add: getlines_line)

subsection \<open>Decimal numbers\<close>

lemma isdigit_atom:
  assumes "isdigit c"
  shows "c \<in> set float_atoms" "c \<noteq> CHR ''.''" "c \<noteq> CHR ''-''" "c \<noteq> CHR ''+''"
    "c \<noteq> CHR ''x''" "c \<noteq> CHR ''X''" "toupper c \<noteq> CHR ''E''" "\<not> isspace c"
    "c \<notin> set ''iInN''"
  using assms by (auto simp: isdigit_def toupper_def isspace_def float_atoms_def)

lemma stage2_digits:
  "list_all isdigit ds \<Longrightarrow>
   stage2_float units CHR ''E'' a (ds @ rest) = stage2_float units CHR ''E'' (a @ ds) rest"
  by (induction ds arbitrary: a) (simp_all add: isdigit_atom)

lemma takeWhile_digits:
  assumes "list_all isdigit ds" "rest = [] \<or> \<not> isdigit (hd rest)"
  shows "takeWhile isdigit (ds @ rest) = ds" "dropWhile isdigit (ds @ rest) = rest"
  using assms by (induction ds) (cases rest; simp)+

lemma stage2_space: "isspace c \<Longrightarrow> stage2_float units e a (c # rest) = (a, c # rest)"
proof -
  assume "isspace c"
  then have "c \<noteq> CHR ''.''" "c \<notin> set float_atoms" by (auto simp: isspace_def float_atoms_def)
  then show ?thesis by simp
qed

lemma split_sign_digit: "isdigit c \<Longrightarrow> split_sign (c # r) = (False, c # r)"
  by (simp add: split_sign_def isdigit_atom)

lemma strtod_plain:
  assumes "ds \<noteq> []" "list_all isdigit ds" "list_all isdigit fs"
  shows "strtod_all other (ds @ ''.'' @ fs) =
    Some (dbl_round (of_nat (digits_value (ds @ fs)) / 10 ^ length fs))"
proof -
  obtain d r where ds: "ds = d # r" using assms(1) by (cases ds) auto
  then have d: "isdigit d" using assms(2) by simp
  have sgn: "split_sign (ds @ ''.'' @ fs) = (False, ds @ ''.'' @ fs)"
    using d by (simp add: ds split_sign_digit)
  have x: "take 2 (ds @ ''.'' @ fs) \<noteq> ''0x''" "take 2 (ds @ ''.'' @ fs) \<noteq> ''0X''"
    "\<not> (\<exists>c \<in> set ''iInN''. take 1 (ds @ ''.'' @ fs) = [c])"
    using assms(2) isdigit_atom(5,6) isdigit_atom(9) [OF d] by (cases r; auto simp: ds)+
  have "\<not> isdigit CHR ''.''" by (simp add: isdigit_def)
  then have p: "takeWhile isdigit (ds @ ''.'' @ fs) = ds" "dropWhile isdigit (ds @ ''.'' @ fs) = ''.'' @ fs"
    using takeWhile_digits [OF assms(2), of "''.'' @ fs"] by auto
  have q: "takeWhile isdigit fs = fs" "dropWhile isdigit fs = []"
    using takeWhile_digits [OF assms(3), of "[]"] by auto
  show ?thesis
    unfolding strtod_all_def sgn prod.case using x
    by (simp only: p if_False) (simp add: q assms(1) strtod_exponent_def power_int_minus_left field_simps
        power_int_def)
qed

text \<open>A number in the notation the kernel prints, up to the following blank.\<close>

lemma extract_plain:
  assumes "ds \<noteq> []" "list_all isdigit ds" "list_all isdigit fs" "isspace c"
    and "list_all isspace ws"
  shows "extract_double other (ws @ ds @ ''.'' @ fs @ c # rest) =
    Some (dbl_round (of_nat (digits_value (ds @ fs)) / 10 ^ length fs), c # rest)"
proof -
  have "dropWhile isspace (ws @ ds @ ''.'' @ fs @ c # rest) = ds @ ''.'' @ fs @ c # rest"
    using assms(1,2,5) by (induction ws) (auto simp: neq_Nil_conv isdigit_atom)
  moreover have "stage2_float True CHR ''E'' [] (ds @ ''.'' @ fs @ c # rest) = (ds @ ''.'' @ fs, c # rest)"
  proof -
    have "stage2_float True CHR ''E'' [] (ds @ ''.'' @ fs @ c # rest) =
        stage2_float True CHR ''E'' ds (CHR ''.'' # fs @ c # rest)"
      by (simp only: stage2_digits [OF assms(2)] append_Nil append_Cons)
    also have "\<dots> = stage2_float False CHR ''E'' (ds @ ''.'') (fs @ c # rest)" by simp
    finally show ?thesis by (simp only: stage2_digits [OF assms(3)] stage2_space [OF assms(4)] append_assoc)
  qed
  ultimately show ?thesis
    using assms(1) strtod_plain [OF assms(1-3), of other] by (simp add: extract_double_def)
qed

subsection \<open>Statistics by name\<close>

text \<open>One file of the directory that reads and parses.\<close>

definition stat_step :: "stats_file \<Rightarrow> SuspendStats \<Rightarrow> SuspendStats" where
  "stat_step de stats =
     (case de of (n, file) \<Rightarrow>
        case Option.bind file (map_option (filter (\<lambda>c. c \<noteq> newline))) of None \<Rightarrow> stats
        | Some v \<Rightarrow>
            if n = ''last_failed_dev'' then stats\<lparr>lastFailedDev := v\<rparr>
            else if n = ''last_failed_step'' then stats\<lparr>lastFailedStep := v\<rparr>
            else case stoi v of None \<Rightarrow> stats | Some k \<Rightarrow> set_stat n k stats)"

text \<open>A file the walk gets past.\<close>

definition good_stat :: "stats_file \<Rightarrow> bool" where
  "good_stat de =
     (case de of (n, file) \<Rightarrow> n = ''.'' \<or> n = ''..'' \<or>
        (case Option.bind file (map_option (filter (\<lambda>c. c \<noteq> newline))) of None \<Rightarrow> False
         | Some v \<Rightarrow> n = ''last_failed_dev'' \<or> n = ''last_failed_step'' \<or> stoi v \<noteq> None))"

lemma set_stat_fields [field_defs]:
  "st_success (set_stat n v s) = (if n = ''success'' then v else st_success s)"
  "st_fail (set_stat n v s) = (if n = ''fail'' then v else st_fail s)"
  "failedFreeze (set_stat n v s) = (if n = ''failed_freeze'' then v else failedFreeze s)"
  "failedPrepare (set_stat n v s) = (if n = ''failed_prepare'' then v else failedPrepare s)"
  "failedSuspend (set_stat n v s) = (if n = ''failed_suspend'' then v else failedSuspend s)"
  "failedSuspendLate (set_stat n v s) = (if n = ''failed_suspend_late'' then v else failedSuspendLate s)"
  "failedSuspendNoirq (set_stat n v s) = (if n = ''failed_suspend_noirq'' then v else failedSuspendNoirq s)"
  "failedResume (set_stat n v s) = (if n = ''failed_resume'' then v else failedResume s)"
  "failedResumeEarly (set_stat n v s) = (if n = ''failed_resume_early'' then v else failedResumeEarly s)"
  "failedResumeNoirq (set_stat n v s) = (if n = ''failed_resume_noirq'' then v else failedResumeNoirq s)"
  "lastFailedErrno (set_stat n v s) = (if n = ''last_failed_errno'' then v else lastFailedErrno s)"
  "lastFailedDev (set_stat n v s) = lastFailedDev s"
  "lastFailedStep (set_stat n v s) = lastFailedStep s"
  by (auto simp: set_stat_def)

text \<open>Reading stops at the first file that cannot be opened or read or does not parse.\<close>

lemma read_stats_append:
  assumes "list_all good_stat des"
  shows "read_stats (des @ rest) stats =
    read_stats rest (fold stat_step (filter (\<lambda>(n, f). n \<noteq> ''.'' \<and> n \<noteq> ''..'') des) stats)"
  using assms
proof (induction des arbitrary: stats)
  case (Cons de des)
  then show ?case
    by (cases de) (auto simp: good_stat_def stat_step_def split: option.splits bind_splits)
qed simp

text \<open>What a file contributes: its text without newlines, and its number.\<close>

definition stat_text :: "string option option \<Rightarrow> string option" where
  "stat_text file = Option.bind file (map_option (filter (\<lambda>c. c \<noteq> newline)))"

definition stat_number :: "string option option \<Rightarrow> i32 option" where
  "stat_number file = Option.bind (stat_text file) stoi"

lemma stat_step_fields:
  shows "st_success (stat_step (n, f) i) =
     (if n = ''success'' then case stat_number f of Some v \<Rightarrow> v | None \<Rightarrow> st_success i else st_success i)" (is ?g0)
    and "st_fail (stat_step (n, f) i) =
     (if n = ''fail'' then case stat_number f of Some v \<Rightarrow> v | None \<Rightarrow> st_fail i else st_fail i)" (is ?g1)
    and "failedFreeze (stat_step (n, f) i) =
     (if n = ''failed_freeze'' then case stat_number f of Some v \<Rightarrow> v | None \<Rightarrow> failedFreeze i else failedFreeze i)" (is ?g2)
    and "failedPrepare (stat_step (n, f) i) =
     (if n = ''failed_prepare'' then case stat_number f of Some v \<Rightarrow> v | None \<Rightarrow> failedPrepare i else failedPrepare i)" (is ?g3)
    and "failedSuspend (stat_step (n, f) i) =
     (if n = ''failed_suspend'' then case stat_number f of Some v \<Rightarrow> v | None \<Rightarrow> failedSuspend i else failedSuspend i)" (is ?g4)
    and "failedSuspendLate (stat_step (n, f) i) =
     (if n = ''failed_suspend_late'' then case stat_number f of Some v \<Rightarrow> v | None \<Rightarrow> failedSuspendLate i else failedSuspendLate i)" (is ?g5)
    and "failedSuspendNoirq (stat_step (n, f) i) =
     (if n = ''failed_suspend_noirq'' then case stat_number f of Some v \<Rightarrow> v | None \<Rightarrow> failedSuspendNoirq i else failedSuspendNoirq i)" (is ?g6)
    and "failedResume (stat_step (n, f) i) =
     (if n = ''failed_resume'' then case stat_number f of Some v \<Rightarrow> v | None \<Rightarrow> failedResume i else failedResume i)" (is ?g7)
    and "failedResumeEarly (stat_step (n, f) i) =
     (if n = ''failed_resume_early'' then case stat_number f of Some v \<Rightarrow> v | None \<Rightarrow> failedResumeEarly i else failedResumeEarly i)" (is ?g8)
    and "failedResumeNoirq (stat_step (n, f) i) =
     (if n = ''failed_resume_noirq'' then case stat_number f of Some v \<Rightarrow> v | None \<Rightarrow> failedResumeNoirq i else failedResumeNoirq i)" (is ?g9)
    and "lastFailedErrno (stat_step (n, f) i) =
     (if n = ''last_failed_errno'' then case stat_number f of Some v \<Rightarrow> v | None \<Rightarrow> lastFailedErrno i else lastFailedErrno i)" (is ?g10)
    and "lastFailedDev (stat_step (n, f) i) =
     (if n = ''last_failed_dev'' then case stat_text f of Some v \<Rightarrow> v | None \<Rightarrow> lastFailedDev i else lastFailedDev i)" (is ?g11)
    and "lastFailedStep (stat_step (n, f) i) =
     (if n = ''last_failed_step'' then case stat_text f of Some v \<Rightarrow> v | None \<Rightarrow> lastFailedStep i else lastFailedStep i)" (is ?g12)
proof -
  have "stat_step (n, f) i = (case stat_text f of None \<Rightarrow> i | Some v \<Rightarrow>
      if n = ''last_failed_dev'' then i\<lparr>lastFailedDev := v\<rparr>
      else if n = ''last_failed_step'' then i\<lparr>lastFailedStep := v\<rparr>
      else case stoi v of None \<Rightarrow> i | Some k \<Rightarrow> set_stat n k i)"
    by (simp add: stat_step_def stat_text_def)
  note step = this
  show ?g0 ?g1 ?g2 ?g3 ?g4 ?g5 ?g6 ?g7 ?g8 ?g9 ?g10 ?g11 ?g12
    by (cases "stat_text f"; cases "stoi (the (stat_text f))"; simp add: step stat_number_def field_defs)+
qed

lemma map_of_filter_key:
  "map_of (filter (\<lambda>(n, f). P n) xs) k = (if P k then map_of xs k else None)"
  by (induction xs) auto

subsection \<open>Properties\<close>

text \<open>C28. The wakeup reasons reported after a suspend are never an empty list and never contain an
  empty reason; reasons that the kernel lists one per line, with no blanks around them, are read
  back one by one in order.\<close>

theorem wakeup_reasons_exact:
  assumes "rs \<noteq> []" "\<forall>r \<in> set rs. r \<noteq> [] \<and> newline \<notin> set r \<and> trim r = r"
  shows "readWakeupReasons trim (Some (concat (map (\<lambda>r. r @ [newline]) rs))) = rs \<and>
    readWakeupReasons trim content \<noteq> [] \<and> [] \<notin> set (readWakeupReasons trim content)"
proof -
  have "map trim rs = rs" "filter (\<lambda>r. r \<noteq> []) rs = rs"
    using assms(2) by (auto simp: map_idI filter_id_conv)
  moreover have "concat (map (\<lambda>r. r @ [newline]) rs) \<noteq> []" using assms(1) by (cases rs) auto
  ultimately have "readWakeupReasons trim (Some (concat (map (\<lambda>r. r @ [newline]) rs))) = rs"
    using assms by (simp add: readWakeupReasons_def getlines_concat)
  then show ?thesis
    by (auto simp: readWakeupReasons_def kErrorWakeup_def kUnknownWakeup_def Let_def split: option.splits)
qed

theorem wakeup_reasons_exact_witness:
  "readWakeupReasons (\<lambda>r. dropWhile isspace r) (Some (''57 rtc'' @ [newline] @ ''12 usb'' @ [newline])) =
     [''57 rtc'', ''12 usb'']"
proof -
  have "\<forall>r \<in> set [''57 rtc'', ''12 usb'']. r \<noteq> [] \<and> newline \<notin> set r \<and> dropWhile isspace r = r"
    by (simp add: isspace_def)
  from wakeup_reasons_exact [OF _ this] show ?thesis by simp
qed

text \<open>C29. The suspend overhead and suspend time that the kernel prints as seconds with nine decimals
  are read back, through \<open>double\<close> and the truncating cast, exactly or one nanosecond short.\<close>

theorem suspend_time_accurate:
  assumes "ds \<noteq> []" "list_all isdigit ds" "list_all isdigit fs" "length fs = 9"
    and "ds' \<noteq> []" "list_all isdigit ds'" "list_all isdigit fs'" "length fs' = 9"
    and "digits_value (ds @ fs) < 2 ^ 51" "digits_value (ds' @ fs') < 2 ^ 51"
  shows "\<exists>a b. readSuspendTime other (Some (ds @ ''.'' @ fs @ '' '' @ ds' @ ''.'' @ fs' @ [newline])) =
      \<lparr>suspendOverhead = a, suspendTime = b\<rparr> \<and>
    a \<in> {int (digits_value (ds @ fs)) - 1, int (digits_value (ds @ fs))} \<and>
    b \<in> {int (digits_value (ds' @ fs')) - 1, int (digits_value (ds' @ fs'))}"
proof -
  have sp: "isspace CHR '' ''" "isspace newline" by (simp_all add: isspace_def)
  have e1: "extract_double other (ds @ ''.'' @ fs @ '' '' @ ds' @ ''.'' @ fs' @ [newline]) =
      Some (dbl_round (of_nat (digits_value (ds @ fs)) / 10 ^ 9), '' '' @ ds' @ ''.'' @ fs' @ [newline])"
    using extract_plain [OF assms(1-3) sp(1), of "[]" other "ds' @ ''.'' @ fs' @ [newline]"] assms(4) by simp
  have e2: "extract_double other ('' '' @ ds' @ ''.'' @ fs' @ [newline]) =
      Some (dbl_round (of_nat (digits_value (ds' @ fs')) / 10 ^ 9), [newline])"
    using extract_plain [OF assms(5-7) sp(2), of "'' ''" other "[]"] assms(8) sp(1) by simp
  have n: "seconds_to_ns (dbl_round (of_nat k / 10 ^ 9)) \<in> {int k - 1, int k}" if "k < 2 ^ 51" for k
    using seconds_to_ns_near [of "int k"] that by simp
  show ?thesis
    unfolding readSuspendTime_def Let_def option.case e1 prod.case e2 using n [OF assms(9)] n [OF assms(10)]
    by blast
qed

theorem suspend_time_accurate_witness:
  "\<exists>a b. readSuspendTime (\<lambda>_. None) (Some (''0.120000003 4.000000000'' @ [newline])) =
      \<lparr>suspendOverhead = a, suspendTime = b\<rparr> \<and> a \<in> {120000002, 120000003} \<and> b \<in> {3999999999, 4000000000}"
  using suspend_time_accurate [of "''0''" "''120000003''" "''4''" "''000000000''" "\<lambda>_. None"]
  by (simp add: isdigit_def digits_value_def digit_value_def)

text \<open>C30. The suspend statistics depend on the files of the directory by name only: if every file
  can be read and every file other than the two textual ones starts with a number in range, the
  result has in each field what the file of that name says, whatever the order of the directory and
  whatever other files there are. With the service registered the statistics wake lock has been asked for first,
  and released at the end if it was granted; the result is the same without it.\<close>

theorem suspend_stats_by_name:
  assumes "distinct (map fst des)" "list_all good_stat des"
  defines "num \<equiv> \<lambda>n. case Option.bind (map_of des n) stat_number of Some v \<Rightarrow> v | None \<Rightarrow> 0"
    and "txt \<equiv> \<lambda>n. case Option.bind (map_of des n) stat_text of Some v \<Rightarrow> v | None \<Rightarrow> []"
  shows "getSuspendStats suspendService (Some des) =
    (StatsOk \<lparr>st_success = num ''success'', st_fail = num ''fail'',
       failedFreeze = num ''failed_freeze'', failedPrepare = num ''failed_prepare'',
       failedSuspend = num ''failed_suspend'', failedSuspendLate = num ''failed_suspend_late'',
       failedSuspendNoirq = num ''failed_suspend_noirq'', failedResume = num ''failed_resume'',
       failedResumeEarly = num ''failed_resume_early'', failedResumeNoirq = num ''failed_resume_noirq'',
       lastFailedDev = txt ''last_failed_dev'', lastFailedErrno = num ''last_failed_errno'',
       lastFailedStep = txt ''last_failed_step''\<rparr>,
     case suspendService of None \<Rightarrow> []
     | Some granted \<Rightarrow> StatsAcquire ''suspend_stats_lock'' # (if granted then [StatsRelease ''suspend_stats_lock''] else []))"
proof -
  let ?des = "filter (\<lambda>(n, f). n \<noteq> ''.'' \<and> n \<noteq> ''..'') des"
  have d: "distinct (map fst ?des)" using assms(1) by (rule distinct_map_filter)
  note fields = stat_step_fields [THEN fold_field, OF d]
  have "read_stats des SuspendStats_zero = StatsOk (fold stat_step ?des SuspendStats_zero)"
    using read_stats_append [OF assms(2), of "[]"] by simp
  moreover have "fold stat_step ?des SuspendStats_zero = \<lparr>st_success = num ''success'', st_fail = num ''fail'',
       failedFreeze = num ''failed_freeze'', failedPrepare = num ''failed_prepare'',
       failedSuspend = num ''failed_suspend'', failedSuspendLate = num ''failed_suspend_late'',
       failedSuspendNoirq = num ''failed_suspend_noirq'', failedResume = num ''failed_resume'',
       failedResumeEarly = num ''failed_resume_early'', failedResumeNoirq = num ''failed_resume_noirq'',
       lastFailedDev = txt ''last_failed_dev'', lastFailedErrno = num ''last_failed_errno'',
       lastFailedStep = txt ''last_failed_step''\<rparr>"
    by (rule SuspendStats.equality)
      (simp_all add: fields map_of_filter_key num_def txt_def SuspendStats_zero_def split: option.split)
  ultimately show ?thesis by (cases suspendService) (simp_all add: getSuspendStats_def)
qed

theorem suspend_stats_by_name_witness:
  "getSuspendStats (Some True) (Some [(''last_hw_sleep'', Some (Some ''7'')), (''fail'', Some (Some (''2'' @ [newline])))]) =
     (StatsOk (SuspendStats_zero\<lparr>st_fail := 2\<rparr>),
      [StatsAcquire ''suspend_stats_lock'', StatsRelease ''suspend_stats_lock''])"
  using suspend_stats_by_name [of "[(''last_hw_sleep'', Some (Some ''7'')), (''fail'', Some (Some (''2'' @ [newline])))]"
      "Some True"]
  by (simp add: good_stat_def stat_number_def stat_text_def stoi_def split_sign_def isspace_def isdigit_def
      digits_value_def digit_value_def SuspendStats_zero_def)

text \<open>A directory entry the service has no field for still goes through \<open>std::stoi\<close>: if its
  text does not start with a number the exception ends the process, while the statistics wake lock is
  held. A file that cannot be opened gives an error value instead, and the lock is released.\<close>

lemma suspend_stats_unknown_file:
  "getSuspendStats (Some True) (Some [(''.'', None), (''last_failed_abort_reason'', Some (Some ''usb''))]) =
     (StatsAbort, [StatsAcquire ''suspend_stats_lock'']) \<and>
   getSuspendStats (Some True) (Some [(''.'', None), (''fail'', None)]) =
     (StatsError ''Failed to open fail'', [StatsAcquire ''suspend_stats_lock'', StatsRelease ''suspend_stats_lock''])"
  by (simp add: getSuspendStats_def stoi_def split_sign_def isspace_def isdigit_def)

end
