(* ===== verification/Node_List.thy ===== *)
theory Node_List
  imports Prelude
begin

text \<open>
  The data structure both statistics lists of the suspend service are built on: a
  \<open>std::list\<close>, whose iterators stay valid while other nodes come and go, and a
  \<open>std::unordered_map\<close> from keys to iterators into it (\<open>mStats\<close> / \<open>mWakeups\<close> and
  \<open>mLookupTable\<close> in \<open>WakeLockEntryList.h\<close> and \<open>WakeupList.h\<close>).

  A node has an identity of its own (a fresh number), so an iterator is that number and
  erasing one node leaves every other iterator as it was. Dereferencing or erasing an
  iterator that names no node is undefined in C++ and \<^term>\<open>None\<close> here.

  The theory gives the coupling invariant between the list and the table
  (\<open>indexed\<close>), the effect of insertion and removal on both, the abstract
  least-recently-used list (\<open>lru_touch\<close>) and, as the locale \<open>lru_cache\<close>, the contract
  that a bounded statistics list promises its clients.
\<close>

type_synonym iter = nat

record 'e node_list =
  nl_nodes :: "(iter \<times> 'e) list"
  nl_fresh :: iter

definition nl_empty :: "'e node_list" where
  "nl_empty = \<lparr>nl_nodes = [], nl_fresh = 0\<rparr>"

text \<open>\<open>std::list::size\<close>, and the elements from front to back.\<close>

definition nl_size :: "'e node_list \<Rightarrow> nat" where
  "nl_size l = length (nl_nodes l)"

definition nl_elems :: "'e node_list \<Rightarrow> 'e list" where
  "nl_elems l = map snd (nl_nodes l)"

text \<open>\<open>*it\<close>, \<open>begin()\<close>, \<open>std::prev(end())\<close>, \<open>emplace_front\<close> and \<open>erase(it)\<close>.\<close>

definition nl_deref :: "'e node_list \<Rightarrow> iter \<Rightarrow> 'e option" where
  "nl_deref l it = map_of (nl_nodes l) it"

definition nl_begin :: "'e node_list \<Rightarrow> iter option" where
  "nl_begin l = (case nl_nodes l of [] \<Rightarrow> None | n # _ \<Rightarrow> Some (fst n))"

definition nl_prev_end :: "'e node_list \<Rightarrow> iter option" where
  "nl_prev_end l = (if nl_nodes l = [] then None else Some (fst (last (nl_nodes l))))"

definition nl_emplace_front :: "'e \<Rightarrow> 'e node_list \<Rightarrow> 'e node_list" where
  "nl_emplace_front e l =
     l\<lparr>nl_nodes := (nl_fresh l, e) # nl_nodes l, nl_fresh := Suc (nl_fresh l)\<rparr>"

definition nl_erase :: "iter \<Rightarrow> 'e node_list \<Rightarrow> 'e node_list option" where
  "nl_erase it l =
     (if it \<in> set (map fst (nl_nodes l))
      then Some (l\<lparr>nl_nodes := filter (\<lambda>n. fst n \<noteq> it) (nl_nodes l)\<rparr>)
      else None)"

text \<open>A loop that updates every element in place.\<close>

definition nl_map :: "('e \<Rightarrow> 'e) \<Rightarrow> 'e node_list \<Rightarrow> 'e node_list" where
  "nl_map f l = l\<lparr>nl_nodes := map (\<lambda>n. (fst n, f (snd n))) (nl_nodes l)\<rparr>"

text \<open>The table that maps the key of every node to the node.\<close>

definition index_of :: "('e \<Rightarrow> 'k) \<Rightarrow> (iter \<times> 'e) list \<Rightarrow> ('k \<times> iter) list" where
  "index_of key ns = map (\<lambda>n. (key (snd n), fst n)) ns"

text \<open>
  The coupling invariant: node identities are distinct and below the next fresh one, no
  two nodes carry the same key, and the table holds exactly one iterator per node.
\<close>

definition indexed :: "('e \<Rightarrow> 'k) \<Rightarrow> ('k \<rightharpoonup> iter) \<Rightarrow> 'e node_list \<Rightarrow> bool" where
  "indexed key tbl l \<longleftrightarrow>
     distinct (map fst (nl_nodes l)) \<and>
     (\<forall>n \<in> set (nl_nodes l). fst n < nl_fresh l) \<and>
     distinct (map key (nl_elems l)) \<and>
     tbl = map_of (index_of key (nl_nodes l))"

text \<open>
  The abstract statistics list: most recent entry first, one entry per key, at most
  \<open>cap\<close> of them. Recording a use of \<open>k\<close> updates the entry and moves it to the front, or
  puts a new entry there and lets the least recent one fall off the end.
\<close>

definition lru_touch ::
  "('e \<Rightarrow> 'k) \<Rightarrow> nat \<Rightarrow> 'k \<Rightarrow> ('e \<Rightarrow> 'e) \<Rightarrow> 'e \<Rightarrow> 'e list \<Rightarrow> 'e list" where
  "lru_touch key cap k f new es =
     (case find (\<lambda>e. key e = k) es of
        Some e \<Rightarrow> f e # filter (\<lambda>x. key x \<noteq> k) es
      | None \<Rightarrow> take cap (new # es))"

subsection \<open>Reading a node list\<close>

lemma nl_elems_empty [nl_simps]: "nl_elems nl_empty = []"
  by (simp add: nl_elems_def nl_empty_def)

lemma nl_elems_emplace_front [nl_simps]: "nl_elems (nl_emplace_front e l) = e # nl_elems l"
  by (simp add: nl_elems_def nl_emplace_front_def)

lemma nl_begin_emplace_front [nl_simps]: "nl_begin (nl_emplace_front e l) = Some (nl_fresh l)"
  by (simp add: nl_begin_def nl_emplace_front_def)

lemma nl_elems_map [nl_simps]: "nl_elems (nl_map f l) = map f (nl_elems l)"
  by (simp add: nl_elems_def nl_map_def)

lemma nl_size_elems [nl_simps]: "nl_size l = length (nl_elems l)"
  by (simp add: nl_elems_def nl_size_def)

subsection \<open>The table and the list stay coupled\<close>

lemma indexed_empty: "indexed key Map.empty nl_empty"
  by (simp add: indexed_def nl_elems_def nl_empty_def index_of_def)

lemma indexed_distinct: "indexed key tbl l \<Longrightarrow> distinct (map key (nl_elems l))"
  by (simp add: indexed_def)

lemma keys_index_of: "map fst (index_of key ns) = map key (map snd ns)"
  by (simp add: index_of_def)

lemma map_of_remove_key:
  "map_of (filter (\<lambda>p. fst p \<noteq> k) xs) = (map_of xs)(k := None)"
  by (induction xs) (auto simp: fun_eq_iff)

lemma map_of_index_of_filter:
  "map_of (index_of key (filter (\<lambda>n. key (snd n) \<noteq> k) ns)) = (map_of (index_of key ns))(k := None)"
proof -
  have "index_of key (filter (\<lambda>n. key (snd n) \<noteq> k) ns) = filter (\<lambda>p. fst p \<noteq> k) (index_of key ns)"
    by (induction ns) (auto simp: index_of_def)
  then show ?thesis by (simp add: map_of_remove_key)
qed

lemma indexed_None:
  assumes "indexed key tbl l"
  shows "tbl k = None \<longleftrightarrow> find (\<lambda>e. key e = k) (nl_elems l) = None"
proof -
  have "tbl k = None \<longleftrightarrow> k \<notin> set (map key (nl_elems l))"
    using assms by (simp add: indexed_def map_of_eq_None_iff nl_elems_def index_of_def image_image)
  then show ?thesis by (auto simp: find_None_iff)
qed

lemma indexed_Some:
  assumes "indexed key tbl l" "tbl k = Some it"
  obtains e where "nl_deref l it = Some e" "key e = k"
    "find (\<lambda>e. key e = k) (nl_elems l) = Some e"
proof -
  from assms have "(k, it) \<in> set (index_of key (nl_nodes l))"
    by (metis indexed_def map_of_SomeD)
  then obtain e where e: "(it, e) \<in> set (nl_nodes l)" "key e = k"
    by (auto simp: index_of_def)
  moreover from e assms(1) have "nl_deref l it = Some e"
    by (simp add: nl_deref_def indexed_def)
  moreover from e assms(1) have "find (\<lambda>e. key e = k) (nl_elems l) = Some e"
    by (auto simp: find_distinct_iff indexed_def nl_elems_def rev_image_eqI)
  ultimately show ?thesis using that by blast
qed

lemma indexed_insert:
  assumes "indexed key tbl l" "tbl (key e) = None"
  shows "indexed key (tbl(key e \<mapsto> nl_fresh l)) (nl_emplace_front e l)"
proof -
  from assms have "key e \<notin> set (map key (nl_elems l))"
    using indexed_None [OF assms(1), of "key e"] by (auto simp: find_None_iff)
  with assms(1) show ?thesis
    by (auto simp: indexed_def nl_emplace_front_def nl_elems_def index_of_def less_Suc_eq)
qed

lemma indexed_filter:
  assumes "indexed key tbl l" "nl_deref l it = Some e"
  shows "filter (\<lambda>n. fst n \<noteq> it) (nl_nodes l) = filter (\<lambda>n. key (snd n) \<noteq> key e) (nl_nodes l)"
proof (rule filter_cong [OF refl])
  fix n assume n: "n \<in> set (nl_nodes l)"
  have it: "(it, e) \<in> set (nl_nodes l)"
    using assms(2) by (simp add: nl_deref_def map_of_SomeD)
  have "inj_on fst (set (nl_nodes l))" "inj_on (\<lambda>n. key (snd n)) (set (nl_nodes l))"
    using assms(1) by (simp_all add: indexed_def distinct_map nl_elems_def o_def)
  with n it show "(fst n \<noteq> it) = (key (snd n) \<noteq> key e)"
    by (metis fst_conv inj_onD snd_conv)
qed

lemma indexed_erase:
  assumes "indexed key tbl l" "nl_deref l it = Some e"
  obtains l' where "nl_erase it l = Some l'" "nl_fresh l' = nl_fresh l"
    "nl_elems l' = filter (\<lambda>x. key x \<noteq> key e) (nl_elems l)"
    "indexed key (tbl(key e := None)) l'"
proof -
  let ?ns = "filter (\<lambda>n. fst n \<noteq> it) (nl_nodes l)"
  let ?l = "l\<lparr>nl_nodes := ?ns\<rparr>"
  have "it \<in> set (map fst (nl_nodes l))"
    using assms(2) by (force simp: nl_deref_def dest: map_of_SomeD)
  then have "nl_erase it l = Some ?l" by (simp add: nl_erase_def)
  moreover have elems: "nl_elems ?l = filter (\<lambda>x. key x \<noteq> key e) (nl_elems l)"
    by (simp add: nl_elems_def indexed_filter [OF assms] filter_map o_def)
  moreover have "indexed key (tbl(key e := None)) ?l"
    using assms(1) elems
    by (simp add: indexed_def distinct_map_filter indexed_filter [OF assms] map_of_index_of_filter)
  ultimately show ?thesis using that by simp
qed

lemma indexed_prev_end:
  assumes "indexed key tbl l" "nl_elems l \<noteq> []"
  obtains it where "nl_prev_end l = Some it" "nl_deref l it = Some (last (nl_elems l))"
proof -
  from assms(2) have ne: "nl_nodes l \<noteq> []" by (simp add: nl_elems_def)
  then have "last (nl_nodes l) \<in> set (nl_nodes l)" by simp
  then have "nl_deref l (fst (last (nl_nodes l))) = Some (snd (last (nl_nodes l)))"
    using assms(1) by (simp add: nl_deref_def indexed_def)
  with ne that show ?thesis by (simp add: nl_prev_end_def nl_elems_def last_map)
qed

lemma indexed_map:
  assumes "indexed key tbl l" "\<And>e. key (f e) = key e"
  shows "indexed key tbl (nl_map f l)"
  using assms by (simp add: indexed_def nl_map_def nl_elems_def index_of_def o_def split_def)

subsection \<open>The abstract list\<close>

lemma lru_touch_keys:
  assumes "distinct (map key es)" "length es \<le> cap" "key new = k" "\<And>e. key (f e) = key e"
  shows "map key (lru_touch key cap k f new es) = mru_push cap k (map key es)"
proof (cases "find (\<lambda>e. key e = k) es")
  case None
  then have "k \<notin> set (map key es)" by (auto simp: find_None_iff)
  with None assms(3) show ?thesis
    by (simp add: lru_touch_def mru_push_def flip: take_map)
next
  case (Some e)
  then have e: "e \<in> set es" "key e = k" by (auto dest: find_Some_in)
  then have "length (removeAll k (map key es)) < length (map key es)"
    by (metis imageI length_removeAll_less list.set_map)
  with assms(2) have "length (removeAll k (map key es)) < cap" by simp
  with Some e assms(4) show ?thesis
    by (simp add: lru_touch_def mru_push_def map_filter_key)
qed

lemma lru_touch_distinct:
  assumes "distinct (map key es)" "length es \<le> cap" "key new = k" "\<And>e. key (f e) = key e"
  shows "distinct (map key (lru_touch key cap k f new es))"
  using assms by (simp add: lru_touch_keys mru_push_def distinct_removeAll distinct_take)

lemma lru_touch_bound:
  assumes "length es \<le> cap"
  shows "length (lru_touch key cap k f new es) \<le> cap"
proof (cases "find (\<lambda>e. key e = k) es")
  case None
  then show ?thesis by (simp add: lru_touch_def)
next
  case (Some e)
  then have "e \<in> set es" "key e = k" by (auto dest: find_Some_in)
  then have "length (filter (\<lambda>x. key x \<noteq> k) es) < length es"
    by (intro length_filter_less) auto
  with Some assms show ?thesis by (simp add: lru_touch_def)
qed

subsection \<open>The contract of a bounded statistics list\<close>

text \<open>
  A client records uses (\<open>touch\<close>); the provider promises that recording never fails,
  keeps its invariant, and acts on the visible entries as the abstract list does.
\<close>

locale lru_cache =
  fixes inv :: "'s \<Rightarrow> bool"
    and contents :: "'s \<Rightarrow> 'e list"
    and cap :: "'s \<Rightarrow> nat"
    and key :: "'e \<Rightarrow> 'k"
    and touch :: "'a \<Rightarrow> 's \<Rightarrow> 's option"
    and akey :: "'a \<Rightarrow> 'k"
    and bump :: "'a \<Rightarrow> 'e \<Rightarrow> 'e"
    and fresh :: "'a \<Rightarrow> 'e"
  assumes inv_distinct: "inv s \<Longrightarrow> distinct (map key (contents s))"
    and inv_bound: "inv s \<Longrightarrow> length (contents s) \<le> cap s"
    and key_fresh: "key (fresh a) = akey a"
    and key_bump: "key (bump a e) = key e"
    and touch_ok: "inv s \<Longrightarrow> \<exists>s'. touch a s = Some s' \<and> inv s' \<and> cap s' = cap s \<and>
          contents s' = lru_touch key (cap s) (akey a) (bump a) (fresh a) (contents s)"
begin

lemma touch_keys:
  assumes "inv s" "touch a s = Some s'"
  shows "map key (contents s') = mru_push (cap s) (akey a) (map key (contents s))"
proof -
  from touch_ok [OF assms(1), of a] assms(2)
  have "contents s' = lru_touch key (cap s) (akey a) (bump a) (fresh a) (contents s)" by auto
  then show ?thesis
    by (simp add: lru_touch_keys inv_distinct inv_bound key_fresh key_bump assms(1))
qed

text \<open>
  Starting from any state, a sequence of uses never fails, and the keys held at the end
  are what pushing the used keys one by one onto the initial keys gives.
\<close>

lemma touches_keys:
  "inv s \<Longrightarrow> \<exists>s'. run_opt touch as s = Some s' \<and> inv s' \<and> cap s' = cap s \<and>
     map key (contents s') = fold (mru_push (cap s)) (map akey as) (map key (contents s))"
proof (induction as arbitrary: s)
  case Nil
  then show ?case by simp
next
  case (Cons a as)
  from touch_ok [OF Cons.prems, of a] obtain s1 where
    s1: "touch a s = Some s1" "inv s1" "cap s1 = cap s" by auto
  with Cons.IH [OF s1(2)] touch_keys [OF Cons.prems s1(1)] show ?case by simp
qed

text \<open>
  From an empty list the keys at the end are the \<open>cap\<close> most recently used distinct keys,
  most recent first.
\<close>

lemma touches_lru:
  assumes "inv s" "contents s = []"
  obtains s' where "run_opt touch as s = Some s'" "inv s'" "cap s' = cap s"
    "map key (contents s') = take (cap s) (rev (remdups (map akey as)))"
  using touches_keys [OF assms(1), of as] assms(2) by (auto simp: fold_mru_push)

end

end
