(* ===== verification/WakeupList.thy ===== *)
theory WakeupList
  imports Node_List
begin

text \<open>
  The wakeup statistics of \<open>suspend/1.0/default/WakeupList.cpp\<close>: how often each
  combination of wakeup reasons ended a suspend, most recent combination first, bounded by
  a capacity. \<open>wu_update\<close> is \<open>WakeupList::update\<close>; its critical section (after the key
  has been computed) is \<open>wu_record\<close>. \<open>android::base::Join\<close> is library code outside the
  repository and is the parameter \<open>join\<close>.

  Shown: no operation runs into undefined behaviour and all keep the list and the lookup
  table coupled; an update acts as the abstract least-recently-used list; after any
  sequence of updates the list holds exactly the most recent distinct keys; and as long as
  nothing had to be evicted every count is the number of times its key occurred.
\<close>

record WakeupInfo =
  wu_name :: string
  wu_count :: i64

record WakeupList =
  wu_mCapacity :: nat
  mWakeups :: "WakeupInfo node_list"
  wu_mLookupTable :: "string \<rightharpoonup> iter"

definition WakeupList_new :: "nat \<Rightarrow> WakeupList" where
  "WakeupList_new capacity =
     \<lparr>wu_mCapacity = capacity, mWakeups = nl_empty, wu_mLookupTable = Map.empty\<rparr>"

definition wu_insert :: "WakeupInfo \<Rightarrow> WakeupList \<Rightarrow> WakeupList option" where
  "wu_insert entry s = do {
     let ws = nl_emplace_front entry (mWakeups s);
     first \<leftarrow> nl_begin ws;
     Some (s\<lparr>mWakeups := ws, wu_mLookupTable := (wu_mLookupTable s)(wu_name entry \<mapsto> first)\<rparr>)
   }"

definition wu_erase :: "iter \<Rightarrow> WakeupList \<Rightarrow> WakeupList option" where
  "wu_erase entry s = do {
     e \<leftarrow> nl_deref (mWakeups s) entry;
     let tbl = (wu_mLookupTable s)(wu_name e := None);
     ws \<leftarrow> nl_erase entry (mWakeups s);
     Some (s\<lparr>mWakeups := ws, wu_mLookupTable := tbl\<rparr>)
   }"

definition wu_evict :: "WakeupList \<Rightarrow> WakeupList option" where
  "wu_evict s =
     (if wu_mCapacity s < nl_size (mWakeups s)
      then Option.bind (nl_prev_end (mWakeups s)) (\<lambda>it. wu_erase it s)
      else Some s)"

definition wu_record :: "string \<Rightarrow> WakeupList \<Rightarrow> WakeupList option" where
  "wu_record key s =
     (case wu_mLookupTable s key of
        None \<Rightarrow> Option.bind (wu_insert \<lparr>wu_name = key, wu_count = 1\<rparr> s) wu_evict
      | Some staleEntry \<Rightarrow> do {
          e \<leftarrow> nl_deref (mWakeups s) staleEntry;
          let updatedEntry = e\<lparr>wu_count := wu_count e + 1\<rparr>;
          s1 \<leftarrow> wu_erase staleEntry s;
          wu_insert updatedEntry s1
        })"

definition wu_update ::
  "(string list \<Rightarrow> string \<Rightarrow> string) \<Rightarrow> string list \<Rightarrow> WakeupList \<Rightarrow> WakeupList option" where
  "wu_update join wakeupReasons s =
     (if wakeupReasons = [] then Some s else wu_record (join wakeupReasons '';'') s)"

definition getWakeupStats :: "WakeupList \<Rightarrow> WakeupInfo list \<Rightarrow> WakeupInfo list" where
  "getWakeupStats s wakeups = wakeups @ nl_elems (mWakeups s)"

text \<open>The representation invariant.\<close>

definition wu_inv :: "WakeupList \<Rightarrow> bool" where
  "wu_inv s \<longleftrightarrow> indexed wu_name (wu_mLookupTable s) (mWakeups s) \<and>
     length (nl_elems (mWakeups s)) \<le> wu_mCapacity s"

abbreviation wu_entries :: "WakeupList \<Rightarrow> WakeupInfo list" where
  "wu_entries s \<equiv> nl_elems (mWakeups s)"

text \<open>The keys under which a sequence of wakeups is recorded.\<close>

abbreviation reason_keys :: "(string list \<Rightarrow> string \<Rightarrow> string) \<Rightarrow> string list list \<Rightarrow> string list" where
  "reason_keys join rs \<equiv> map (\<lambda>r. join r '';'') (filter (\<lambda>r. r \<noteq> []) rs)"

abbreviation wu_bump :: "WakeupInfo \<Rightarrow> WakeupInfo" where
  "wu_bump e \<equiv> e\<lparr>wu_count := wu_count e + 1\<rparr>"

subsection \<open>The private operations\<close>

lemma wu_insert_eq:
  "wu_insert e s = Some (s\<lparr>mWakeups := nl_emplace_front e (mWakeups s),
     wu_mLookupTable := (wu_mLookupTable s)(wu_name e \<mapsto> nl_fresh (mWakeups s))\<rparr>)"
  by (simp add: wu_insert_def nl_simps)

lemma wu_erase_ok:
  assumes "indexed wu_name (wu_mLookupTable s) (mWakeups s)" "nl_deref (mWakeups s) it = Some e"
  obtains s' where "wu_erase it s = Some s'" "wu_mCapacity s' = wu_mCapacity s"
    "wu_mLookupTable s' = (wu_mLookupTable s)(wu_name e := None)"
    "wu_entries s' = filter (\<lambda>x. wu_name x \<noteq> wu_name e) (wu_entries s)"
    "indexed wu_name (wu_mLookupTable s') (mWakeups s')"
proof -
  from indexed_erase [OF assms] obtain l where l: "nl_erase it (mWakeups s) = Some l"
    "nl_elems l = filter (\<lambda>x. wu_name x \<noteq> wu_name e) (wu_entries s)"
    "indexed wu_name ((wu_mLookupTable s)(wu_name e := None)) l" by blast
  show ?thesis
    by (rule that [of "s\<lparr>mWakeups := l, wu_mLookupTable := (wu_mLookupTable s)(wu_name e := None)\<rparr>"])
      (use l assms(2) in \<open>simp_all add: wu_erase_def\<close>)
qed

lemma wu_evict_ok:
  assumes "indexed wu_name (wu_mLookupTable s) (mWakeups s)"
    "length (wu_entries s) \<le> Suc (wu_mCapacity s)"
  obtains s' where "wu_evict s = Some s'" "wu_inv s'" "wu_mCapacity s' = wu_mCapacity s"
    "wu_entries s' = take (wu_mCapacity s) (wu_entries s)"
proof (cases "wu_mCapacity s < length (wu_entries s)")
  case False
  then show ?thesis
    by (intro that [of s]) (use assms in \<open>simp_all add: wu_evict_def wu_inv_def nl_simps\<close>)
next
  case True
  then have "wu_entries s \<noteq> []" by auto
  with assms(1) obtain it where it: "nl_prev_end (mWakeups s) = Some it"
    "nl_deref (mWakeups s) it = Some (last (wu_entries s))"
    by (rule indexed_prev_end)
  from wu_erase_ok [OF assms(1) it(2)] obtain s' where s': "wu_erase it s = Some s'"
    "wu_mCapacity s' = wu_mCapacity s"
    "wu_entries s' = filter (\<lambda>x. wu_name x \<noteq> wu_name (last (wu_entries s))) (wu_entries s)"
    "indexed wu_name (wu_mLookupTable s') (mWakeups s')" by blast
  then have "wu_entries s' = butlast (wu_entries s)"
    using \<open>wu_entries s \<noteq> []\<close> indexed_distinct [OF assms(1)] by (simp add: filter_last_key)
  moreover from True assms(2) have "length (wu_entries s) = Suc (wu_mCapacity s)" by simp
  ultimately show ?thesis
    by (intro that [of s'])
      (use True it s' in \<open>simp_all add: wu_evict_def wu_inv_def nl_simps butlast_conv_take\<close>)
qed

lemma wu_inv_distinct: "wu_inv s \<Longrightarrow> distinct (map wu_name (wu_entries s))"
  by (auto simp: wu_inv_def dest: indexed_distinct)

lemma wu_inv_bound: "wu_inv s \<Longrightarrow> length (wu_entries s) \<le> wu_mCapacity s"
  by (simp add: wu_inv_def)

lemma wu_inv_new: "wu_inv (WakeupList_new capacity)"
  by (simp add: wu_inv_def WakeupList_new_def indexed_empty nl_simps)

text \<open>Recording a key never fails and is the abstract operation on the entries.\<close>

lemma wu_record_ok:
  assumes "wu_inv s"
  shows "\<exists>s'. wu_record key s = Some s' \<and> wu_inv s' \<and> wu_mCapacity s' = wu_mCapacity s \<and>
    wu_entries s' = lru_touch wu_name (wu_mCapacity s) key wu_bump
      \<lparr>wu_name = key, wu_count = 1\<rparr> (wu_entries s)"
proof (cases "wu_mLookupTable s key")
  case None
  let ?e = "\<lparr>wu_name = key, wu_count = 1\<rparr>"
  obtain t where t: "wu_insert ?e s = Some t" "wu_mCapacity t = wu_mCapacity s"
    "wu_entries t = ?e # wu_entries s" "indexed wu_name (wu_mLookupTable t) (mWakeups t)"
    using assms None indexed_insert [of wu_name "wu_mLookupTable s" "mWakeups s" ?e]
    by (simp add: wu_insert_eq wu_inv_def nl_simps)
  moreover have "length (wu_entries t) \<le> Suc (wu_mCapacity t)"
    using assms t by (simp add: wu_inv_def)
  ultimately obtain s' where "wu_evict t = Some s'" "wu_inv s'" "wu_mCapacity s' = wu_mCapacity t"
    "wu_entries s' = take (wu_mCapacity t) (wu_entries t)"
    using wu_evict_ok by blast
  moreover have "find (\<lambda>e. wu_name e = key) (wu_entries s) = None"
    using assms None indexed_None by (fastforce simp: wu_inv_def)
  ultimately show ?thesis using None t by (simp add: wu_record_def lru_touch_def)
next
  case (Some it)
  with assms obtain e where e: "nl_deref (mWakeups s) it = Some e" "wu_name e = key"
    "find (\<lambda>e. wu_name e = key) (wu_entries s) = Some e"
    by (auto simp: wu_inv_def elim: indexed_Some)
  with assms obtain t where t: "wu_erase it s = Some t" "wu_mCapacity t = wu_mCapacity s"
    "wu_mLookupTable t key = None"
    "wu_entries t = filter (\<lambda>x. wu_name x \<noteq> key) (wu_entries s)"
    "indexed wu_name (wu_mLookupTable t) (mWakeups t)"
    by (auto simp: wu_inv_def elim: wu_erase_ok)
  from t(3,5) e(2) have "indexed wu_name ((wu_mLookupTable t)(key \<mapsto> nl_fresh (mWakeups t)))
      (nl_emplace_front (wu_bump e) (mWakeups t))"
    using indexed_insert [of wu_name "wu_mLookupTable t" "mWakeups t" "wu_bump e"] by simp
  moreover have "length (wu_bump e # wu_entries t) \<le> wu_mCapacity s"
    using lru_touch_bound [of "wu_entries s" "wu_mCapacity s" wu_name key wu_bump] assms e(3) t(4)
    by (simp add: wu_inv_def lru_touch_def)
  ultimately show ?thesis using Some e t
    by (simp add: wu_record_def wu_insert_eq wu_inv_def lru_touch_def nl_simps)
qed

interpretation wu: lru_cache wu_inv wu_entries wu_mCapacity wu_name wu_record
  "\<lambda>k. k" "\<lambda>k. wu_bump" "\<lambda>k. \<lparr>wu_name = k, wu_count = 1\<rparr>"
  by unfold_locales (simp_all add: wu_inv_distinct wu_inv_bound wu_record_ok)

subsection \<open>Sequences of updates\<close>

lemma run_update_record:
  assumes "[] \<notin> set rs"
  shows "run_opt (wu_update join) rs s = run_opt wu_record (map (\<lambda>r. join r '';'') rs) s"
  using assms
proof (induction rs arbitrary: s)
  case Nil
  then show ?case by simp
next
  case (Cons r rs)
  then have "run_opt (wu_update join) rs = run_opt wu_record (map (\<lambda>r. join r '';'') rs)"
    by (simp add: fun_eq_iff)
  moreover have "wu_update join r s = wu_record (join r '';'') s"
    using Cons.prems by (auto simp: wu_update_def)
  ultimately show ?case by simp
qed

lemma run_update_filter:
  "run_opt (wu_update join) rs s =
     run_opt wu_record (reason_keys join rs) s"
proof -
  have "run_opt (wu_update join) rs s = run_opt (wu_update join) (filter (\<lambda>r. r \<noteq> []) rs) s" for s
    by (induction rs arbitrary: s) (auto simp: wu_update_def split: bind_splits)
  then show ?thesis by (simp add: run_update_record)
qed

text \<open>Every count is the number of occurrences of its key, while no key was evicted.\<close>

lemma lru_touch_counts:
  assumes counts: "\<forall>e \<in> set es. wu_count e = of_nat (count_list ks (wu_name e))"
    and seen: "set (map wu_name es) = set ks" and dist: "distinct (map wu_name es)"
    and e: "e \<in> set (lru_touch wu_name cap k wu_bump \<lparr>wu_name = k, wu_count = 1\<rparr> es)"
  shows "wu_count e = of_nat (count_list (ks @ [k]) (wu_name e))"
proof (cases "find (\<lambda>e. wu_name e = k) es")
  case None
  then have "k \<notin> set (map wu_name es)" by (auto simp: find_None_iff)
  then have "k \<notin> set ks" using seen by simp
  then have "count_list ks k = 0" by (simp add: count_list_0_iff)
  from e None have "e = \<lparr>wu_name = k, wu_count = 1\<rparr> \<or> e \<in> set es"
    by (auto simp: lru_touch_def dest!: in_set_takeD)
  then show ?thesis
  proof
    assume "e = \<lparr>wu_name = k, wu_count = 1\<rparr>"
    with \<open>count_list ks k = 0\<close> show ?thesis by simp
  next
    assume "e \<in> set es"
    with \<open>k \<notin> set (map wu_name es)\<close> have "wu_name e \<noteq> k" by auto
    with counts \<open>e \<in> set es\<close> show ?thesis by simp
  qed
next
  case (Some e0)
  then have "e0 \<in> set es" "wu_name e0 = k" by (auto dest: find_Some_in)
  with Some e counts show ?thesis by (auto simp: lru_touch_def add.commute)
qed

lemma run_record_counts:
  assumes "wu_inv s" "wu_entries s = []" "card (set ks) \<le> wu_mCapacity s"
  shows "\<exists>s'. run_opt wu_record ks s = Some s' \<and> wu_inv s' \<and> wu_mCapacity s' = wu_mCapacity s \<and>
    map wu_name (wu_entries s') = rev (remdups ks) \<and>
    (\<forall>e \<in> set (wu_entries s'). wu_count e = of_nat (count_list ks (wu_name e)))"
  using assms(3)
proof (induction ks rule: rev_induct)
  case Nil
  with assms(1,2) show ?case by simp
next
  case (snoc k ks)
  have "card (set ks) \<le> card (set (ks @ [k]))" by (intro card_mono) auto
  with snoc obtain t where t: "run_opt wu_record ks s = Some t" "wu_inv t"
    "wu_mCapacity t = wu_mCapacity s" "map wu_name (wu_entries t) = rev (remdups ks)"
    "\<forall>e \<in> set (wu_entries t). wu_count e = of_nat (count_list ks (wu_name e))" by auto
  from wu_record_ok [OF t(2), of k] obtain s' where s': "wu_record k t = Some s'" "wu_inv s'"
    "wu_mCapacity s' = wu_mCapacity t"
    "wu_entries s' = lru_touch wu_name (wu_mCapacity t) k wu_bump
       \<lparr>wu_name = k, wu_count = 1\<rparr> (wu_entries t)" by blast
  have "length (rev (remdups (ks @ [k]))) \<le> wu_mCapacity s"
    using snoc.prems by (simp only: length_rev length_remdups_card_conv)
  moreover have "map wu_name (wu_entries s') = take (wu_mCapacity s) (rev (remdups (ks @ [k])))"
    using wu.touch_keys [OF t(2) s'(1)] t(3,4) by (simp only: mru_push_def mru_step)
  ultimately have "map wu_name (wu_entries s') = rev (remdups (ks @ [k]))" by simp
  moreover have "wu_count e = of_nat (count_list (ks @ [k]) (wu_name e))"
    if "e \<in> set (wu_entries s')" for e
    using lru_touch_counts [OF t(5) _ _ that [unfolded s'(4)]] t(4) by simp
  ultimately show ?case using t s' by (simp add: run_opt_append)
qed

subsection \<open>Properties\<close>

text \<open>C10. An update never runs into undefined behaviour, keeps the list and the lookup table
  coupled, and shows callers of \<open>getWakeupStats\<close> what the abstract least-recently-used list
  shows: a known combination of reasons has its count raised and moves to the front, a new
  one is put in front with count 1 and the least recent entry is dropped if the list would
  grow past its capacity. An empty list of reasons changes nothing.\<close>

theorem wu_update_refines_lru:
  assumes "wu_inv s"
  shows "\<exists>s'. wu_update join reasons s = Some s' \<and> wu_inv s' \<and> wu_mCapacity s' = wu_mCapacity s \<and>
    getWakeupStats s' [] =
      (if reasons = [] then getWakeupStats s []
       else lru_touch wu_name (wu_mCapacity s) (join reasons '';'') (\<lambda>e. e\<lparr>wu_count := wu_count e + 1\<rparr>)
              \<lparr>wu_name = join reasons '';'', wu_count = 1\<rparr> (getWakeupStats s []))"
  using assms wu_record_ok [OF assms, of "join reasons '';''"]
  by (simp add: wu_update_def getWakeupStats_def)

theorem wu_update_refines_lru_witness:
  "\<exists>s'. wu_update (\<lambda>rs sep. concat rs) [''a'', ''b''] (WakeupList_new 2) = Some s' \<and>
     wu_inv s' \<and> getWakeupStats s' [] = [\<lparr>wu_name = ''ab'', wu_count = 1\<rparr>]"
  using wu_update_refines_lru [OF wu_inv_new, of "\<lambda>rs sep. concat rs" "[''a'', ''b'']" 2]
  by (auto simp: getWakeupStats_def WakeupList_new_def lru_touch_def nl_simps)

text \<open>C11. Whatever sequence of wakeups is recorded in a new list, recording succeeds and the list
  then names exactly the \<open>capacity\<close> most recently seen distinct combinations of reasons,
  the most recent first.\<close>

theorem wu_run_most_recent:
  "\<exists>s'. run_opt (wu_update join) rs (WakeupList_new capacity) = Some s' \<and>
     map wu_name (getWakeupStats s' []) = take capacity (rev (remdups (reason_keys join rs)))"
proof -
  have "wu_entries (WakeupList_new capacity) = []" "wu_mCapacity (WakeupList_new capacity) = capacity"
    by (simp_all add: WakeupList_new_def nl_simps)
  then show ?thesis
    using wu.touches_lru [OF wu_inv_new, of capacity "reason_keys join rs"]
    by (force simp: run_update_filter getWakeupStats_def)
qed

text \<open>C12. As long as the recorded wakeups have no more distinct combinations of reasons than the
  capacity, the list names all of them, and the count of each is the number of times it was
  recorded (as a 64-bit value).\<close>

theorem wu_counts_exact:
  assumes "card (set (reason_keys join rs)) \<le> capacity"
  shows "\<exists>s'. run_opt (wu_update join) rs (WakeupList_new capacity) = Some s' \<and>
     set (map wu_name (getWakeupStats s' [])) = set (reason_keys join rs) \<and>
     (\<forall>e \<in> set (getWakeupStats s' []).
        wu_count e = of_nat (count_list (reason_keys join rs) (wu_name e)))"
proof -
  have new: "wu_entries (WakeupList_new capacity) = []"
    "wu_mCapacity (WakeupList_new capacity) = capacity"
    by (simp_all add: WakeupList_new_def nl_simps)
  obtain s' where s': "run_opt wu_record (reason_keys join rs) (WakeupList_new capacity) = Some s'"
    "map wu_name (wu_entries s') = rev (remdups (reason_keys join rs))"
    "\<forall>e \<in> set (wu_entries s'). wu_count e = of_nat (count_list (reason_keys join rs) (wu_name e))"
    using run_record_counts [OF wu_inv_new new(1), of "reason_keys join rs"] assms new(2) by metis
  from s'(2) have "set (map wu_name (wu_entries s')) = set (reason_keys join rs)"
    by (simp only: set_rev set_remdups)
  with s'(1,3) show ?thesis by (simp add: run_update_filter getWakeupStats_def)
qed

theorem wu_counts_exact_witness:
  "\<exists>s'. run_opt (wu_update (\<lambda>rs sep. concat rs)) [[''a''], [''b''], [''a'']] (WakeupList_new 2) = Some s' \<and>
     set (map wu_name (getWakeupStats s' [])) = {''a'', ''b''} \<and>
     (\<forall>e \<in> set (getWakeupStats s' []). wu_count e = of_nat (count_list [''a'', ''b'', ''a''] (wu_name e)))"
  using wu_counts_exact [of "\<lambda>rs sep. concat rs" "[[''a''], [''b''], [''a'']]" 2] by (simp add: insert_commute)

end
