(* ===== verification/WakeLockEntryList.thy ===== *)
theory WakeLockEntryList
  imports Node_List "HOL-Library.Signed_Division"
begin

text \<open>
  The wake lock statistics of \<open>suspend/1.0/default/WakeLockEntryList.cpp\<close>: one entry per
  native wake lock (name and pid), kept in a bounded least-recently-used list, and the
  entries of the kernel's wakeup sources, read from sysfs on demand.

  State and operations. \<open>WakeLockEntryList\<close> is the class with its list and lookup table;
  \<open>updateOnAcquire\<close>, \<open>updateOnRelease\<close>, \<open>updateNow\<close> and \<open>getWakeLockStats\<close> are its
  public methods, the private helpers keep their names. An operation that reads the clock
  takes the \<open>timespec\<close> that \<open>clock_gettime\<close> returned. The kernel directory is an input:
  for each directory entry in \<open>readdir\<close> order its name and, if it could be opened, the
  listing of its stat files with their contents (\<^term>\<open>None\<close> for one that cannot be opened
  or read). \<open>android::base::ParseInt\<close> is library code outside the repository and is the
  parameter \<open>parseInt\<close>. Log messages are left out.

  Shown: with a positive capacity no operation is undefined and all keep the list and the
  table coupled and bounded; acquiring acts as the abstract least-recently-used list; and
  the bookkeeping equations for active, maximal and total time.
\<close>

record WakeLockInfo =
  wl_name :: string
  activeCount :: i64
  lastChange :: i64
  maxTime :: i64
  totalTime :: i64
  isActive :: bool
  activeTime :: i64
  isKernelWakelock :: bool
  wl_pid :: i32
  eventCount :: i64
  expireCount :: i64
  preventSuspendTime :: i64
  wakeupCount :: i64

type_synonym wl_key = "string \<times> i32"

record WakeLockEntryList =
  mCapacity :: nat
  mStats :: "WakeLockInfo node_list"
  mLookupTable :: "wl_key \<rightharpoonup> iter"

record timespec =
  tv_sec :: i64
  tv_nsec :: i64

type_synonym stat_dir = "(string \<times> string option) list"
type_synonym wakeup_class = "(string \<times> stat_dir option) list"

text \<open>\<open>duration_cast\<close> to milliseconds truncates; seconds convert exactly.\<close>

definition getTimeNow :: "timespec \<Rightarrow> i64" where
  "getTimeNow monotime =
     word_of_int (sint (tv_nsec monotime) sdiv 1000000) + tv_sec monotime * 1000"

definition WakeLockEntryList_new :: "nat \<Rightarrow> WakeLockEntryList" where
  "WakeLockEntryList_new capacity =
     \<lparr>mCapacity = capacity, mStats = nl_empty, mLookupTable = Map.empty\<rparr>"

definition wl_key_of :: "WakeLockInfo \<Rightarrow> wl_key" where
  "wl_key_of e = (wl_name e, wl_pid e)"

text \<open>
  At capacity, \<open>std::advance(end, -1)\<close> on an empty list (capacity 0) is undefined.
\<close>

definition evictIfFull :: "WakeLockEntryList \<Rightarrow> WakeLockEntryList option" where
  "evictIfFull s =
     (if nl_size (mStats s) = mCapacity s then do {
        evictIt \<leftarrow> nl_prev_end (mStats s);
        e \<leftarrow> nl_deref (mStats s) evictIt;
        let tbl = (mLookupTable s)(wl_key_of e := None);
        stats \<leftarrow> nl_erase evictIt (mStats s);
        Some (s\<lparr>mStats := stats, mLookupTable := tbl\<rparr>)
      } else Some s)"

definition insertEntry :: "WakeLockInfo \<Rightarrow> WakeLockEntryList \<Rightarrow> WakeLockEntryList option" where
  "insertEntry entry s = do {
     let key = wl_key_of entry;
     let stats = nl_emplace_front entry (mStats s);
     first \<leftarrow> nl_begin stats;
     Some (s\<lparr>mStats := stats, mLookupTable := (mLookupTable s)(key \<mapsto> first)\<rparr>)
   }"

definition deleteEntry :: "iter \<Rightarrow> WakeLockEntryList \<Rightarrow> WakeLockEntryList option" where
  "deleteEntry entry s = do {
     e \<leftarrow> nl_deref (mStats s) entry;
     let tbl = (mLookupTable s)(wl_key_of e := None);
     stats \<leftarrow> nl_erase entry (mStats s);
     Some (s\<lparr>mStats := stats, mLookupTable := tbl\<rparr>)
   }"

definition createNativeEntry :: "string \<Rightarrow> i32 \<Rightarrow> i64 \<Rightarrow> WakeLockInfo" where
  "createNativeEntry name pid timeNow =
     \<lparr>wl_name = name, activeCount = 1, lastChange = timeNow, maxTime = 0, totalTime = 0,
      isActive = True, activeTime = 0, isKernelWakelock = False, wl_pid = pid,
      eventCount = 0, expireCount = 0, preventSuspendTime = 0, wakeupCount = 0\<rparr>"

definition isStatFile :: "string \<Rightarrow> bool" where
  "isStatFile statName \<longleftrightarrow>
     \<not> (statName = ''.'' \<or> statName = ''..'' \<or> statName = ''device'' \<or>
        statName = ''power'' \<or> statName = ''subsystem'' \<or> statName = ''uevent'')"

text \<open>One stat file of a kernel wakeup source: the body of the loop of \<open>createKernelEntry\<close>.\<close>

definition kernel_stat ::
  "(string \<Rightarrow> i64 option) \<Rightarrow> string \<times> string option \<Rightarrow> WakeLockInfo \<Rightarrow> WakeLockInfo" where
  "kernel_stat parseInt de info =
     (case de of (statName, content) \<Rightarrow>
        if \<not> isStatFile statName then info
        else case content of None \<Rightarrow> info
        | Some raw \<Rightarrow>
            let valStr = filter (\<lambda>c. c \<noteq> CHR 0x0A) raw in
            if statName = ''name'' then info\<lparr>wl_name := valStr\<rparr>
            else case parseInt valStr of None \<Rightarrow> info
            | Some statVal \<Rightarrow>
                if statName = ''active_count'' then info\<lparr>activeCount := statVal\<rparr>
                else if statName = ''active_time_ms'' then info\<lparr>activeTime := statVal\<rparr>
                else if statName = ''event_count'' then info\<lparr>eventCount := statVal\<rparr>
                else if statName = ''expire_count'' then info\<lparr>expireCount := statVal\<rparr>
                else if statName = ''last_change_ms'' then info\<lparr>lastChange := statVal\<rparr>
                else if statName = ''max_time_ms'' then info\<lparr>maxTime := statVal\<rparr>
                else if statName = ''prevent_suspend_time_ms''
                  then info\<lparr>preventSuspendTime := statVal\<rparr>
                else if statName = ''total_time_ms'' then info\<lparr>totalTime := statVal\<rparr>
                else if statName = ''wakeup_count'' then info\<lparr>wakeupCount := statVal\<rparr>
                else info)"

definition createKernelEntry ::
  "(string \<Rightarrow> i64 option) \<Rightarrow> stat_dir option \<Rightarrow> WakeLockInfo" where
  "createKernelEntry parseInt wakelockDir =
     (let info0 =
        \<lparr>wl_name = [], activeCount = 0, lastChange = 0, maxTime = 0, totalTime = 0,
         isActive = False, activeTime = 0, isKernelWakelock = True, wl_pid = -1,
         eventCount = 0, expireCount = 0, preventSuspendTime = 0, wakeupCount = 0\<rparr>;
        info = (case wakelockDir of None \<Rightarrow> info0
                | Some files \<Rightarrow> fold (kernel_stat parseInt) files info0)
      in info\<lparr>isActive := (0 < sint (activeTime info))\<rparr>)"

definition getKernelWakelockStats ::
  "(string \<Rightarrow> i64 option) \<Rightarrow> wakeup_class option \<Rightarrow> WakeLockInfo list \<Rightarrow> WakeLockInfo list" where
  "getKernelWakelockStats parseInt dir aidl_return =
     (case dir of None \<Rightarrow> aidl_return
      | Some ents \<Rightarrow> aidl_return @
          map (\<lambda>(kwlId, d). createKernelEntry parseInt d)
            (filter (\<lambda>(kwlId, d). kwlId \<noteq> ''.'' \<and> kwlId \<noteq> ''..'') ents))"

text \<open>The field updates of an acquired, a released and a still active entry.\<close>

definition entry_on_acquire :: "i64 \<Rightarrow> WakeLockInfo \<Rightarrow> WakeLockInfo" where
  "entry_on_acquire timeNow e =
     e\<lparr>isActive := True, activeTime := 0, activeCount := activeCount e + 1,
       lastChange := timeNow\<rparr>"

definition entry_on_release :: "i64 \<Rightarrow> WakeLockInfo \<Rightarrow> WakeLockInfo" where
  "entry_on_release timeNow e =
     (let timeDelta = timeNow - lastChange e;
          e1 = e\<lparr>isActive := False, activeTime := activeTime e + timeDelta\<rparr>;
          e2 = e1\<lparr>maxTime := smax (maxTime e1) (activeTime e1)\<rparr>
      in e2\<lparr>activeTime := 0, totalTime := totalTime e2 + timeDelta, lastChange := timeNow\<rparr>)"

definition entry_now :: "i64 \<Rightarrow> WakeLockInfo \<Rightarrow> WakeLockInfo" where
  "entry_now timeNow e =
     (if isActive e then
        let timeDelta = timeNow - lastChange e;
            e1 = e\<lparr>activeTime := activeTime e + timeDelta\<rparr>
        in e1\<lparr>maxTime := smax (maxTime e1) (activeTime e1),
              totalTime := totalTime e1 + timeDelta, lastChange := timeNow\<rparr>
      else e)"

definition updateOnAcquire ::
  "timespec \<Rightarrow> string \<Rightarrow> i32 \<Rightarrow> WakeLockEntryList \<Rightarrow> WakeLockEntryList option" where
  "updateOnAcquire monotime name pid s =
     (let timeNow = getTimeNow monotime in
      case mLookupTable s (name, pid) of
        None \<Rightarrow> do {
          s1 \<leftarrow> evictIfFull s;
          insertEntry (createNativeEntry name pid timeNow) s1
        }
      | Some staleEntry \<Rightarrow> do {
          e \<leftarrow> nl_deref (mStats s) staleEntry;
          let updatedEntry = entry_on_acquire timeNow e;
          s1 \<leftarrow> deleteEntry staleEntry s;
          insertEntry updatedEntry s1
        })"

definition updateOnRelease ::
  "timespec \<Rightarrow> string \<Rightarrow> i32 \<Rightarrow> WakeLockEntryList \<Rightarrow> WakeLockEntryList option" where
  "updateOnRelease monotime name pid s =
     (let timeNow = getTimeNow monotime in
      case mLookupTable s (name, pid) of
        None \<Rightarrow> Some s
      | Some staleEntry \<Rightarrow> do {
          e \<leftarrow> nl_deref (mStats s) staleEntry;
          let updatedEntry = entry_on_release timeNow e;
          s1 \<leftarrow> deleteEntry staleEntry s;
          insertEntry updatedEntry s1
        })"

definition updateNow :: "timespec \<Rightarrow> WakeLockEntryList \<Rightarrow> WakeLockEntryList" where
  "updateNow monotime s = s\<lparr>mStats := nl_map (entry_now (getTimeNow monotime)) (mStats s)\<rparr>"

definition getWakeLockStats ::
  "(string \<Rightarrow> i64 option) \<Rightarrow> wakeup_class option \<Rightarrow> WakeLockEntryList \<Rightarrow>
   WakeLockInfo list \<Rightarrow> WakeLockInfo list" where
  "getWakeLockStats parseInt dir s aidl_return =
     getKernelWakelockStats parseInt dir (aidl_return @ nl_elems (mStats s))"

text \<open>The calls a list receives, in the order in which they take the lock.\<close>

datatype wl_op =
    Acquire timespec string i32
  | Release timespec string i32
  | Now timespec

fun wl_apply :: "wl_op \<Rightarrow> WakeLockEntryList \<Rightarrow> WakeLockEntryList option" where
  "wl_apply (Acquire ts name pid) s = updateOnAcquire ts name pid s"
| "wl_apply (Release ts name pid) s = updateOnRelease ts name pid s"
| "wl_apply (Now ts) s = Some (updateNow ts s)"

abbreviation wl_entries :: "WakeLockEntryList \<Rightarrow> WakeLockInfo list" where
  "wl_entries s \<equiv> nl_elems (mStats s)"

text \<open>The representation invariant, and the entry of a key.\<close>

definition wl_inv :: "WakeLockEntryList \<Rightarrow> bool" where
  "wl_inv s \<longleftrightarrow> 0 < mCapacity s \<and> indexed wl_key_of (mLookupTable s) (mStats s) \<and>
     length (wl_entries s) \<le> mCapacity s"

definition wl_lookup :: "WakeLockEntryList \<Rightarrow> wl_key \<Rightarrow> WakeLockInfo option" where
  "wl_lookup s k = find (\<lambda>e. wl_key_of e = k) (wl_entries s)"

subsection \<open>Entries\<close>

lemma wl_key_of_entry [simp]:
  "wl_key_of (createNativeEntry name pid t) = (name, pid)"
  "wl_key_of (entry_on_acquire t e) = wl_key_of e"
  "wl_key_of (entry_on_release t e) = wl_key_of e"
  "wl_key_of (entry_now t e) = wl_key_of e"
  by (simp_all add: wl_key_of_def createNativeEntry_def entry_on_acquire_def
      entry_on_release_def entry_now_def Let_def)

lemma entry_on_release_fields [field_defs]:
  "isActive (entry_on_release t e) = False"
  "activeTime (entry_on_release t e) = 0"
  "activeCount (entry_on_release t e) = activeCount e"
  "lastChange (entry_on_release t e) = t"
  "totalTime (entry_on_release t e) = totalTime e + (t - lastChange e)"
  "maxTime (entry_on_release t e) = smax (maxTime e) (activeTime e + (t - lastChange e))"
  by (simp_all add: entry_on_release_def Let_def)

lemma entry_on_acquire_fields [field_defs]:
  "isActive (entry_on_acquire t e) = True"
  "activeTime (entry_on_acquire t e) = 0"
  "activeCount (entry_on_acquire t e) = activeCount e + 1"
  "lastChange (entry_on_acquire t e) = t"
  "totalTime (entry_on_acquire t e) = totalTime e"
  "maxTime (entry_on_acquire t e) = maxTime e"
  by (simp_all add: entry_on_acquire_def)

lemma createNativeEntry_fields [field_defs]:
  "isActive (createNativeEntry n p t) = True"
  "activeTime (createNativeEntry n p t) = 0"
  "activeCount (createNativeEntry n p t) = 1"
  "lastChange (createNativeEntry n p t) = t"
  "totalTime (createNativeEntry n p t) = 0"
  "maxTime (createNativeEntry n p t) = 0"
  by (simp_all add: createNativeEntry_def)

subsection \<open>The private operations\<close>

lemma insertEntry_eq:
  "insertEntry e s = Some (s\<lparr>mStats := nl_emplace_front e (mStats s),
     mLookupTable := (mLookupTable s)(wl_key_of e \<mapsto> nl_fresh (mStats s))\<rparr>)"
  by (simp add: insertEntry_def nl_simps)

lemma deleteEntry_ok:
  assumes "indexed wl_key_of (mLookupTable s) (mStats s)" "nl_deref (mStats s) it = Some e"
  obtains s' where "deleteEntry it s = Some s'" "mCapacity s' = mCapacity s"
    "mLookupTable s' = (mLookupTable s)(wl_key_of e := None)"
    "wl_entries s' = filter (\<lambda>x. wl_key_of x \<noteq> wl_key_of e) (wl_entries s)"
    "indexed wl_key_of (mLookupTable s') (mStats s')"
proof -
  from indexed_erase [OF assms] obtain l where l: "nl_erase it (mStats s) = Some l"
    "nl_elems l = filter (\<lambda>x. wl_key_of x \<noteq> wl_key_of e) (wl_entries s)"
    "indexed wl_key_of ((mLookupTable s)(wl_key_of e := None)) l" by blast
  show ?thesis
    by (rule that [of "s\<lparr>mStats := l, mLookupTable := (mLookupTable s)(wl_key_of e := None)\<rparr>"])
      (use l assms(2) in \<open>simp_all add: deleteEntry_def\<close>)
qed

text \<open>Evicting is deleting the last node of a full list.\<close>

lemma evictIfFull_deleteEntry:
  "evictIfFull s =
     (if nl_size (mStats s) = mCapacity s
      then Option.bind (nl_prev_end (mStats s)) (\<lambda>it. deleteEntry it s) else Some s)"
  by (simp add: evictIfFull_def deleteEntry_def)

lemma evictIfFull_ok:
  assumes "wl_inv s"
  obtains s' where "evictIfFull s = Some s'" "mCapacity s' = mCapacity s"
    "wl_entries s' = take (mCapacity s - 1) (wl_entries s)"
    "indexed wl_key_of (mLookupTable s') (mStats s')"
    "\<And>k. mLookupTable s k = None \<Longrightarrow> mLookupTable s' k = None"
proof (cases "length (wl_entries s) = mCapacity s")
  case False
  then show ?thesis
    by (intro that [of s]) (use assms in \<open>auto simp: evictIfFull_def wl_inv_def nl_simps\<close>)
next
  case True
  with assms have ne: "wl_entries s \<noteq> []" and idx: "indexed wl_key_of (mLookupTable s) (mStats s)"
    by (auto simp: wl_inv_def)
  then obtain it where it: "nl_prev_end (mStats s) = Some it"
    "nl_deref (mStats s) it = Some (last (wl_entries s))"
    by (meson indexed_prev_end)
  from deleteEntry_ok [OF idx it(2)] obtain s' where s': "deleteEntry it s = Some s'"
    "mCapacity s' = mCapacity s"
    "mLookupTable s' = (mLookupTable s)(wl_key_of (last (wl_entries s)) := None)"
    "wl_entries s' = filter (\<lambda>x. wl_key_of x \<noteq> wl_key_of (last (wl_entries s))) (wl_entries s)"
    "indexed wl_key_of (mLookupTable s') (mStats s')" by blast
  from s'(4) have "wl_entries s' = butlast (wl_entries s)"
    using ne indexed_distinct [OF idx] by (simp add: filter_last_key)
  with True it s' show ?thesis
    by (intro that [of s'])
      (simp_all add: evictIfFull_deleteEntry nl_simps butlast_conv_take)
qed

text \<open>Replacing the entry of a key moves it to the front.\<close>

lemma replace_ok:
  assumes "wl_inv s" "mLookupTable s k = Some it" "\<And>e. wl_key_of (f e) = wl_key_of e"
  shows "\<exists>e s'. nl_deref (mStats s) it = Some e \<and> wl_lookup s k = Some e \<and>
    Option.bind (deleteEntry it s) (insertEntry (f e)) = Some s' \<and> wl_inv s' \<and>
    mCapacity s' = mCapacity s \<and>
    wl_entries s' = f e # filter (\<lambda>x. wl_key_of x \<noteq> k) (wl_entries s)"
proof -
  have idx: "indexed wl_key_of (mLookupTable s) (mStats s)" using assms(1) by (simp add: wl_inv_def)
  obtain e where e: "nl_deref (mStats s) it = Some e" "wl_key_of e = k" "wl_lookup s k = Some e"
    using indexed_Some [OF idx assms(2)] by (auto simp: wl_lookup_def)
  obtain t where t: "deleteEntry it s = Some t"
    "mCapacity t = mCapacity s" "mLookupTable t k = None"
    "wl_entries t = filter (\<lambda>x. wl_key_of x \<noteq> k) (wl_entries s)"
    "indexed wl_key_of (mLookupTable t) (mStats t)"
    by (rule deleteEntry_ok [OF idx e(1)]) (simp add: e(2))
  have "indexed wl_key_of ((mLookupTable t)(k \<mapsto> nl_fresh (mStats t)))
      (nl_emplace_front (f e) (mStats t))"
    using indexed_insert [OF t(5), of "f e"] t(3) e(2) assms(3) by simp
  moreover have "length (f e # wl_entries t) \<le> mCapacity s"
    using lru_touch_bound [of "wl_entries s" "mCapacity s" wl_key_of k f] assms(1) e(3) t(4)
    by (simp add: wl_inv_def lru_touch_def wl_lookup_def)
  ultimately show ?thesis using e t assms(1,3)
    by (simp add: insertEntry_eq wl_inv_def nl_simps)
qed

subsection \<open>The public operations\<close>

lemma wl_inv_new: "0 < capacity \<Longrightarrow> wl_inv (WakeLockEntryList_new capacity)"
  by (simp add: wl_inv_def WakeLockEntryList_new_def indexed_empty nl_simps)

lemma wl_inv_distinct: "wl_inv s \<Longrightarrow> distinct (map wl_key_of (wl_entries s))"
  by (auto simp: wl_inv_def dest: indexed_distinct)

lemma wl_inv_bound: "wl_inv s \<Longrightarrow> length (wl_entries s) \<le> mCapacity s"
  by (simp add: wl_inv_def)

lemma wl_lookup_None: "wl_inv s \<Longrightarrow> mLookupTable s k = None \<longleftrightarrow> wl_lookup s k = None"
  by (simp add: wl_inv_def wl_lookup_def indexed_None)

lemma updateOnAcquire_ok:
  assumes "wl_inv s"
  shows "\<exists>s'. updateOnAcquire ts name pid s = Some s' \<and> wl_inv s' \<and> mCapacity s' = mCapacity s \<and>
    wl_entries s' = lru_touch wl_key_of (mCapacity s) (name, pid)
      (entry_on_acquire (getTimeNow ts)) (createNativeEntry name pid (getTimeNow ts)) (wl_entries s)"
proof (cases "mLookupTable s (name, pid)")
  case None
  let ?e = "createNativeEntry name pid (getTimeNow ts)"
  obtain t where t: "evictIfFull s = Some t"
    "mCapacity t = mCapacity s" "wl_entries t = take (mCapacity s - 1) (wl_entries s)"
    "indexed wl_key_of (mLookupTable t) (mStats t)" "mLookupTable t (name, pid) = None"
    by (rule evictIfFull_ok [OF assms]) (use None in blast)
  have "indexed wl_key_of ((mLookupTable t)((name, pid) \<mapsto> nl_fresh (mStats t)))
      (nl_emplace_front ?e (mStats t))"
    using indexed_insert [OF t(4), of ?e] t(5) by simp
  moreover have "wl_lookup s (name, pid) = None" using assms None by (simp add: wl_lookup_None)
  ultimately show ?thesis using assms None t
    by (cases "mCapacity s")
      (simp_all add: updateOnAcquire_def insertEntry_eq wl_inv_def lru_touch_def wl_lookup_def nl_simps)
next
  case (Some it)
  from replace_ok [OF assms Some, of "entry_on_acquire (getTimeNow ts)"] Some show ?thesis
    by (auto simp: updateOnAcquire_def lru_touch_def wl_lookup_def)
qed

lemma updateOnRelease_ok:
  assumes "wl_inv s"
  shows "\<exists>s'. updateOnRelease ts name pid s = Some s' \<and> wl_inv s' \<and> mCapacity s' = mCapacity s \<and>
    wl_entries s' = (case wl_lookup s (name, pid) of None \<Rightarrow> wl_entries s
      | Some e \<Rightarrow> entry_on_release (getTimeNow ts) e #
          filter (\<lambda>x. wl_key_of x \<noteq> (name, pid)) (wl_entries s))"
proof (cases "mLookupTable s (name, pid)")
  case None
  then show ?thesis using assms wl_lookup_None [OF assms, of "(name, pid)"]
    by (simp add: updateOnRelease_def)
next
  case (Some it)
  from replace_ok [OF assms Some, of "entry_on_release (getTimeNow ts)"] Some show ?thesis
    by (auto simp: updateOnRelease_def)
qed

lemma updateNow_ok:
  assumes "wl_inv s"
  shows "wl_inv (updateNow ts s)" "mCapacity (updateNow ts s) = mCapacity s"
    "wl_entries (updateNow ts s) = map (entry_now (getTimeNow ts)) (wl_entries s)"
  using assms by (simp_all add: wl_inv_def updateNow_def indexed_map nl_simps)

interpretation wl: lru_cache wl_inv wl_entries mCapacity wl_key_of
  "\<lambda>(ts, name, pid). updateOnAcquire ts name pid"
  "\<lambda>(ts, name, pid). (name, pid)"
  "\<lambda>(ts, name, pid). entry_on_acquire (getTimeNow ts)"
  "\<lambda>(ts, name, pid). createNativeEntry name pid (getTimeNow ts)"
proof (unfold_locales, goal_cases)
  case (5 s a)
  then show ?case using updateOnAcquire_ok [of s] by (cases a) simp
qed (auto simp: wl_inv_distinct wl_inv_bound)

subsection \<open>Lookups after an operation\<close>

lemma wl_lookup_front:
  assumes "wl_entries s' = e # filter (\<lambda>x. wl_key_of x \<noteq> k) es" "wl_key_of e = k"
  shows "wl_lookup s' k' = (if k' = k then Some e else find (\<lambda>x. wl_key_of x = k') es)"
proof -
  have "find (\<lambda>x. wl_key_of x = k') (filter (\<lambda>x. wl_key_of x \<noteq> k) es) =
    find (\<lambda>x. wl_key_of x = k') es" if "k' \<noteq> k"
    using that by (induction es) auto
  with assms show ?thesis by (auto simp: wl_lookup_def)
qed

lemma wl_lookup_acquire:
  assumes "wl_inv s" "updateOnAcquire ts name pid s = Some s'"
  shows "wl_lookup s' (name, pid) =
    Some (case wl_lookup s (name, pid) of
            None \<Rightarrow> createNativeEntry name pid (getTimeNow ts)
          | Some e \<Rightarrow> entry_on_acquire (getTimeNow ts) e)"
proof (cases "wl_lookup s (name, pid)")
  case None
  obtain n where "mCapacity s = Suc n" using assms(1) by (cases "mCapacity s") (auto simp: wl_inv_def)
  with None updateOnAcquire_ok [OF assms(1), of ts name pid] assms(2) show ?thesis
    by (auto simp: wl_lookup_def lru_touch_def)
next
  case (Some e)
  then have "wl_key_of e = (name, pid)" by (auto simp: wl_lookup_def dest: find_Some_in)
  with Some updateOnAcquire_ok [OF assms(1), of ts name pid] assms(2) show ?thesis
    by (auto simp: wl_lookup_def lru_touch_def)
qed

lemma wl_lookup_acquire_other:
  assumes "wl_inv s" "k \<noteq> (name, pid)" "updateOnAcquire ts name pid s = Some s'"
  shows "wl_lookup s' k = wl_lookup s k \<or>
    wl_lookup s (name, pid) = None \<and> length (wl_entries s) = mCapacity s \<and>
    k = wl_key_of (last (wl_entries s)) \<and> wl_lookup s' k = None"
proof (cases "wl_lookup s (name, pid)")
  case (Some e)
  then have "wl_key_of e = (name, pid)" by (auto simp: wl_lookup_def dest: find_Some_in)
  moreover from Some updateOnAcquire_ok [OF assms(1), of ts name pid] assms(3)
  have "wl_entries s' = entry_on_acquire (getTimeNow ts) e #
      filter (\<lambda>x. wl_key_of x \<noteq> (name, pid)) (wl_entries s)"
    by (auto simp: lru_touch_def wl_lookup_def)
  ultimately have "wl_lookup s' k = find (\<lambda>x. wl_key_of x = k) (wl_entries s)"
    using assms(2) wl_lookup_front [of s' _ "(name, pid)" "wl_entries s" k] by simp
  then show ?thesis by (simp add: wl_lookup_def)
next
  case None
  let ?new = "createNativeEntry name pid (getTimeNow ts)"
  from None updateOnAcquire_ok [OF assms(1), of ts name pid] assms(3)
  have s': "wl_entries s' = take (mCapacity s) (?new # wl_entries s)"
    by (auto simp: lru_touch_def wl_lookup_def)
  show ?thesis
  proof (cases "length (wl_entries s) < mCapacity s")
    case True
    with s' assms(2) show ?thesis by (simp add: wl_lookup_def)
  next
    case False
    with assms(1) have len: "length (wl_entries s) = mCapacity s" "wl_entries s \<noteq> []"
      by (auto simp: wl_inv_def)
    then obtain es e where es: "wl_entries s = es @ [e]" by (cases "wl_entries s" rule: rev_cases) auto
    with len have "mCapacity s = Suc (length es)" by simp
    with s' es have "wl_entries s' = ?new # es" by simp
    moreover have "distinct (map wl_key_of (es @ [e]))" using wl_inv_distinct [OF assms(1)] es by simp
    ultimately show ?thesis using None len es assms(2)
      by (auto simp: wl_lookup_def find_append find_None_iff image_iff split: option.splits)
  qed
qed

lemma wl_lookup_release:
  assumes "wl_inv s" "updateOnRelease ts name pid s = Some s'"
  shows "wl_lookup s' k = (if k = (name, pid)
      then map_option (entry_on_release (getTimeNow ts)) (wl_lookup s k) else wl_lookup s k)"
proof (cases "wl_lookup s (name, pid)")
  case None
  with updateOnRelease_ok [OF assms(1), of ts name pid] assms(2) show ?thesis
    by (auto simp: wl_lookup_def)
next
  case (Some e)
  let ?e = "entry_on_release (getTimeNow ts) e"
  from Some have "wl_key_of e = (name, pid)" by (auto simp: wl_lookup_def dest: find_Some_in)
  moreover from Some updateOnRelease_ok [OF assms(1), of ts name pid] assms(2)
  have "wl_entries s' = ?e # filter (\<lambda>x. wl_key_of x \<noteq> (name, pid)) (wl_entries s)" by auto
  ultimately have "wl_lookup s' k = (if k = (name, pid) then Some ?e else wl_lookup s k)"
    using wl_lookup_front [of s' ?e] by (simp add: wl_lookup_def)
  with Some show ?thesis by simp
qed

lemma wl_lookup_now:
  "wl_lookup (updateNow ts s) k = map_option (entry_now (getTimeNow ts)) (wl_lookup s k)"
proof -
  have "find (\<lambda>e. wl_key_of e = k) (map (entry_now t) es) =
    map_option (entry_now t) (find (\<lambda>e. wl_key_of e = k) es)" for t es
    by (induction es) auto
  then show ?thesis by (simp add: wl_lookup_def updateNow_def nl_simps)
qed

lemma wl_apply_ok:
  "wl_inv s \<Longrightarrow> \<exists>s'. wl_apply op s = Some s' \<and> wl_inv s' \<and> mCapacity s' = mCapacity s"
proof (cases op)
  case (Acquire ts name pid)
  assume "wl_inv s"
  from updateOnAcquire_ok [OF this, of ts name pid] Acquire show ?thesis by auto
next
  case (Release ts name pid)
  assume "wl_inv s"
  from updateOnRelease_ok [OF this, of ts name pid] Release show ?thesis by auto
qed (simp add: updateNow_ok)

lemma wl_run_ok:
  "wl_inv s \<Longrightarrow> \<exists>s'. run_opt wl_apply ops s = Some s' \<and> wl_inv s' \<and> mCapacity s' = mCapacity s"
proof (induction ops arbitrary: s)
  case Nil
  then show ?case by simp
next
  case (Cons op ops)
  then show ?case using wl_apply_ok [OF Cons.prems, of op] by force
qed

text \<open>The maximum is not changed by sampling an active entry before it is released.\<close>

lemma entry_release_after_now:
  assumes "isActive e"
    and "sint (activeTime e + (t1 - lastChange e)) \<le> sint (activeTime e + (t2 - lastChange e))"
  shows "entry_on_release t2 (entry_now t1 e) = entry_on_release t2 e"
  using assms by (simp add: entry_on_release_def entry_now_def Let_def smax_absorb algebra_simps)

lemma sint_elapsed:
  fixes a lc t :: i64
  assumes "0 \<le> sint a" "0 \<le> sint lc" "sint lc \<le> sint t" "sint a + sint t < 2 ^ 63"
  shows "sint (a + (t - lc)) = sint a + (sint t - sint lc)"
proof -
  have "sint (t - lc) = sint t - sint lc" using assms by (intro sint_diff_exact) auto
  with assms show ?thesis by (simp add: sint_add_exact)
qed

subsection \<open>Kernel wakeup sources\<close>

lemma kernel_stat_step:
  fixes p :: "string \<Rightarrow> i64 option"
  defines "h \<equiv> \<lambda>content. Option.bind content (\<lambda>raw. p (filter (\<lambda>c. c \<noteq> CHR 0x0A) raw))"
  shows "activeCount (kernel_stat p (n, c) i) =
      (if n = ''active_count'' then case h c of Some v \<Rightarrow> v | None \<Rightarrow> activeCount i else activeCount i)"
    and "activeTime (kernel_stat p (n, c) i) =
      (if n = ''active_time_ms'' then case h c of Some v \<Rightarrow> v | None \<Rightarrow> activeTime i else activeTime i)"
    and "eventCount (kernel_stat p (n, c) i) =
      (if n = ''event_count'' then case h c of Some v \<Rightarrow> v | None \<Rightarrow> eventCount i else eventCount i)"
    and "expireCount (kernel_stat p (n, c) i) =
      (if n = ''expire_count'' then case h c of Some v \<Rightarrow> v | None \<Rightarrow> expireCount i else expireCount i)"
    and "lastChange (kernel_stat p (n, c) i) =
      (if n = ''last_change_ms'' then case h c of Some v \<Rightarrow> v | None \<Rightarrow> lastChange i else lastChange i)"
    and "maxTime (kernel_stat p (n, c) i) =
      (if n = ''max_time_ms'' then case h c of Some v \<Rightarrow> v | None \<Rightarrow> maxTime i else maxTime i)"
    and "preventSuspendTime (kernel_stat p (n, c) i) =
      (if n = ''prevent_suspend_time_ms'' then case h c of Some v \<Rightarrow> v | None \<Rightarrow> preventSuspendTime i
       else preventSuspendTime i)"
    and "totalTime (kernel_stat p (n, c) i) =
      (if n = ''total_time_ms'' then case h c of Some v \<Rightarrow> v | None \<Rightarrow> totalTime i else totalTime i)"
    and "wakeupCount (kernel_stat p (n, c) i) =
      (if n = ''wakeup_count'' then case h c of Some v \<Rightarrow> v | None \<Rightarrow> wakeupCount i else wakeupCount i)"
    and "wl_name (kernel_stat p (n, c) i) =
      (if n = ''name'' then case map_option (filter (\<lambda>c. c \<noteq> CHR 0x0A)) c of Some v \<Rightarrow> v | None \<Rightarrow> wl_name i
       else wl_name i)"
    and "isKernelWakelock (kernel_stat p (n, c) i) = isKernelWakelock i"
    and "isActive (kernel_stat p (n, c) i) = isActive i"
    and "wl_pid (kernel_stat p (n, c) i) = wl_pid i"
  unfolding h_def
  by (cases c; auto simp: kernel_stat_def isStatFile_def Let_def split: option.split)+

subsection \<open>Properties\<close>

text \<open>C13. With a positive capacity, no sequence of acquire, release and sampling calls runs into
  undefined behaviour; after it the list and the lookup table are coupled, every key (name and
  pid) has one entry at most, and there are no more entries than the capacity.\<close>

theorem wl_run_safe:
  assumes "0 < capacity"
  shows "\<exists>s'. run_opt wl_apply ops (WakeLockEntryList_new capacity) = Some s' \<and> wl_inv s' \<and>
    distinct (map wl_key_of (getWakeLockStats parseInt None s' [])) \<and>
    length (getWakeLockStats parseInt None s' []) \<le> capacity"
proof -
  obtain s' where s': "run_opt wl_apply ops (WakeLockEntryList_new capacity) = Some s'" "wl_inv s'"
    "mCapacity s' = mCapacity (WakeLockEntryList_new capacity)"
    using wl_run_ok [OF wl_inv_new [OF assms]] by blast
  then have "mCapacity s' = capacity" by (simp add: WakeLockEntryList_new_def)
  with s' wl_inv_distinct [of s'] wl_inv_bound [of s'] show ?thesis
    by (simp add: getWakeLockStats_def getKernelWakelockStats_def)
qed

theorem wl_run_safe_witness:
  "\<exists>s'. run_opt wl_apply [Acquire \<lparr>tv_sec = 1, tv_nsec = 0\<rparr> ''a'' 7, Now \<lparr>tv_sec = 2, tv_nsec = 0\<rparr>,
       Release \<lparr>tv_sec = 3, tv_nsec = 0\<rparr> ''b'' 7] (WakeLockEntryList_new 1) = Some s' \<and> wl_inv s'"
  using wl_run_safe [of 1] by fastforce

text \<open>C14. Acquiring acts on the reported entries as the abstract least-recently-used list: a known
  wake lock is marked active with its activation count raised and moves to the front; an unknown
  one gets a fresh active entry in front, for which the least recently used entry is dropped when
  the list is full.\<close>

theorem wl_acquire_refines_lru:
  assumes "wl_inv s"
  shows "\<exists>s'. updateOnAcquire ts name pid s = Some s' \<and> wl_inv s' \<and> mCapacity s' = mCapacity s \<and>
    getWakeLockStats parseInt None s' [] =
      lru_touch wl_key_of (mCapacity s) (name, pid) (entry_on_acquire (getTimeNow ts))
        (createNativeEntry name pid (getTimeNow ts)) (getWakeLockStats parseInt None s [])"
  using updateOnAcquire_ok [OF assms, of ts name pid]
  by (simp add: getWakeLockStats_def getKernelWakelockStats_def)

theorem wl_acquire_refines_lru_witness:
  "\<exists>s'. updateOnAcquire \<lparr>tv_sec = 5, tv_nsec = 0\<rparr> ''a'' 7 (WakeLockEntryList_new 1) = Some s' \<and>
     map wl_name (getWakeLockStats (\<lambda>_. None) None s' []) = [''a'']"
proof -
  have "wl_inv (WakeLockEntryList_new 1)" by (simp add: wl_inv_new)
  from wl_acquire_refines_lru [OF this, of "\<lparr>tv_sec = 5, tv_nsec = 0\<rparr>" "''a''" 7 "\<lambda>_. None"]
  show ?thesis
    by (auto simp: getWakeLockStats_def getKernelWakelockStats_def WakeLockEntryList_new_def
        lru_touch_def createNativeEntry_def nl_simps)
qed

text \<open>C15. After any sequence of acquisitions the statistics hold exactly the \<open>capacity\<close> most
  recently acquired distinct wake locks, the most recent first.\<close>

theorem wl_most_recent:
  assumes "0 < capacity"
  shows "\<exists>s'. run_opt (\<lambda>(ts, name, pid). updateOnAcquire ts name pid) as
      (WakeLockEntryList_new capacity) = Some s' \<and>
    map wl_key_of (getWakeLockStats parseInt None s' []) = take capacity (rev (remdups (map snd as)))"
proof -
  have "wl_entries (WakeLockEntryList_new capacity) = []"
    "mCapacity (WakeLockEntryList_new capacity) = capacity"
    by (simp_all add: WakeLockEntryList_new_def nl_simps)
  moreover have "(\<lambda>(ts, name, pid). (name, pid)) = (snd :: timespec \<times> wl_key \<Rightarrow> wl_key)"
    by (auto simp: fun_eq_iff)
  ultimately show ?thesis
    using wl.touches_lru [OF wl_inv_new [OF assms], of as]
    by (force simp: getWakeLockStats_def getKernelWakelockStats_def)
qed

theorem wl_most_recent_witness:
  "\<exists>s'. run_opt (\<lambda>(ts, name, pid). updateOnAcquire ts name pid)
      [(\<lparr>tv_sec = 1, tv_nsec = 0\<rparr>, ''a'', 7), (\<lparr>tv_sec = 2, tv_nsec = 0\<rparr>, ''b'', 7),
       (\<lparr>tv_sec = 3, tv_nsec = 0\<rparr>, ''a'', 7), (\<lparr>tv_sec = 4, tv_nsec = 0\<rparr>, ''c'', 7)]
      (WakeLockEntryList_new 2) = Some s' \<and>
    map wl_key_of (getWakeLockStats (\<lambda>_. None) None s' []) = [(''c'', 7), (''a'', 7)]"
  using wl_most_recent [of 2
      "[(\<lparr>tv_sec = 1, tv_nsec = 0\<rparr>, ''a'', 7), (\<lparr>tv_sec = 2, tv_nsec = 0\<rparr>, ''b'', 7),
        (\<lparr>tv_sec = 3, tv_nsec = 0\<rparr>, ''a'', 7), (\<lparr>tv_sec = 4, tv_nsec = 0\<rparr>, ''c'', 7)]"
      "\<lambda>_. None"] by simp

text \<open>C16. One hold of a wake lock, from an acquisition to the next release, adds exactly its
  duration to the total time, raises the activation count by one, raises the maximal time to
  the duration if that is longer, and leaves the entry inactive.\<close>

theorem wl_hold_accounting:
  assumes "wl_inv s"
    and "updateOnAcquire ts1 name pid s = Some s1" and "updateOnRelease ts2 name pid s1 = Some s2"
  shows "\<exists>e. wl_lookup s2 (name, pid) = Some e \<and> \<not> isActive e \<and> activeTime e = 0 \<and>
    lastChange e = getTimeNow ts2 \<and>
    (case wl_lookup s (name, pid) of
       None \<Rightarrow> activeCount e = 1 \<and> totalTime e = getTimeNow ts2 - getTimeNow ts1 \<and>
         maxTime e = smax 0 (getTimeNow ts2 - getTimeNow ts1)
     | Some e0 \<Rightarrow> activeCount e = activeCount e0 + 1 \<and>
         totalTime e = totalTime e0 + (getTimeNow ts2 - getTimeNow ts1) \<and>
         maxTime e = smax (maxTime e0) (getTimeNow ts2 - getTimeNow ts1))"
proof -
  from updateOnAcquire_ok [OF assms(1), of ts1 name pid] assms(2) have "wl_inv s1" by simp
  then show ?thesis
    using wl_lookup_acquire [OF assms(1,2)] wl_lookup_release [OF _ assms(3), of "(name, pid)"]
    by (cases "wl_lookup s (name, pid)") (simp_all add: field_defs)
qed

theorem wl_hold_accounting_witness:
  "\<exists>s1 s2 e. updateOnAcquire \<lparr>tv_sec = 1, tv_nsec = 0\<rparr> ''a'' 7 (WakeLockEntryList_new 1) = Some s1 \<and>
     updateOnRelease \<lparr>tv_sec = 3, tv_nsec = 0\<rparr> ''a'' 7 s1 = Some s2 \<and>
     wl_lookup s2 (''a'', 7) = Some e \<and> totalTime e = 2000 \<and> maxTime e = 2000 \<and> \<not> isActive e"
proof -
  let ?t1 = "\<lparr>tv_sec = 1, tv_nsec = 0\<rparr>" and ?t2 = "\<lparr>tv_sec = 3, tv_nsec = 0\<rparr>"
  have i: "wl_inv (WakeLockEntryList_new 1)" by (simp add: wl_inv_new)
  from updateOnAcquire_ok [OF i, of ?t1 "''a''" 7] obtain s1 where
    s1: "updateOnAcquire ?t1 ''a'' 7 (WakeLockEntryList_new 1) = Some s1" "wl_inv s1" by blast
  from updateOnRelease_ok [OF s1(2), of ?t2 "''a''" 7] obtain s2 where
    s2: "updateOnRelease ?t2 ''a'' 7 s1 = Some s2" by blast
  have "wl_lookup (WakeLockEntryList_new 1) (''a'', 7) = None"
    by (simp add: wl_lookup_def WakeLockEntryList_new_def nl_simps)
  with wl_hold_accounting [OF i s1(1) s2] s1(1) s2 show ?thesis
    by (auto simp: getTimeNow_def smax_def)
qed

text \<open>Acquiring or releasing one wake lock leaves the entry of every other wake lock as it
  was; the one exception is the least recently used entry, which is dropped when an unknown wake
  lock is acquired while the list is full.\<close>

lemma wl_other_entries_kept:
  assumes "wl_inv s" and "k \<noteq> (name, pid)"
  shows "(updateOnRelease ts name pid s = Some s' \<longrightarrow> wl_lookup s' k = wl_lookup s k) \<and>
    (updateOnAcquire ts name pid s = Some s' \<longrightarrow> wl_lookup s' k = wl_lookup s k \<or>
       wl_lookup s (name, pid) = None \<and> length (wl_entries s) = mCapacity s \<and>
       k = wl_key_of (last (wl_entries s)) \<and> wl_lookup s' k = None)"
proof (intro conjI impI)
  assume "updateOnRelease ts name pid s = Some s'"
  from wl_lookup_release [OF assms(1) this, of k] assms(2)
  show "wl_lookup s' k = wl_lookup s k" by simp
next
  assume "updateOnAcquire ts name pid s = Some s'"
  with wl_lookup_acquire_other [OF assms] show "wl_lookup s' k = wl_lookup s k \<or>
       wl_lookup s (name, pid) = None \<and> length (wl_entries s) = mCapacity s \<and>
       k = wl_key_of (last (wl_entries s)) \<and> wl_lookup s' k = None" by blast
qed

lemma wl_other_entries_kept_witness:
  "\<exists>s'. updateOnRelease \<lparr>tv_sec = 1, tv_nsec = 0\<rparr> ''a'' 7 (WakeLockEntryList_new 1) = Some s' \<and>
     wl_lookup s' (''b'', 7) = wl_lookup (WakeLockEntryList_new 1) (''b'', 7)"
  using wl_other_entries_kept [of "WakeLockEntryList_new 1" "(''b'', 7)" "''a''" 7]
    updateOnRelease_ok [of "WakeLockEntryList_new 1" "\<lparr>tv_sec = 1, tv_nsec = 0\<rparr>" "''a''" 7]
  by (auto simp: wl_inv_new)

text \<open>C17. Sampling the statistics while a wake lock is held (\<open>updateNow\<close>, as a dump or
  \<open>getWakeLockStats\<close> does) does not change what its later release records, provided the clock
  readings are in order and in range.\<close>

theorem wl_sampling_transparent:
  assumes inv: "wl_inv s" and held: "wl_lookup s (name, pid) = Some e" "isActive e"
    and range: "0 \<le> sint (activeTime e)" "0 \<le> sint (lastChange e)"
      "sint (activeTime e) + sint (getTimeNow ts2) < 2 ^ 63"
    and order: "sint (lastChange e) \<le> sint (getTimeNow ts1)"
      "sint (getTimeNow ts1) \<le> sint (getTimeNow ts2)"
  shows "map_option (\<lambda>s'. wl_lookup s' (name, pid)) (updateOnRelease ts2 name pid (updateNow ts1 s)) =
    map_option (\<lambda>s'. wl_lookup s' (name, pid)) (updateOnRelease ts2 name pid s)"
proof -
  obtain s1 s2 where s12: "updateOnRelease ts2 name pid (updateNow ts1 s) = Some s1"
    "updateOnRelease ts2 name pid s = Some s2"
    using updateOnRelease_ok [OF inv, of ts2 name pid]
      updateOnRelease_ok [OF updateNow_ok(1) [OF inv], of ts2 name pid ts1] by blast
  have "entry_on_release (getTimeNow ts2) (entry_now (getTimeNow ts1) e) =
    entry_on_release (getTimeNow ts2) e"
    using held(2) range order by (intro entry_release_after_now) (simp_all add: sint_elapsed)
  with s12 held(1) wl_lookup_release [OF inv s12(2), of "(name, pid)"]
    wl_lookup_release [OF updateNow_ok(1) [OF inv] s12(1), of "(name, pid)"]
  show ?thesis by (simp add: wl_lookup_now)
qed

theorem wl_sampling_transparent_witness:
  "\<exists>s e. wl_inv s \<and> wl_lookup s (''a'', 7) = Some e \<and> isActive e \<and>
     map_option (\<lambda>s'. wl_lookup s' (''a'', 7))
       (updateOnRelease \<lparr>tv_sec = 3, tv_nsec = 0\<rparr> ''a'' 7 (updateNow \<lparr>tv_sec = 2, tv_nsec = 0\<rparr> s)) =
     map_option (\<lambda>s'. wl_lookup s' (''a'', 7)) (updateOnRelease \<lparr>tv_sec = 3, tv_nsec = 0\<rparr> ''a'' 7 s)"
proof -
  let ?t1 = "\<lparr>tv_sec = 1, tv_nsec = 0\<rparr>"
  have i: "wl_inv (WakeLockEntryList_new 1)" by (simp add: wl_inv_new)
  from updateOnAcquire_ok [OF i, of ?t1 "''a''" 7] obtain s where
    s: "updateOnAcquire ?t1 ''a'' 7 (WakeLockEntryList_new 1) = Some s" "wl_inv s" by blast
  let ?e = "createNativeEntry ''a'' 7 (getTimeNow ?t1)"
  have "wl_lookup (WakeLockEntryList_new 1) (''a'', 7) = None"
    by (simp add: wl_lookup_def WakeLockEntryList_new_def nl_simps)
  then have e: "wl_lookup s (''a'', 7) = Some ?e" using wl_lookup_acquire [OF i s(1)] by simp
  have "map_option (\<lambda>s'. wl_lookup s' (''a'', 7))
       (updateOnRelease \<lparr>tv_sec = 3, tv_nsec = 0\<rparr> ''a'' 7 (updateNow \<lparr>tv_sec = 2, tv_nsec = 0\<rparr> s)) =
     map_option (\<lambda>s'. wl_lookup s' (''a'', 7)) (updateOnRelease \<lparr>tv_sec = 3, tv_nsec = 0\<rparr> ''a'' 7 s)"
    by (rule wl_sampling_transparent [OF s(2) e]) (simp_all add: field_defs getTimeNow_def)
  with s(2) e show ?thesis by (auto simp: field_defs)
qed

text \<open>The clock reading used for all statistics is the monotonic time in milliseconds, rounded
  down: for a normalised \<open>timespec\<close> whose seconds fit, no wrap-around occurs.\<close>

lemma getTimeNow_exact:
  assumes "0 \<le> sint (tv_nsec ts)" "sint (tv_nsec ts) < 1000000000"
    and "0 \<le> sint (tv_sec ts)" "sint (tv_sec ts) < 2 ^ 53"
  shows "sint (getTimeNow ts) = (sint (tv_sec ts) * 1000000000 + sint (tv_nsec ts)) div 1000000"
proof -
  let ?ms = "sint (tv_nsec ts) div 1000000"
  have ms: "0 \<le> ?ms" using assms(1) by (simp add: pos_imp_zdiv_nonneg_iff)
  have "?ms \<le> 999999999 div 1000000" using assms(2) by (intro zdiv_mono1) auto
  then have ms': "?ms < 1000" by simp
  have "sint (tv_nsec ts) sdiv 1000000 = ?ms" using assms(1) by (cases "sint (tv_nsec ts) = 0") (simp_all add: signed_divide_int_def)
  moreover have "sint (word_of_int ?ms :: i64) = ?ms"
    using ms ms' by (simp add: signed_of_int signed_take_bit_int_eq_self)
  moreover have "sint (tv_sec ts * 1000) = sint (tv_sec ts) * 1000"
    using assms(3,4) by (simp add: sint_word_ariths(3) signed_take_bit_int_eq_self)
  ultimately have "sint (getTimeNow ts) = ?ms + sint (tv_sec ts) * 1000"
    unfolding getTimeNow_def using ms ms' assms(3,4) by (subst sint_add_exact) simp_all
  also have "\<dots> = (sint (tv_sec ts) * 1000000000 + sint (tv_nsec ts)) div 1000000" by simp
  finally show ?thesis .
qed

lemma getTimeNow_exact_witness:
  "sint (getTimeNow \<lparr>tv_sec = 12, tv_nsec = 345678901\<rparr>) = 12345"
  using getTimeNow_exact [of "\<lparr>tv_sec = 12, tv_nsec = 345678901\<rparr>"] by simp

text \<open>C18. The entry of a kernel wakeup source is determined by the stat files found by name,
  whatever the order in which the directory lists them: each recognised file that can be read and
  parsed sets its own field, every other field is zero, the name is the \<open>name\<close> file without
  newlines, and the source is active exactly if its active time is positive.\<close>

theorem kernel_entry_by_name:
  fixes parseInt :: "string \<Rightarrow> i64 option"
  assumes "distinct (map fst files)"
  defines "val \<equiv> \<lambda>n. case Option.bind (map_of files n) (\<lambda>content.
      Option.bind content (\<lambda>raw. parseInt (filter (\<lambda>c. c \<noteq> CHR 0x0A) raw))) of Some v \<Rightarrow> v | None \<Rightarrow> 0"
  shows "createKernelEntry parseInt (Some files) =
    \<lparr>wl_name = (case Option.bind (map_of files ''name'') (map_option (filter (\<lambda>c. c \<noteq> CHR 0x0A)))
        of Some v \<Rightarrow> v | None \<Rightarrow> []),
     activeCount = val ''active_count'', lastChange = val ''last_change_ms'',
     maxTime = val ''max_time_ms'', totalTime = val ''total_time_ms'',
     isActive = (0 < sint (val ''active_time_ms'')), activeTime = val ''active_time_ms'',
     isKernelWakelock = True, wl_pid = -1, eventCount = val ''event_count'',
     expireCount = val ''expire_count'', preventSuspendTime = val ''prevent_suspend_time_ms'',
     wakeupCount = val ''wakeup_count''\<rparr>"
proof -
  note step = fold_field [OF kernel_stat_step(1) assms(1)] fold_field [OF kernel_stat_step(2) assms(1)]
    fold_field [OF kernel_stat_step(3) assms(1)] fold_field [OF kernel_stat_step(4) assms(1)]
    fold_field [OF kernel_stat_step(5) assms(1)] fold_field [OF kernel_stat_step(6) assms(1)]
    fold_field [OF kernel_stat_step(7) assms(1)] fold_field [OF kernel_stat_step(8) assms(1)]
    fold_field [OF kernel_stat_step(9) assms(1)] fold_field [OF kernel_stat_step(10) assms(1)]
    fold_const [of isKernelWakelock "kernel_stat parseInt", OF kernel_stat_step(11)]
    fold_const [of wl_pid "kernel_stat parseInt", OF kernel_stat_step(13)]
  show ?thesis
    by (rule WakeLockInfo.equality) (simp_all add: createKernelEntry_def val_def Let_def step split: option.split)
qed

theorem kernel_entry_by_name_witness:
  "createKernelEntry (\<lambda>v. if v = ''3'' then Some 3 else None)
     (Some [(''uevent'', Some ''9''), (''active_time_ms'', Some (''3'' @ [CHR 0x0A])),
            (''name'', Some (''usb'' @ [CHR 0x0A])), (''event_count'', None)]) =
    \<lparr>wl_name = ''usb'', activeCount = 0, lastChange = 0, maxTime = 0, totalTime = 0,
     isActive = True, activeTime = 3, isKernelWakelock = True, wl_pid = -1, eventCount = 0,
     expireCount = 0, preventSuspendTime = 0, wakeupCount = 0\<rparr>"
  using kernel_entry_by_name [of "[(''uevent'', Some ''9''), (''active_time_ms'', Some (''3'' @ [CHR 0x0A])),
      (''name'', Some (''usb'' @ [CHR 0x0A])), (''event_count'', None)]"
      "\<lambda>v. if v = ''3'' then Some 3 else None"] by simp

text \<open>With capacity 0 the first acquisition already steps back from the end of an empty list,
  which is undefined behaviour.\<close>

lemma wl_capacity_zero_undefined:
  "updateOnAcquire ts name pid (WakeLockEntryList_new 0) = None"
  by (simp add: updateOnAcquire_def evictIfFull_def WakeLockEntryList_new_def nl_size_def
      nl_prev_end_def nl_empty_def)

text \<open>C19. Two overlapping holds of wake locks with the same name and pid share one entry, and the
  first release ends it: the entry is then inactive although one hold is left, and the total time
  counts from the second acquisition only.\<close>

theorem wl_overlapping_holds:
  assumes "0 < capacity"
  shows "\<exists>s e. run_opt wl_apply [Acquire ts1 name pid, Acquire ts2 name pid, Release ts3 name pid]
      (WakeLockEntryList_new capacity) = Some s \<and> wl_lookup s (name, pid) = Some e \<and>
    \<not> isActive e \<and> activeCount e = 2 \<and> totalTime e = getTimeNow ts3 - getTimeNow ts2"
proof -
  have i: "wl_inv (WakeLockEntryList_new capacity)" using assms by (rule wl_inv_new)
  from updateOnAcquire_ok [OF i, of ts1 name pid] obtain s1 where
    s1: "updateOnAcquire ts1 name pid (WakeLockEntryList_new capacity) = Some s1" "wl_inv s1" by blast
  from updateOnAcquire_ok [OF s1(2), of ts2 name pid] obtain s2 where
    s2: "updateOnAcquire ts2 name pid s1 = Some s2" "wl_inv s2" by blast
  from updateOnRelease_ok [OF s2(2), of ts3 name pid] obtain s3 where
    s3: "updateOnRelease ts3 name pid s2 = Some s3" by blast
  have "wl_lookup (WakeLockEntryList_new capacity) (name, pid) = None"
    by (simp add: wl_lookup_def WakeLockEntryList_new_def nl_simps)
  with s1 s2 s3 wl_lookup_acquire [OF i s1(1)] wl_lookup_acquire [OF s1(2) s2(1)]
    wl_lookup_release [OF s2(2) s3, of "(name, pid)"]
  show ?thesis by (simp add: field_defs)
qed

theorem wl_overlapping_holds_witness:
  "\<exists>s e. run_opt wl_apply [Acquire \<lparr>tv_sec = 1, tv_nsec = 0\<rparr> ''a'' 7,
       Acquire \<lparr>tv_sec = 2, tv_nsec = 0\<rparr> ''a'' 7, Release \<lparr>tv_sec = 3, tv_nsec = 0\<rparr> ''a'' 7]
      (WakeLockEntryList_new 10) = Some s \<and> wl_lookup s (''a'', 7) = Some e \<and>
    \<not> isActive e \<and> totalTime e = 1000"
  using wl_overlapping_holds [of 10 "\<lparr>tv_sec = 1, tv_nsec = 0\<rparr>" "''a''" 7
      "\<lparr>tv_sec = 2, tv_nsec = 0\<rparr>" "\<lparr>tv_sec = 3, tv_nsec = 0\<rparr>"]
  by (auto simp: getTimeNow_def)

end
