(* ===== verification/SuspendControl.thy ===== *)
theory SuspendControl
  imports Prelude
begin

text \<open>
  \<open>SuspendControlService\<close> of \<open>suspend/1.0/default/SuspendControlService.cpp\<close>: clients register
  callbacks for wakeups and for single wake locks, the service calls them back, and drops the
  callbacks of a process that died.

  A callback reference carries the binder it stands for; the code compares callbacks by their
  binder (\<open>IInterface::asBinder\<close>) only. What the binder library answers is an input of the
  operations: whether a binder is remote (\<open>remote\<close>) and whether \<open>linkToDeath\<close> succeeds
  (\<open>linkOk\<close>); the successful calls of \<open>linkToDeath\<close> are collected in \<open>deathLinks\<close>. A
  notification returns the calls it makes, in order; \<open>react\<close> is what a called client may do to the
  service before the next call (it may register further callbacks), which is why the code copies
  the callbacks before it calls them. Results of the calls are ignored, as in the source.

  \<open>binderDied\<close> takes its two locks one after the other; here it is one step, as the two lists it filters are
  never read together.

  Shown: every registered remote callback is linked to death and no wake lock has the same callback
  twice, whatever clients do; after any history of calls a notification reaches exactly the callbacks whose
  registration succeeded and whose process has not died since, in order of registration; a notification
  started after the death of a process does not call it, and the others are called as if it had never
  registered; a registration that reports failure has no effect on later notifications.
\<close>

type_synonym ibinder = nat

record callback =
  cb_object :: nat
  cb_binder :: ibinder

record SuspendControlService =
  mCallbacks :: "callback list"
  mWakelockCallbacks :: "string \<rightharpoonup> callback list"
  deathLinks :: "ibinder list"

datatype wl_event = notifyAcquired | notifyReleased

definition SuspendControlService_new :: SuspendControlService where
  "SuspendControlService_new =
     \<lparr>mCallbacks = [], mWakelockCallbacks = Map.empty, deathLinks = []\<rparr>"

definition findCb :: "ibinder \<Rightarrow> SuspendControlService \<Rightarrow> callback option" where
  "findCb cb s = find (\<lambda>i. cb_binder i = cb) (mCallbacks s)"

definition registerCallback ::
  "(ibinder \<Rightarrow> bool) \<Rightarrow> bool \<Rightarrow> callback option \<Rightarrow> SuspendControlService \<Rightarrow>
   bool \<times> SuspendControlService" where
  "registerCallback remote linkOk callback s =
     (case callback of None \<Rightarrow> (False, s)
      | Some c \<Rightarrow>
          let cb = cb_binder c in
          if remote cb \<and> findCb cb s = None then
            if \<not> linkOk then (False, s)
            else (True, s\<lparr>deathLinks := cb # deathLinks s, mCallbacks := mCallbacks s @ [c]\<rparr>)
          else (True, s\<lparr>mCallbacks := mCallbacks s @ [c]\<rparr>))"

text \<open>\<open>mWakelockCallbacks[name]\<close> creates an empty list for a name that has none.\<close>

definition registerWakelockCallback ::
  "(ibinder \<Rightarrow> bool) \<Rightarrow> bool \<Rightarrow> callback option \<Rightarrow> string \<Rightarrow> SuspendControlService \<Rightarrow>
   bool \<times> SuspendControlService" where
  "registerWakelockCallback remote linkOk callback name s =
     (case callback of None \<Rightarrow> (False, s)
      | Some c \<Rightarrow>
          if name = [] then (False, s)
          else
            let cbs = (case mWakelockCallbacks s name of None \<Rightarrow> [] | Some l \<Rightarrow> l);
                s1 = s\<lparr>mWakelockCallbacks := (mWakelockCallbacks s)(name \<mapsto> cbs)\<rparr>
            in if find (\<lambda>i. cb_binder c = cb_binder i) cbs \<noteq> None then (False, s1)
               else if remote (cb_binder c) \<and> \<not> linkOk then (False, s1)
               else (True, s1\<lparr>deathLinks := (if remote (cb_binder c) then [cb_binder c] else []) @ deathLinks s1,
                              mWakelockCallbacks := (mWakelockCallbacks s1)(name \<mapsto> cbs @ [c])\<rparr>))"

text \<open>The death of a binder also ends its death notifications.\<close>

definition binderDied :: "ibinder \<Rightarrow> SuspendControlService \<Rightarrow> SuspendControlService" where
  "binderDied who s =
     s\<lparr>mCallbacks := filter (\<lambda>i. who \<noteq> cb_binder i) (mCallbacks s),
       mWakelockCallbacks := (\<lambda>name. case mWakelockCallbacks s name of None \<Rightarrow> None
         | Some cbs \<Rightarrow> (let cbs' = filter (\<lambda>i. who \<noteq> cb_binder i) cbs
                        in if cbs' = [] then None else Some cbs')),
       deathLinks := filter (\<lambda>b. b \<noteq> who) (deathLinks s)\<rparr>"

text \<open>The calls of a notification, made one by one on a copy of the callback list.\<close>

fun call_all ::
  "('c \<Rightarrow> 's \<Rightarrow> 's) \<Rightarrow> 'c list \<Rightarrow> 's \<Rightarrow> 'c list \<times> 's" where
  "call_all react [] s = ([], s)"
| "call_all react (c # cs) s = (case call_all react cs (react c s) of (out, s') \<Rightarrow> (c # out, s'))"

definition notifyWakelock ::
  "(callback \<times> wl_event \<Rightarrow> SuspendControlService \<Rightarrow> SuspendControlService) \<Rightarrow> string \<Rightarrow> bool \<Rightarrow>
   SuspendControlService \<Rightarrow> (callback \<times> wl_event) list \<times> SuspendControlService" where
  "notifyWakelock react name isAcquired s =
     (case mWakelockCallbacks s name of None \<Rightarrow> ([], s)
      | Some callbacksCopy \<Rightarrow>
          call_all react
            (map (\<lambda>c. (c, if isAcquired then notifyAcquired else notifyReleased)) callbacksCopy) s)"

definition notifyWakeup ::
  "(callback \<times> bool \<times> string list \<Rightarrow> SuspendControlService \<Rightarrow> SuspendControlService) \<Rightarrow>
   bool \<Rightarrow> string list \<Rightarrow> SuspendControlService \<Rightarrow>
   (callback \<times> bool \<times> string list) list \<times> SuspendControlService" where
  "notifyWakeup react success wakeupReasons s =
     call_all react (map (\<lambda>c. (c, success, wakeupReasons)) (mCallbacks s)) s"

text \<open>The calls the service receives.\<close>

datatype cs_op =
    RegisterCallback bool "callback option"
  | RegisterWakelockCallback bool "callback option" string
  | BinderDied ibinder

fun cs_apply :: "(ibinder \<Rightarrow> bool) \<Rightarrow> cs_op \<Rightarrow> SuspendControlService \<Rightarrow> SuspendControlService" where
  "cs_apply remote (RegisterCallback ok c) s = snd (registerCallback remote ok c s)"
| "cs_apply remote (RegisterWakelockCallback ok c name) s =
     snd (registerWakelockCallback remote ok c name s)"
| "cs_apply remote (BinderDied who) s = binderDied who s"

definition cs_run :: "(ibinder \<Rightarrow> bool) \<Rightarrow> cs_op list \<Rightarrow> SuspendControlService \<Rightarrow> SuspendControlService" where
  "cs_run remote ops s = fold (cs_apply remote) ops s"

text \<open>The history as the clients see it: the callback whose registration at position \<open>i\<close> returned success, and the
  callbacks of such registrations whose binder did not die at a later position.\<close>

definition registered_wakeup :: "(ibinder \<Rightarrow> bool) \<Rightarrow> cs_op list \<Rightarrow> nat \<Rightarrow> callback option" where
  "registered_wakeup remote ops i =
     (case ops ! i of
        RegisterCallback ok c \<Rightarrow>
          if fst (registerCallback remote ok c (cs_run remote (take i ops) SuspendControlService_new)) then c else None
      | _ \<Rightarrow> None)"

definition registered_wakelock :: "(ibinder \<Rightarrow> bool) \<Rightarrow> string \<Rightarrow> cs_op list \<Rightarrow> nat \<Rightarrow> callback option" where
  "registered_wakelock remote name ops i =
     (case ops ! i of
        RegisterWakelockCallback ok c n \<Rightarrow>
          if n = name \<and>
             fst (registerWakelockCallback remote ok c n (cs_run remote (take i ops) SuspendControlService_new))
          then c else None
      | _ \<Rightarrow> None)"

definition surviving :: "(cs_op list \<Rightarrow> nat \<Rightarrow> callback option) \<Rightarrow> cs_op list \<Rightarrow> callback list" where
  "surviving registered ops =
     List.map_filter (\<lambda>i. case registered ops i of None \<Rightarrow> None
       | Some c \<Rightarrow> if BinderDied (cb_binder c) \<in> set (drop (Suc i) ops) then None else Some c)
       [0..<length ops]"

text \<open>A call that brings a callback of the binder \<open>who\<close>.\<close>

fun registers :: "ibinder \<Rightarrow> cs_op \<Rightarrow> bool" where
  "registers who (RegisterCallback _ (Some c)) = (cb_binder c = who)"
| "registers who (RegisterWakelockCallback _ (Some c) _) = (cb_binder c = who)"
| "registers who _ = False"

text \<open>The callbacks registered for a wake lock, and the service invariant.\<close>

definition wakelock_cbs :: "SuspendControlService \<Rightarrow> string \<Rightarrow> callback list" where
  "wakelock_cbs s name = (case mWakelockCallbacks s name of None \<Rightarrow> [] | Some l \<Rightarrow> l)"

definition cs_inv :: "(ibinder \<Rightarrow> bool) \<Rightarrow> SuspendControlService \<Rightarrow> bool" where
  "cs_inv remote s \<longleftrightarrow>
     (\<forall>c \<in> set (mCallbacks s). remote (cb_binder c) \<longrightarrow> cb_binder c \<in> set (deathLinks s)) \<and>
     (\<forall>name. \<forall>c \<in> set (wakelock_cbs s name). remote (cb_binder c) \<longrightarrow> cb_binder c \<in> set (deathLinks s)) \<and>
     (\<forall>name. distinct (map cb_binder (wakelock_cbs s name)))"

subsection \<open>Effects on the callbacks of a wake lock\<close>

lemma call_all_fold: "call_all react cs s = (cs, fold react cs s)"
  by (induction cs arbitrary: s) auto

lemma fst_call_all [simp]: "fst (call_all react cs s) = cs"
  by (simp add: call_all_fold)

lemma fst_notifyWakelock:
  "fst (notifyWakelock react name acq s) =
     map (\<lambda>c. (c, if acq then notifyAcquired else notifyReleased)) (wakelock_cbs s name)"
  by (simp add: notifyWakelock_def wakelock_cbs_def split: option.split)

lemma fst_notifyWakeup:
  "fst (notifyWakeup react ok reasons s) = map (\<lambda>c. (c, ok, reasons)) (mCallbacks s)"
  by (simp add: notifyWakeup_def)

lemma wakelock_cbs_binderDied:
  "wakelock_cbs (binderDied who s) name = filter (\<lambda>i. cb_binder i \<noteq> who) (wakelock_cbs s name)"
  by (simp add: wakelock_cbs_def binderDied_def Let_def eq_commute [of who] split: option.split)

lemma binderDied_fields:
  "mCallbacks (binderDied who s) = filter (\<lambda>i. cb_binder i \<noteq> who) (mCallbacks s)"
  "deathLinks (binderDied who s) = filter (\<lambda>b. b \<noteq> who) (deathLinks s)"
  by (simp_all add: binderDied_def eq_commute [of who])

lemma wakelock_cbs_registerCallback:
  "wakelock_cbs (snd (registerCallback remote ok c s)) name = wakelock_cbs s name"
  by (simp add: registerCallback_def wakelock_cbs_def Let_def split: option.split)

lemma wakelock_cbs_registerWakelock:
  "wakelock_cbs (snd (registerWakelockCallback remote ok c n s)) name =
     (if fst (registerWakelockCallback remote ok c n s) \<and> name = n
      then wakelock_cbs s name @ [the c] else wakelock_cbs s name)"
  by (auto simp: registerWakelockCallback_def wakelock_cbs_def Let_def split: option.split)

lemma registerWakelock_success:
  "fst (registerWakelockCallback remote ok c n s) \<longleftrightarrow>
     (\<exists>cb. c = Some cb \<and> n \<noteq> [] \<and> cb_binder cb \<notin> set (map cb_binder (wakelock_cbs s n)) \<and>
       (remote (cb_binder cb) \<longrightarrow> ok))"
  by (auto simp: registerWakelockCallback_def wakelock_cbs_def Let_def find_None_key
      split: option.split)

lemma registerWakelock_rest:
  "mCallbacks (snd (registerWakelockCallback remote ok c n s)) = mCallbacks s"
  "set (deathLinks s) \<subseteq> set (deathLinks (snd (registerWakelockCallback remote ok c n s)))"
  "fst (registerWakelockCallback remote ok c n s) \<Longrightarrow> remote (cb_binder (the c)) \<Longrightarrow>
     cb_binder (the c) \<in> set (deathLinks (snd (registerWakelockCallback remote ok c n s)))"
  by (auto simp: registerWakelockCallback_def Let_def split: option.splits if_splits)

lemma registerCallback_callbacks:
  "mCallbacks (snd (registerCallback remote ok c s)) =
     (if fst (registerCallback remote ok c s) then mCallbacks s @ [the c] else mCallbacks s)"
  by (auto simp: registerCallback_def Let_def split: option.split)

lemma registerCallback_links:
  "set (deathLinks s) \<subseteq> set (deathLinks (snd (registerCallback remote ok c s)))"
  by (auto simp: registerCallback_def Let_def split: option.splits if_splits)

lemma registerCallback_linked:
  assumes "fst (registerCallback remote ok c s)" "remote (cb_binder (the c))"
  shows "cb_binder (the c) \<in> set (deathLinks (snd (registerCallback remote ok c s))) \<or>
    cb_binder (the c) \<in> set (map cb_binder (mCallbacks s))"
  using assms
  by (auto simp: registerCallback_def Let_def findCb_def find_None_key rev_image_eqI
      split: option.splits if_splits)

subsection \<open>The invariant\<close>

lemma cs_inv_new: "cs_inv remote SuspendControlService_new"
  by (simp add: cs_inv_def SuspendControlService_new_def wakelock_cbs_def)

lemma cs_inv_registerCallback:
  assumes "cs_inv remote s"
  shows "cs_inv remote (snd (registerCallback remote ok c s))"
proof -
  let ?s = "snd (registerCallback remote ok c s)"
  have "cb_binder i \<in> set (deathLinks ?s)" if "i \<in> set (mCallbacks ?s)" "remote (cb_binder i)" for i
  proof (cases "i \<in> set (mCallbacks s)")
    case True
    with that assms registerCallback_links [of s remote ok c] show ?thesis by (auto simp: cs_inv_def)
  next
    case False
    with that(1) have ok: "fst (registerCallback remote ok c s)" and i: "i = the c"
      by (auto simp: registerCallback_callbacks split: if_splits)
    from registerCallback_linked [OF ok] that(2) i
    consider "cb_binder i \<in> set (deathLinks ?s)" | j where "j \<in> set (mCallbacks s)" "cb_binder j = cb_binder i"
      by fastforce
    then show ?thesis
    proof cases
      case 2
      with assms that(2) have "cb_binder i \<in> set (deathLinks s)" by (fastforce simp: cs_inv_def)
      with registerCallback_links show ?thesis by blast
    qed
  qed
  with assms registerCallback_links [of s remote ok c] show ?thesis
    by (auto simp: cs_inv_def wakelock_cbs_registerCallback)
qed

lemma cs_inv_registerWakelock:
  assumes "cs_inv remote s"
  shows "cs_inv remote (snd (registerWakelockCallback remote ok c n s))"
proof -
  let ?r = "registerWakelockCallback remote ok c n s"
  have "cb_binder i \<in> set (deathLinks (snd ?r))"
    if "i \<in> set (wakelock_cbs (snd ?r) name)" "remote (cb_binder i)" for i name
    using that assms registerWakelock_rest(2) [of s remote ok c n]
      registerWakelock_rest(3) [of remote ok c n s]
    by (auto simp: cs_inv_def wakelock_cbs_registerWakelock split: if_splits)
  moreover have "distinct (map cb_binder (wakelock_cbs (snd ?r) name))" for name
    using assms registerWakelock_success [of remote ok c n s]
    by (auto simp: cs_inv_def wakelock_cbs_registerWakelock)
  ultimately show ?thesis
    using assms registerWakelock_rest(1) [of remote ok c n s]
      registerWakelock_rest(2) [of s remote ok c n] by (auto simp: cs_inv_def)
qed

lemma cs_inv_binderDied: "cs_inv remote s \<Longrightarrow> cs_inv remote (binderDied who s)"
  by (auto simp: cs_inv_def wakelock_cbs_binderDied binderDied_fields distinct_map_filter)

lemma cs_inv_run: "cs_inv remote s \<Longrightarrow> cs_inv remote (cs_run remote ops s)"
proof (induction ops arbitrary: s)
  case Nil
  then show ?case by (simp add: cs_run_def)
next
  case (Cons op ops)
  then have "cs_inv remote (cs_apply remote op s)"
    by (cases op) (simp_all add: cs_inv_registerCallback cs_inv_registerWakelock cs_inv_binderDied)
  with Cons.IH show ?case by (simp add: cs_run_def)
qed

subsection \<open>Histories\<close>

lemma cs_run_snoc: "cs_run remote (ops @ [op]) s = cs_apply remote op (cs_run remote ops s)"
  by (simp add: cs_run_def)

lemma surviving_snoc:
  assumes "\<And>i. i < length ops \<Longrightarrow> registered (ops @ [op]) i = registered ops i"
  shows "surviving registered (ops @ [op]) =
    filter (\<lambda>c. op \<noteq> BinderDied (cb_binder c)) (surviving registered ops) @
    (case registered (ops @ [op]) (length ops) of None \<Rightarrow> [] | Some c \<Rightarrow> [c])"
proof -
  have old: "List.map_filter (\<lambda>i. case registered (ops @ [op]) i of None \<Rightarrow> None
       | Some c \<Rightarrow> if BinderDied (cb_binder c) \<in> set (drop (Suc i) (ops @ [op])) then None else Some c) is =
     filter (\<lambda>c. op \<noteq> BinderDied (cb_binder c)) (List.map_filter (\<lambda>i. case registered ops i of None \<Rightarrow> None
       | Some c \<Rightarrow> if BinderDied (cb_binder c) \<in> set (drop (Suc i) ops) then None else Some c) is)"
    if "\<forall>i \<in> set is. i < length ops" for "is"
    using that
  proof (induction "is")
    case (Cons i "is")
    then show ?case using assms [of i] by (auto simp: map_filter_simps split: option.split)
  qed (simp add: map_filter_simps)
  have "List.map_filter f (xs @ [x]) = List.map_filter f xs @ (case f x of None \<Rightarrow> [] | Some y \<Rightarrow> [y])"
    for f :: "nat \<Rightarrow> callback option" and xs x
    by (induction xs) (auto simp: map_filter_simps split: option.split)
  with old [of "[0..<length ops]"] show ?thesis
    unfolding surviving_def by (auto split: option.split)
qed

lemma registered_wakeup_snoc:
  "i < length ops \<Longrightarrow> registered_wakeup remote (ops @ [op]) i = registered_wakeup remote ops i"
  by (simp add: registered_wakeup_def nth_append split: cs_op.split)

lemma registered_wakelock_snoc:
  "i < length ops \<Longrightarrow> registered_wakelock remote name (ops @ [op]) i = registered_wakelock remote name ops i"
  by (simp add: registered_wakelock_def nth_append split: cs_op.split)

lemma registered_last:
  "registered_wakeup remote (ops @ [op]) (length ops) =
     (case op of RegisterCallback ok c \<Rightarrow>
        if fst (registerCallback remote ok c (cs_run remote ops SuspendControlService_new)) then c else None
      | _ \<Rightarrow> None)"
  "registered_wakelock remote name (ops @ [op]) (length ops) =
     (case op of RegisterWakelockCallback ok c n \<Rightarrow>
        if n = name \<and> fst (registerWakelockCallback remote ok c n (cs_run remote ops SuspendControlService_new))
        then c else None
      | _ \<Rightarrow> None)"
  by (simp_all add: registered_wakeup_def registered_wakelock_def nth_append split: cs_op.split)

lemmas surviving_wakeup_snoc = surviving_snoc [where registered = "registered_wakeup remote" for remote, OF registered_wakeup_snoc]
lemmas surviving_wakelock_snoc = surviving_snoc [where registered = "registered_wakelock remote name" for remote name, OF registered_wakelock_snoc]

lemma registerCallback_not_null: "fst (registerCallback remote ok c s) \<Longrightarrow> \<exists>cb. c = Some cb"
  by (cases c) (auto simp: registerCallback_def)

lemma registerWakelock_not_null: "fst (registerWakelockCallback remote ok c n s) \<Longrightarrow> \<exists>cb. c = Some cb"
  by (cases c) (auto simp: registerWakelockCallback_def)

lemma mCallbacks_history:
  "mCallbacks (cs_run remote ops SuspendControlService_new) = surviving (registered_wakeup remote) ops"
proof (induction ops rule: rev_induct)
  case Nil
  show ?case by (simp add: cs_run_def SuspendControlService_new_def surviving_def map_filter_simps)
next
  case (snoc op ops)
  then show ?case
  proof (cases op)
    case (RegisterCallback ok c)
    then show ?thesis using snoc.IH registerCallback_not_null [of remote ok c]
      by (cases c) (auto simp: cs_run_snoc surviving_wakeup_snoc registered_last registerCallback_callbacks)
  next
    case (BinderDied b)
    then show ?thesis using snoc.IH
      by (simp add: cs_run_snoc surviving_wakeup_snoc registered_last binderDied_fields eq_commute [of b])
  qed (simp add: cs_run_snoc surviving_wakeup_snoc registered_last registerWakelock_rest)
qed

lemma wakelock_cbs_history:
  "wakelock_cbs (cs_run remote ops SuspendControlService_new) name = surviving (registered_wakelock remote name) ops"
proof (induction ops rule: rev_induct)
  case Nil
  show ?case by (simp add: cs_run_def SuspendControlService_new_def wakelock_cbs_def surviving_def map_filter_simps)
next
  case (snoc op ops)
  then show ?case
  proof (cases op)
    case (RegisterWakelockCallback ok c n)
    then show ?thesis using snoc.IH registerWakelock_not_null [of remote ok c n]
      by (cases c) (auto simp: cs_run_snoc surviving_wakelock_snoc registered_last wakelock_cbs_registerWakelock)
  next
    case (BinderDied b)
    then show ?thesis using snoc.IH
      by (simp add: cs_run_snoc surviving_wakelock_snoc registered_last wakelock_cbs_binderDied eq_commute [of b])
  qed (simp add: cs_run_snoc surviving_wakelock_snoc registered_last wakelock_cbs_registerCallback)
qed

text \<open>The service without a client: two states that differ in the callbacks of \<open>who\<close> only stay so as long as it
  registers nothing.\<close>

definition without :: "ibinder \<Rightarrow> SuspendControlService \<Rightarrow> SuspendControlService \<Rightarrow> bool" where
  "without who s t \<longleftrightarrow> mCallbacks t = filter (\<lambda>c. cb_binder c \<noteq> who) (mCallbacks s) \<and>
     (\<forall>name. wakelock_cbs t name = filter (\<lambda>c. cb_binder c \<noteq> who) (wakelock_cbs s name))"

lemma without_binderDied: "without who s (binderDied who s)"
  by (simp add: without_def binderDied_fields wakelock_cbs_binderDied)

lemma registerCallback_success:
  "fst (registerCallback remote ok c s) \<longleftrightarrow>
     (\<exists>cb. c = Some cb \<and> \<not> (remote (cb_binder cb) \<and> \<not> ok \<and> cb_binder cb \<notin> set (map cb_binder (mCallbacks s))))"
  by (auto simp: registerCallback_def Let_def findCb_def find_None_key split: option.split)

lemma without_apply:
  assumes "without who s t" "\<not> registers who op"
  shows "without who (cs_apply remote op s) (cs_apply remote op t)"
proof (cases op)
  case (RegisterCallback ok c)
  with assms have "fst (registerCallback remote ok c t) \<longleftrightarrow> fst (registerCallback remote ok c s)"
    by (auto simp: registerCallback_success without_def)
  with assms RegisterCallback show ?thesis
    by (auto simp: without_def registerCallback_callbacks wakelock_cbs_registerCallback dest!: registerCallback_not_null)
next
  case (RegisterWakelockCallback ok c n)
  with assms have "fst (registerWakelockCallback remote ok c n t) \<longleftrightarrow> fst (registerWakelockCallback remote ok c n s)"
    by (auto simp: registerWakelock_success without_def)
  with assms RegisterWakelockCallback show ?thesis
    by (auto simp: without_def wakelock_cbs_registerWakelock registerWakelock_rest dest!: registerWakelock_not_null)
next
  case (BinderDied b)
  with assms show ?thesis
    by (simp add: without_def binderDied_fields wakelock_cbs_binderDied conj_commute)
qed

lemma without_run:
  assumes "without who s t" "\<forall>op \<in> set ops. \<not> registers who op"
  shows "without who (cs_run remote ops s) (cs_run remote ops t)"
  using assms
  by (induction ops rule: rev_induct) (auto simp: cs_run_snoc without_apply, simp add: cs_run_def)

subsection \<open>Properties\<close>

text \<open>C24. Whatever clients do, in whatever order, every registered callback of a remote process, for
  wakeups or for a wake lock, is linked to the death of that process, and no wake lock has two callbacks with
  the same binder.\<close>

theorem callbacks_linked_to_death:
  fixes remote ops
  defines "s \<equiv> cs_run remote ops SuspendControlService_new"
  shows "(\<forall>c \<in> set (mCallbacks s). remote (cb_binder c) \<longrightarrow> cb_binder c \<in> set (deathLinks s)) \<and>
    (\<forall>c \<in> set (wakelock_cbs s name). remote (cb_binder c) \<longrightarrow> cb_binder c \<in> set (deathLinks s)) \<and>
    distinct (map cb_binder (wakelock_cbs s name))"
  unfolding s_def using cs_inv_run [OF cs_inv_new, of remote ops] by (simp add: cs_inv_def)

text \<open>A client registers for wakeups twice, and twice for a wake lock, of which the second time is refused; a local
  callback is registered without a link.\<close>

definition sample_calls :: "cs_op list" where
  "sample_calls =
     [RegisterCallback True (Some \<lparr>cb_object = 5, cb_binder = 4\<rparr>),
      RegisterCallback False (Some \<lparr>cb_object = 5, cb_binder = 4\<rparr>),
      RegisterWakelockCallback True (Some \<lparr>cb_object = 6, cb_binder = 4\<rparr>) ''a'',
      RegisterWakelockCallback True (Some \<lparr>cb_object = 6, cb_binder = 4\<rparr>) ''a'',
      RegisterWakelockCallback False (Some \<lparr>cb_object = 7, cb_binder = 2\<rparr>) ''a'']"

lemma sample_calls_state:
  "cs_run (\<lambda>b. b = 4) sample_calls SuspendControlService_new =
     \<lparr>mCallbacks = [\<lparr>cb_object = 5, cb_binder = 4\<rparr>, \<lparr>cb_object = 5, cb_binder = 4\<rparr>],
      mWakelockCallbacks = [''a'' \<mapsto> [\<lparr>cb_object = 6, cb_binder = 4\<rparr>, \<lparr>cb_object = 7, cb_binder = 2\<rparr>]],
      deathLinks = [4, 4]\<rparr>"
  by (simp add: sample_calls_def cs_run_def registerCallback_def registerWakelockCallback_def findCb_def
      SuspendControlService_new_def)

theorem callbacks_linked_to_death_witness:
  "(4 :: nat) \<in> set (deathLinks (cs_run (\<lambda>b. b = 4) sample_calls SuspendControlService_new)) \<and>
   distinct (map cb_binder (wakelock_cbs (cs_run (\<lambda>b. b = 4) sample_calls SuspendControlService_new) ''a''))"
  using callbacks_linked_to_death [of "\<lambda>b. b = 4" sample_calls "''a''"]
  by (simp add: sample_calls_state)

text \<open>C25. After any history of calls and deaths, a wakeup notification calls exactly the callbacks whose
  registration returned success and whose process has not died since, one call for each such registration, in
  the order of registration and with the outcome and the reasons; a wake lock notification does the same for the
  registrations under its name. What the called clients do meanwhile changes nothing of it.\<close>

theorem notify_calls_live_clients:
  fixes remote ops
  defines "s \<equiv> cs_run remote ops SuspendControlService_new"
  shows "fst (notifyWakeup react success reasons s) =
      map (\<lambda>c. (c, success, reasons)) (surviving (registered_wakeup remote) ops) \<and>
    fst (notifyWakelock react' name isAcquired s) =
      map (\<lambda>c. (c, if isAcquired then notifyAcquired else notifyReleased))
        (surviving (registered_wakelock remote name) ops)"
  unfolding s_def by (simp add: fst_notifyWakeup fst_notifyWakelock mCallbacks_history wakelock_cbs_history)

text \<open>C26. A notification started after the death of a client was reported does not call it, whatever
  calls and deaths came in between, unless the client registered a callback again; all other clients are called
  as if the death had not been reported, in the same order. (A notification that was already running on its copy
  of the list may still call the dead client.)\<close>

theorem dead_client_not_called:
  assumes "\<forall>op \<in> set ops. \<not> registers who op"
  shows "fst (notifyWakeup react success reasons (cs_run remote (BinderDied who # ops) s)) =
      filter (\<lambda>(c, _). cb_binder c \<noteq> who) (fst (notifyWakeup react success reasons (cs_run remote ops s))) \<and>
    fst (notifyWakelock react' name isAcquired (cs_run remote (BinderDied who # ops) s)) =
      filter (\<lambda>(c, _). cb_binder c \<noteq> who) (fst (notifyWakelock react' name isAcquired (cs_run remote ops s)))"
proof -
  have "without who (cs_run remote ops s) (cs_run remote (BinderDied who # ops) s)"
    using without_run [OF without_binderDied assms] by (simp add: cs_run_def)
  then show ?thesis
    by (simp add: fst_notifyWakelock fst_notifyWakeup without_def filter_map o_def)
qed

theorem dead_client_not_called_witness:
  "fst (notifyWakelock (\<lambda>_ s. s) ''a'' True (cs_run (\<lambda>b. b = 4)
      [BinderDied 4, RegisterWakelockCallback True (Some \<lparr>cb_object = 8, cb_binder = 3\<rparr>) ''a'']
      (cs_run (\<lambda>b. b = 4) sample_calls SuspendControlService_new))) =
    [(\<lparr>cb_object = 7, cb_binder = 2\<rparr>, notifyAcquired), (\<lparr>cb_object = 8, cb_binder = 3\<rparr>, notifyAcquired)]"
proof -
  let ?ops = "[RegisterWakelockCallback True (Some \<lparr>cb_object = 8, cb_binder = 3\<rparr>) ''a'']"
  have "\<forall>op \<in> set ?ops. \<not> registers 4 op" by simp
  from dead_client_not_called [OF this, of "\<lambda>_ s. s" True "[]" "\<lambda>b. b = 4" _ "\<lambda>_ s. s" "''a''" True] show ?thesis
    by (simp add: sample_calls_state) (simp add: cs_run_def registerWakelockCallback_def notifyWakelock_def call_all_fold)
qed

text \<open>C27. Registering reports success exactly if the callback is not null, could be linked to
  death where that is needed and, for a wake lock, the name is not empty and the same callback is
  not registered for it yet. On success it is appended to the callbacks to notify; on failure
  every later notification is as if the call had not been made.\<close>

theorem registration_result:
  "(fst (registerWakelockCallback remote linkOk c name s) \<longleftrightarrow>
      (\<exists>cb. c = Some cb \<and> name \<noteq> [] \<and> cb_binder cb \<notin> set (map cb_binder (wakelock_cbs s name)) \<and>
        \<not> (remote (cb_binder cb) \<and> \<not> linkOk))) \<and>
   wakelock_cbs (snd (registerWakelockCallback remote linkOk c name s)) n =
      (if fst (registerWakelockCallback remote linkOk c name s) \<and> n = name
       then wakelock_cbs s n @ [the c] else wakelock_cbs s n) \<and>
   (fst (registerCallback remote linkOk c s) \<longleftrightarrow>
      (\<exists>cb. c = Some cb \<and> \<not> (remote (cb_binder cb) \<and> \<not> linkOk \<and>
         cb_binder cb \<notin> set (map cb_binder (mCallbacks s))))) \<and>
   mCallbacks (snd (registerCallback remote linkOk c s)) =
      (if fst (registerCallback remote linkOk c s) then mCallbacks s @ [the c] else mCallbacks s)"
  by (auto simp: registerWakelock_success wakelock_cbs_registerWakelock registerCallback_callbacks
      registerCallback_success)

end
