(* ===== verification/SystemSuspend.thy ===== *)
theory SystemSuspend
  imports SysfsReaders WakeupList WakeLockEntryList SuspendControl
begin

text \<open>
  The class \<open>SystemSuspend\<close> of \<open>suspend/1.0/default/SystemSuspend.cpp\<close>: the suspend counter that
  wake locks hold up, enabling and disabling autosuspend, forced suspend, and the autosuspend thread.

  Every operation runs with \<open>mAutosuspendLock\<close> held (and, where tokens are touched,
  \<open>mAutosuspendClientTokensLock\<close>, always taken first), so an operation is one step of the system. The
  thread is cut into steps at the points where it gives up \<open>mAutosuspendLock\<close>: its program counter
  \<open>autosuspend_pc\<close> carries the local variables that are live there. Where it waits on
  \<open>mAutosuspendCondVar\<close> the program counter has a flag that records a notification; a wait may also
  end spuriously, and \<open>wait_for\<close> by timeout. The waiting threads are a list, so that there is only one
  is something to be proved.

  What the kernel answers is an argument of the step: the outcome of a write, the content of a file
  that is read. Writes are kept, oldest first, in \<open>kernel_log\<close>, calls of clients in
  \<open>wakeup_calls\<close> and \<open>wakelock_calls\<close>; \<open>last_count_read\<close> is what the thread last read from
  \<open>/sys/power/wakeup_count\<close>. These four only record what happened: no operation looks at them.
  Functions of libraries outside the sources are the fields of \<open>libs\<close>: \<open>Trim\<close>, \<open>Join\<close>, and
  \<open>strtod\<close> on other than decimal notation.
\<close>

record libs =
  lib_trim :: "string \<Rightarrow> string"
  lib_join :: "string list \<Rightarrow> string \<Rightarrow> string"
  lib_strtod_other :: "string \<Rightarrow> rat option"

datatype autosuspend_pc =
    Starting
  | Sleeping bool
  | ReadingCount bool
  | CountRead bool string
  | WaitingCounter string bool
  | LockingTokens string
  | Attempted bool
  | TimeUpdated bool
  | ReasonsRead bool "string list"
  | Notified

datatype kernel_file = wake_lock | wake_unlock | wakeup_count | power_state

record SystemSuspend =
  mSuspendCounter :: u32
  mAutosuspendClientTokens :: "ibinder list"
  mAutosuspendEnabled :: bool
  mAutosuspendThreadCreated :: bool
  kSleepTimeConfig :: SleepTimeConfig
  mSleep :: sleep_state
  mControlService :: SuspendControlService
  mStatsList :: WakeLockEntryList
  mWakeupList :: WakeupList
  mUseSuspendCounter :: bool
  mWakeLockFd :: int
  mWakeUnlockFd :: int
  mWakeupReasonsFd :: int
  threads :: "autosuspend_pc list"
  kernel_log :: "(kernel_file \<times> string \<times> bool) list"
  wakeup_calls :: "(callback \<times> bool \<times> string list) list"
  wakelock_calls :: "(callback \<times> wl_event) list"
  last_count_read :: string

definition kSleepState :: string where
  "kSleepState = ''mem''"

definition kZygoteKernelWakelock :: string where
  "kZygoteKernelWakelock = ''zygote_kwl''"

text \<open>\<open>open path\<close> is the descriptor that opening a path gives, negative on failure.\<close>

definition SystemSuspend_new ::
  "nat \<Rightarrow> SleepTimeConfig \<Rightarrow> SuspendControlService \<Rightarrow> bool \<Rightarrow> int \<Rightarrow> (string \<Rightarrow> int) \<Rightarrow> SystemSuspend" where
  "SystemSuspend_new maxStatsEntries sleepTimeConfig controlService useSuspendCounter wakeupReasonsFd open_file =
     \<lparr>mSuspendCounter = 0, mAutosuspendClientTokens = [], mAutosuspendEnabled = False,
      mAutosuspendThreadCreated = False, kSleepTimeConfig = sleepTimeConfig,
      mSleep = sleep_state_new sleepTimeConfig, mControlService = controlService,
      mStatsList = WakeLockEntryList_new maxStatsEntries,
      mWakeupList = WakeupList_new maxStatsEntries, mUseSuspendCounter = useSuspendCounter,
      mWakeLockFd = (if \<not> useSuspendCounter then open_file ''/sys/power/wake_lock'' else -1),
      mWakeUnlockFd = open_file ''/sys/power/wake_unlock'', mWakeupReasonsFd = wakeupReasonsFd,
      threads = [], kernel_log = [], wakeup_calls = [], wakelock_calls = [],
      last_count_read = []\<rparr>"

text \<open>\<open>WriteStringToFd\<close> with the answer of the kernel.\<close>

definition write_file :: "kernel_file \<Rightarrow> string \<Rightarrow> bool \<Rightarrow> SystemSuspend \<Rightarrow> SystemSuspend" where
  "write_file f data ok s = s\<lparr>kernel_log := kernel_log s @ [(f, data, ok)]\<rparr>"

text \<open>\<open>mAutosuspendCondVar\<close>: a notification reaches all waiting threads, or one of them.\<close>

fun waiting :: "autosuspend_pc \<Rightarrow> bool" where
  "waiting (Sleeping _) = True"
| "waiting (WaitingCounter _ _) = True"
| "waiting _ = False"

fun signal :: "autosuspend_pc \<Rightarrow> autosuspend_pc" where
  "signal (Sleeping _) = Sleeping True"
| "signal (WaitingCounter w _) = WaitingCounter w True"
| "signal pc = pc"

definition notify_all :: "SystemSuspend \<Rightarrow> SystemSuspend" where
  "notify_all s = s\<lparr>threads := map signal (threads s)\<rparr>"

definition notify_one :: "nat \<Rightarrow> SystemSuspend \<Rightarrow> SystemSuspend" where
  "notify_one pick s =
     (let ws = filter (\<lambda>i. waiting (threads s ! i)) [0..<length (threads s)]
      in if ws = [] then s
         else let i = ws ! (pick mod length ws)
              in s\<lparr>threads := (threads s)[i := signal (threads s ! i)]\<rparr>)"

subsection \<open>Operations\<close>

definition initAutosuspendLocked :: "SystemSuspend \<Rightarrow> SystemSuspend" where
  "initAutosuspendLocked s =
     (if mAutosuspendThreadCreated s then s
      else s\<lparr>threads := threads s @ [Starting], mAutosuspendThreadCreated := True\<rparr>)"

definition enableAutosuspend :: "bool \<Rightarrow> ibinder \<Rightarrow> SystemSuspend \<Rightarrow> bool \<times> SystemSuspend" where
  "enableAutosuspend unlockOk token s =
     (let s1 = write_file wake_unlock kZygoteKernelWakelock unlockOk s;
          hasToken = (find (\<lambda>t. t = token) (mAutosuspendClientTokens s1) \<noteq> None);
          s2 = (if \<not> hasToken
                then s1\<lparr>mAutosuspendClientTokens := mAutosuspendClientTokens s1 @ [token]\<rparr> else s1)
      in if mAutosuspendEnabled s2 then (False, s2)
         else (True, initAutosuspendLocked (s2\<lparr>mAutosuspendEnabled := True\<rparr>)))"

definition disableAutosuspendLocked :: "SystemSuspend \<Rightarrow> SystemSuspend" where
  "disableAutosuspendLocked s =
     (let s1 = s\<lparr>mAutosuspendClientTokens := []\<rparr>
      in if mAutosuspendEnabled s1 then notify_all (s1\<lparr>mAutosuspendEnabled := False\<rparr>) else s1)"

definition disableAutosuspend :: "SystemSuspend \<Rightarrow> SystemSuspend" where
  "disableAutosuspend s = disableAutosuspendLocked s"

text \<open>\<open>alive\<close> is the answer of \<open>pingBinder\<close>; the call of this function is commented out.\<close>

definition checkAutosuspendClientsLivenessLocked ::
  "(ibinder \<Rightarrow> bool) \<Rightarrow> SystemSuspend \<Rightarrow> SystemSuspend" where
  "checkAutosuspendClientsLivenessLocked alive s =
     s\<lparr>mAutosuspendClientTokens := filter alive (mAutosuspendClientTokens s)\<rparr>"

definition hasAliveAutosuspendTokenLocked :: "SystemSuspend \<Rightarrow> bool" where
  "hasAliveAutosuspendTokenLocked s \<longleftrightarrow> mAutosuspendClientTokens s \<noteq> []"

text \<open>The destructor signals the thread, then waits until it is gone or 100 ms have passed.\<close>

definition SystemSuspend_destroy :: "SystemSuspend \<Rightarrow> SystemSuspend" where
  "SystemSuspend_destroy s = disableAutosuspendLocked s"

definition destroy_returns :: "bool \<Rightarrow> SystemSuspend \<Rightarrow> bool" where
  "destroy_returns timedOut s \<longleftrightarrow> \<not> mAutosuspendThreadCreated s \<or> timedOut"

definition forceSuspend :: "bool \<Rightarrow> SystemSuspend \<Rightarrow> bool \<times> SystemSuspend" where
  "forceSuspend ok s = (ok, write_file power_state kSleepState ok s)"

definition incSuspendCounter :: "bool \<Rightarrow> string \<Rightarrow> SystemSuspend \<Rightarrow> SystemSuspend" where
  "incSuspendCounter ok name s =
     (if mUseSuspendCounter s then s\<lparr>mSuspendCounter := mSuspendCounter s + 1\<rparr>
      else write_file wake_lock name ok s)"

definition decSuspendCounter :: "bool \<Rightarrow> nat \<Rightarrow> string \<Rightarrow> SystemSuspend \<Rightarrow> SystemSuspend" where
  "decSuspendCounter ok pick name s =
     (if mUseSuspendCounter s then
        let s1 = s\<lparr>mSuspendCounter := mSuspendCounter s - 1\<rparr>
        in if mSuspendCounter s1 = 0 then notify_one pick s1 else s1
      else write_file wake_unlock name ok s)"

definition reopenFileUsingFd :: "(string \<Rightarrow> int) \<Rightarrow> int \<Rightarrow> int" where
  "reopenFileUsingFd open_file fd =
     (let filePath = ''/proc/self/fd/'' @ dec_int fd; tempFd = open_file filePath
      in if tempFd < 0 then -1 else tempFd)"

text \<open>The wake lock statistics, with the callbacks to call.\<close>

definition updateWakeLockStatOnAcquire ::
  "timespec \<Rightarrow> string \<Rightarrow> i32 \<Rightarrow> SystemSuspend \<Rightarrow> SystemSuspend option" where
  "updateWakeLockStatOnAcquire monotime name pid s = do {
     l \<leftarrow> updateOnAcquire monotime name pid (mStatsList s);
     let (calls, c) = notifyWakelock (\<lambda>_ c. c) name True (mControlService s);
     Some (s\<lparr>mStatsList := l, mControlService := c, wakelock_calls := wakelock_calls s @ calls\<rparr>)
   }"

definition updateWakeLockStatOnRelease ::
  "timespec \<Rightarrow> string \<Rightarrow> i32 \<Rightarrow> SystemSuspend \<Rightarrow> SystemSuspend option" where
  "updateWakeLockStatOnRelease monotime name pid s = do {
     l \<leftarrow> updateOnRelease monotime name pid (mStatsList s);
     let (calls, c) = notifyWakelock (\<lambda>_ c. c) name False (mControlService s);
     Some (s\<lparr>mStatsList := l, mControlService := c, wakelock_calls := wakelock_calls s @ calls\<rparr>)
   }"

definition updateStatsNow :: "timespec \<Rightarrow> SystemSuspend \<Rightarrow> SystemSuspend" where
  "updateStatsNow monotime s = s\<lparr>mStatsList := updateNow monotime (mStatsList s)\<rparr>"

definition getSuspendInfo :: "SystemSuspend \<Rightarrow> SuspendInfo" where
  "getSuspendInfo s = mSuspendInfo (mSleep s)"

definition getSleepTime :: "SystemSuspend \<Rightarrow> int" where
  "getSleepTime s = mSleepTime (mSleep s)"

subsection \<open>The autosuspend thread\<close>

text \<open>
  The parts of the loop in \<open>initAutosuspendLocked\<close>. Each takes the state with
  \<open>mAutosuspendLock\<close> held and returns where the thread next gives the lock up, \<^term>\<open>None\<close> when it
  returns. \<open>loop_top\<close> is the head of the loop up to the first wait or unlock; \<open>shouldSleep\<close> is the
  local variable.
\<close>

type_synonym thread_result = "autosuspend_pc option \<times> SystemSuspend"

definition loop_top :: "bool \<Rightarrow> SystemSuspend \<Rightarrow> thread_result" where
  "loop_top shouldSleep s =
     (if \<not> mAutosuspendEnabled s then (None, s\<lparr>mAutosuspendThreadCreated := False\<rparr>)
      else if shouldSleep then (Some (Sleeping False), s)
      else (Some (ReadingCount shouldSleep), s))"

text \<open>\<open>wait_for\<close> wakes up: it returns if autosuspend was disabled or the time is over.\<close>

definition sleep_wakes :: "bool \<Rightarrow> SystemSuspend \<Rightarrow> thread_result" where
  "sleep_wakes timedOut s =
     (if \<not> mAutosuspendEnabled s then loop_top True s
      else if timedOut then (Some (ReadingCount True), s)
      else (Some (Sleeping False), s))"

text \<open>The predicate of the wait for the counter is evaluated, at first or after a wake-up.\<close>

definition counter_wait :: "string \<Rightarrow> SystemSuspend \<Rightarrow> thread_result" where
  "counter_wait wcount s =
     (if mSuspendCounter s = 0 \<or> \<not> mAutosuspendEnabled s
      then if \<not> mAutosuspendEnabled s then loop_top False s else (Some (LockingTokens wcount), s)
      else (Some (WaitingCounter wcount False), s))"

definition count_read :: "bool \<Rightarrow> string \<Rightarrow> SystemSuspend \<Rightarrow> thread_result" where
  "count_read shouldSleep wcount s =
     (if wcount = [] then loop_top shouldSleep s else counter_wait wcount s)"

text \<open>The suspend attempt, with both locks held.\<close>

definition suspend_attempt :: "string \<Rightarrow> bool \<Rightarrow> bool \<Rightarrow> SystemSuspend \<Rightarrow> thread_result" where
  "suspend_attempt wcount countOk stateOk s =
     (if \<not> hasAliveAutosuspendTokenLocked s then loop_top False (disableAutosuspendLocked s)
      else if mSuspendCounter s > 0 then loop_top False s
      else
        let s1 = write_file wakeup_count wcount countOk s
        in if \<not> countOk then loop_top False s1
           else (Some (Attempted stateOk), write_file power_state kSleepState stateOk s1))"

definition record_suspend_time :: "libs \<Rightarrow> bool \<Rightarrow> string option \<Rightarrow> SystemSuspend \<Rightarrow> thread_result" where
  "record_suspend_time lib success content s =
     (let st = readSuspendTime (lib_strtod_other lib) content
      in (Some (TimeUpdated success),
          s\<lparr>mSleep := updateSleepTime (kSleepTimeConfig s) success st (mSleep s)\<rparr>))"

definition record_reasons ::
  "libs \<Rightarrow> bool \<Rightarrow> string option \<Rightarrow> (string \<Rightarrow> int) \<Rightarrow> SystemSuspend \<Rightarrow> thread_result option" where
  "record_reasons lib success content open_file s =
     (let wakeupReasons = readWakeupReasons (lib_trim lib) content;
          s1 = (if wakeupReasons = [kErrorWakeup]
                then s\<lparr>mWakeupReasonsFd := reopenFileUsingFd open_file (mWakeupReasonsFd s)\<rparr> else s)
      in do {
        l \<leftarrow> wu_update (lib_join lib) wakeupReasons (mWakeupList s1);
        Some (Some (ReasonsRead success wakeupReasons), s1\<lparr>mWakeupList := l\<rparr>)
      })"

definition call_wakeup_callbacks :: "bool \<Rightarrow> string list \<Rightarrow> SystemSuspend \<Rightarrow> thread_result" where
  "call_wakeup_callbacks success wakeupReasons s =
     (case notifyWakeup (\<lambda>_ c. c) success wakeupReasons (mControlService s) of (calls, c) \<Rightarrow>
        (Some Notified, s\<lparr>mControlService := c, wakeup_calls := wakeup_calls s @ calls\<rparr>))"

text \<open>What happens to the thread next: it gets the lock, a wait ends, the kernel answers.\<close>

datatype thread_event =
    GetLock
  | WaitEnds bool
  | CountIs string
  | Attempt bool bool
  | TimeIs "string option"
  | ReasonsAre "string option" "string \<Rightarrow> int"
  | CallsMade

fun thread_step :: "libs \<Rightarrow> thread_event \<Rightarrow> autosuspend_pc \<Rightarrow> SystemSuspend \<Rightarrow> thread_result outcome" where
  "thread_step lib ev Starting s = (case ev of GetLock \<Rightarrow> Done (loop_top True s) | _ \<Rightarrow> NotEnabled)"
| "thread_step lib ev (Sleeping _) s =
     (case ev of WaitEnds timedOut \<Rightarrow> Done (sleep_wakes timedOut s) | _ \<Rightarrow> NotEnabled)"
| "thread_step lib ev (ReadingCount sh) s =
     (case ev of CountIs wcount \<Rightarrow> Done (Some (CountRead sh wcount), s\<lparr>last_count_read := wcount\<rparr>)
      | _ \<Rightarrow> NotEnabled)"
| "thread_step lib ev (CountRead sh wcount) s =
     (case ev of GetLock \<Rightarrow> Done (count_read sh wcount s) | _ \<Rightarrow> NotEnabled)"
| "thread_step lib ev (WaitingCounter wcount _) s =
     (case ev of WaitEnds timedOut \<Rightarrow> (if timedOut then NotEnabled else Done (counter_wait wcount s))
      | _ \<Rightarrow> NotEnabled)"
| "thread_step lib ev (LockingTokens wcount) s =
     (case ev of Attempt countOk stateOk \<Rightarrow> Done (suspend_attempt wcount countOk stateOk s)
      | _ \<Rightarrow> NotEnabled)"
| "thread_step lib ev (Attempted success) s =
     (case ev of TimeIs content \<Rightarrow> Done (record_suspend_time lib success content s) | _ \<Rightarrow> NotEnabled)"
| "thread_step lib ev (TimeUpdated success) s =
     (case ev of ReasonsAre content open_file \<Rightarrow>
        (case record_reasons lib success content open_file s of None \<Rightarrow> Undefined | Some r \<Rightarrow> Done r)
      | _ \<Rightarrow> NotEnabled)"
| "thread_step lib ev (ReasonsRead success reasons) s =
     (case ev of CallsMade \<Rightarrow> Done (call_wakeup_callbacks success reasons s) | _ \<Rightarrow> NotEnabled)"
| "thread_step lib ev Notified s = (case ev of GetLock \<Rightarrow> Done (loop_top True s) | _ \<Rightarrow> NotEnabled)"

text \<open>A step of the \<open>i\<close>th thread in the system.\<close>

definition run_thread :: "libs \<Rightarrow> nat \<Rightarrow> thread_event \<Rightarrow> SystemSuspend \<Rightarrow> SystemSuspend outcome" where
  "run_thread lib i ev s =
     (if length (threads s) \<le> i then NotEnabled
      else case thread_step lib ev (threads s ! i) s of
        NotEnabled \<Rightarrow> NotEnabled
      | Undefined \<Rightarrow> Undefined
      | Done (pc, s') \<Rightarrow>
          Done (case pc of
                  None \<Rightarrow> s'\<lparr>threads := take i (threads s') @ drop (Suc i) (threads s')\<rparr>
                | Some p \<Rightarrow> s'\<lparr>threads := (threads s')[i := p]\<rparr>))"

subsection \<open>The invariant\<close>

text \<open>
  There is one thread or none, as \<open>mAutosuspendThreadCreated\<close> says; autosuspend is enabled exactly
  while there are client tokens, and then the thread runs; the two statistics lists are well-formed.
\<close>

definition ss_inv :: "SystemSuspend \<Rightarrow> bool" where
  "ss_inv s \<longleftrightarrow>
     length (threads s) = (if mAutosuspendThreadCreated s then 1 else 0) \<and>
     (mAutosuspendEnabled s \<longrightarrow> mAutosuspendThreadCreated s) \<and>
     (mAutosuspendEnabled s \<longleftrightarrow> mAutosuspendClientTokens s \<noteq> []) \<and>
     distinct (mAutosuspendClientTokens s) \<and>
     wl_inv (mStatsList s) \<and> wu_inv (mWakeupList s)"

text \<open>
  A thread that waits without a notification waits for something that has not happened yet; \<open>n\<close> is
  the number of wake locks that count.
\<close>

fun wait_justified :: "nat \<Rightarrow> bool \<Rightarrow> autosuspend_pc \<Rightarrow> bool" where
  "wait_justified n enabled (Sleeping notified) = (notified \<or> enabled)"
| "wait_justified n enabled (WaitingCounter _ notified) = (notified \<or> enabled \<and> 0 < n)"
| "wait_justified n enabled _ = True"

definition waits_ok :: "nat \<Rightarrow> SystemSuspend \<Rightarrow> bool" where
  "waits_ok n s \<longleftrightarrow>
     list_all (wait_justified (if mUseSuspendCounter s then n else 0) (mAutosuspendEnabled s)) (threads s)"

text \<open>The counter is the number of wake locks, modulo its width; it stays zero if it is not used.\<close>

definition counter_ok :: "nat \<Rightarrow> SystemSuspend \<Rightarrow> bool" where
  "counter_ok n s \<longleftrightarrow> mSuspendCounter s = (if mUseSuspendCounter s then of_nat n else 0)"

text \<open>What no operation on threads and tokens touches.\<close>

definition same_counter :: "SystemSuspend \<Rightarrow> SystemSuspend \<Rightarrow> bool" where
  "same_counter s t \<longleftrightarrow> mSuspendCounter t = mSuspendCounter s \<and> mUseSuspendCounter t = mUseSuspendCounter s"

lemmas ss_ops [field_defs] = write_file_def notify_all_def disableAutosuspendLocked_def disableAutosuspend_def
  initAutosuspendLocked_def enableAutosuspend_def forceSuspend_def updateStatsNow_def
  hasAliveAutosuspendTokenLocked_def

lemmas thread_ops = loop_top_def sleep_wakes_def counter_wait_def count_read_def suspend_attempt_def
  record_suspend_time_def call_wakeup_callbacks_def

lemma counter_ok_same: "same_counter s t \<Longrightarrow> counter_ok n s \<Longrightarrow> counter_ok n t"
  by (simp add: same_counter_def counter_ok_def)

lemma counter_ok_zero: "counter_ok n s \<Longrightarrow> mSuspendCounter s \<noteq> 0 \<Longrightarrow> mUseSuspendCounter s \<and> 0 < n"
  by (cases n) (auto simp: counter_ok_def split: if_splits)

lemma wait_justified_signal: "wait_justified n b (signal pc)"
  by (cases pc) auto

lemma wait_justified_mono: "wait_justified n b pc \<Longrightarrow> n \<le> m \<Longrightarrow> (b \<Longrightarrow> c) \<Longrightarrow> wait_justified m c pc"
  by (cases pc) auto

lemma wait_justified_not_waiting: "\<not> waiting pc \<Longrightarrow> wait_justified n b pc"
  by (cases pc) auto

lemma ss_inv_threads:
  "ss_inv s \<Longrightarrow> threads s = [] \<and> \<not> mAutosuspendThreadCreated s \<or>
     (\<exists>p. threads s = [p] \<and> mAutosuspendThreadCreated s)"
  by (cases "threads s") (auto simp: ss_inv_def split: if_splits)

lemma enableAutosuspend_inv:
  assumes "ss_inv s" "waits_ok n s"
  shows "ss_inv (snd (enableAutosuspend ok token s))" "waits_ok n (snd (enableAutosuspend ok token s))"
    "same_counter s (snd (enableAutosuspend ok token s))"
  using assms ss_inv_threads [OF assms(1)]
  by (auto simp: ss_inv_def waits_ok_def same_counter_def field_defs Let_def find_None_iff
      intro: wait_justified_mono)

lemma disableAutosuspend_inv:
  assumes "ss_inv s" "waits_ok n s"
  shows "ss_inv (disableAutosuspend s)" "waits_ok n (disableAutosuspend s)"
    "same_counter s (disableAutosuspend s)"
  using assms
  by (auto simp: ss_inv_def waits_ok_def same_counter_def field_defs Let_def list_all_iff
      wait_justified_signal)

lemma write_file_inv:
  "ss_inv (write_file f d ok s) = ss_inv s" "waits_ok n (write_file f d ok s) = waits_ok n s"
  "counter_ok n (write_file f d ok s) = counter_ok n s"
  by (simp_all add: ss_inv_def waits_ok_def counter_ok_def write_file_def)

lemma notify_one_single:
  assumes "threads s = [p]"
  shows "notify_one pick s = s\<lparr>threads := [if waiting p then signal p else p]\<rparr>"
proof (cases "waiting p")
  case True
  then have "filter (\<lambda>i. waiting ([p] ! i)) [0..<length [p]] = [0]" by simp
  with assms True show ?thesis by (simp add: notify_one_def)
next
  case False
  with assms show ?thesis by (simp add: notify_one_def)
qed

lemma notify_one_none: "threads s = [] \<Longrightarrow> notify_one pick s = s"
  by (simp add: notify_one_def)

lemma incSuspendCounter_inv:
  assumes "ss_inv s" "waits_ok n s" "counter_ok n s"
  shows "ss_inv (incSuspendCounter ok name s)" "waits_ok (Suc n) (incSuspendCounter ok name s)"
    "counter_ok (Suc n) (incSuspendCounter ok name s)"
  using assms
  by (auto simp: incSuspendCounter_def ss_inv_def waits_ok_def counter_ok_def write_file_def list_all_iff
      algebra_simps intro: wait_justified_mono)

text \<open>The last release wakes the thread that waits for the counter.\<close>

lemma decSuspendCounter_inv:
  assumes "ss_inv s" "waits_ok (Suc n) s" "counter_ok (Suc n) s"
  shows "ss_inv (decSuspendCounter ok pick name s)" "waits_ok n (decSuspendCounter ok pick name s)"
    "counter_ok n (decSuspendCounter ok pick name s)"
proof -
  have w: "wait_justified n b p" if "wait_justified (Suc n) b p" "\<not> waiting p \<or> 0 < n" for b p
    using that by (cases p) auto
  consider "threads s = []" | p where "threads s = [p]" using ss_inv_threads [OF assms(1)] by blast
  then have "ss_inv (decSuspendCounter ok pick name s) \<and> waits_ok n (decSuspendCounter ok pick name s) \<and>
    counter_ok n (decSuspendCounter ok pick name s)"
  proof cases
    case 1
    with assms show ?thesis
      by (auto simp: decSuspendCounter_def ss_inv_def waits_ok_def counter_ok_def write_file_def
          notify_one_none Let_def)
  next
    case (2 p)
    show ?thesis
    proof (cases "mUseSuspendCounter s")
      case False
      with assms 2 show ?thesis
        by (simp add: decSuspendCounter_def ss_inv_def waits_ok_def counter_ok_def write_file_def)
    next
      case True
      then have c: "mSuspendCounter s - 1 = of_nat n" using assms(3) by (simp add: counter_ok_def)
      from True assms(2) 2 have "wait_justified (Suc n) (mAutosuspendEnabled s) p" by (simp add: waits_ok_def)
      note p = w [OF this]
      show ?thesis
      proof (cases "(of_nat n :: u32) = 0")
        case zero: True
        with assms(1) 2 True c show ?thesis
          by (simp add: decSuspendCounter_def ss_inv_def waits_ok_def counter_ok_def
              notify_one_single wait_justified_signal wait_justified_not_waiting)
      next
        case False
        then have "0 < n" by (cases n) auto
        with assms(1) 2 True False c p show ?thesis
          by (simp add: decSuspendCounter_def ss_inv_def waits_ok_def counter_ok_def)
      qed
    qed
  qed
  then show "ss_inv (decSuspendCounter ok pick name s)" "waits_ok n (decSuspendCounter ok pick name s)"
    "counter_ok n (decSuspendCounter ok pick name s)" by blast+
qed

text \<open>
  A result of a thread part keeps the invariant when it is put in the place of the thread. The parts
  are checked one by one, the thread being the only one.
\<close>

definition result_ok :: "nat \<Rightarrow> SystemSuspend \<Rightarrow> thread_result \<Rightarrow> bool" where
  "result_ok n s r =
     (case r of (pc, s') \<Rightarrow>
        let t = s'\<lparr>threads := (case pc of None \<Rightarrow> [] | Some p \<Rightarrow> [p])\<rparr>
        in ss_inv t \<and> waits_ok n t \<and> same_counter s t)"

lemma result_ok_iff:
  "result_ok n s (None, s') \<longleftrightarrow>
     \<not> mAutosuspendThreadCreated s' \<and> \<not> mAutosuspendEnabled s' \<and> mAutosuspendClientTokens s' = [] \<and>
     wl_inv (mStatsList s') \<and> wu_inv (mWakeupList s') \<and> same_counter s s'"
  "result_ok n s (Some p, s') \<longleftrightarrow>
     mAutosuspendThreadCreated s' \<and> (mAutosuspendEnabled s' \<longleftrightarrow> mAutosuspendClientTokens s' \<noteq> []) \<and>
     distinct (mAutosuspendClientTokens s') \<and> wl_inv (mStatsList s') \<and> wu_inv (mWakeupList s') \<and>
     wait_justified (if mUseSuspendCounter s' then n else 0) (mAutosuspendEnabled s') p \<and> same_counter s s'"
  by (auto simp: result_ok_def ss_inv_def waits_ok_def same_counter_def)

lemma ss_inv_one:
  assumes "ss_inv s" "threads s = [p]"
  shows "mAutosuspendThreadCreated s" "mAutosuspendEnabled s \<longleftrightarrow> mAutosuspendClientTokens s \<noteq> []"
    "distinct (mAutosuspendClientTokens s)" "wl_inv (mStatsList s)" "wu_inv (mWakeupList s)"
  using assms ss_inv_threads [OF assms(1)] by (simp_all add: ss_inv_def)

lemma same_counter_refl [simp]: "same_counter s s"
  by (simp add: same_counter_def)

lemma loop_top_ok:
  assumes "ss_inv s" "threads s = [p]"
  shows "result_ok n s (loop_top sh s)"
  using ss_inv_one [OF assms] by (simp add: loop_top_def result_ok_iff same_counter_def)

lemma result_ok_trans:
  "same_counter s s' \<Longrightarrow> result_ok n s' r \<Longrightarrow> result_ok n s r"
  by (cases r) (simp add: result_ok_def same_counter_def Let_def)

lemma counter_wait_ok:
  assumes "ss_inv s" "threads s = [p]" "counter_ok n s"
  shows "result_ok n s (counter_wait w s)"
proof (cases "mAutosuspendEnabled s")
  case False
  with loop_top_ok [OF assms(1,2)] show ?thesis by (simp add: counter_wait_def)
next
  case True
  with ss_inv_one [OF assms(1,2)] counter_ok_zero [OF assms(3)] show ?thesis
    by (simp add: counter_wait_def result_ok_iff)
qed

text \<open>Parts that leave tokens, flags and the wake lock statistics alone.\<close>

lemma result_ok_unchanged:
  assumes "ss_inv s" "threads s = [p]" "\<not> waiting pc \<or> mAutosuspendEnabled s \<and> pc = Sleeping False"
    "mAutosuspendThreadCreated s' = mAutosuspendThreadCreated s" "mAutosuspendEnabled s' = mAutosuspendEnabled s"
    "mAutosuspendClientTokens s' = mAutosuspendClientTokens s" "mStatsList s' = mStatsList s"
    "wu_inv (mWakeupList s')" "same_counter s s'"
  shows "result_ok n s (Some pc, s')"
  using assms(3-9) ss_inv_one [OF assms(1,2)]
  by (auto simp: result_ok_iff wait_justified_not_waiting)

lemma suspend_attempt_ok:
  assumes "ss_inv s" "threads s = [p]"
  shows "result_ok n s (suspend_attempt w countOk stateOk s)"
proof -
  note one = ss_inv_one [OF assms]
  have "result_ok n s (loop_top False (disableAutosuspendLocked s))"
    using one by (simp add: loop_top_def field_defs Let_def result_ok_iff same_counter_def)
  moreover have "result_ok n s (loop_top False s)" using assms by (rule loop_top_ok)
  moreover have "result_ok n s (loop_top False (write_file wakeup_count w False s))"
    using one by (simp add: loop_top_def write_file_def result_ok_iff same_counter_def)
  moreover have "result_ok n s (Some (Attempted stateOk),
      write_file power_state kSleepState stateOk (write_file wakeup_count w True s))"
    using one by (intro result_ok_unchanged [OF assms]) (simp_all add: write_file_def same_counter_def)
  ultimately show ?thesis by (simp add: suspend_attempt_def Let_def)
qed

lemma record_reasons_ok:
  assumes "ss_inv s" "threads s = [p]"
  shows "\<exists>r. record_reasons lib success content open_file s = Some r \<and> result_ok n s r"
proof -
  let ?rs = "readWakeupReasons (lib_trim lib) content"
  have i: "wu_inv (mWakeupList s)" using assms(1) by (simp add: ss_inv_def)
  then obtain l where l: "wu_update (lib_join lib) ?rs (mWakeupList s) = Some l" "wu_inv l"
    using wu_record_ok [OF i, of "lib_join lib ?rs '';''"] by (metis wu_update_def)
  show ?thesis
  proof (cases "?rs = [kErrorWakeup]")
    case True
    with l show ?thesis
      by (auto simp: record_reasons_def same_counter_def intro!: result_ok_unchanged [OF assms])
  next
    case False
    with l show ?thesis
      by (auto simp: record_reasons_def same_counter_def intro!: result_ok_unchanged [OF assms])
  qed
qed

lemma thread_step_ok:
  assumes "ss_inv s" "threads s = [p]" "counter_ok n s"
  shows "thread_step lib ev p s \<noteq> Undefined"
    "thread_step lib ev p s = Done r \<Longrightarrow> result_ok n s r"
proof -
  note same = result_ok_unchanged [OF assms(1,2)]
  have wu: "wu_inv (mWakeupList s)" using assms(1) by (simp add: ss_inv_def)
  note top = loop_top_ok [OF assms(1,2)]
  have sleep: "result_ok n s (sleep_wakes b s)" for b
    using top wu by (auto simp: sleep_wakes_def intro!: same)
  have count: "result_ok n s (count_read b w s)" for b w
    using top counter_wait_ok [OF assms] by (simp add: count_read_def)
  have time: "result_ok n s (record_suspend_time lib b c s)" for b c
    using wu by (auto simp: record_suspend_time_def same_counter_def intro!: same)
  have calls: "result_ok n s (call_wakeup_callbacks b c s)" for b c
    using wu by (auto simp: call_wakeup_callbacks_def same_counter_def intro!: same split: prod.split)
  have read: "result_ok n s (Some (CountRead b w), s\<lparr>last_count_read := w\<rparr>)" for b w
    using wu by (auto simp: same_counter_def intro!: same)
  have wait: "counter_wait w s = r' \<Longrightarrow> result_ok n s r'" for w r'
    using counter_wait_ok [OF assms] by blast
  note parts = top sleep count wait suspend_attempt_ok [OF assms(1,2)] time calls read
  have reasons: "(\<exists>r. x = Some r \<and> P r) \<Longrightarrow> (case x of None \<Rightarrow> Undefined | Some r \<Rightarrow> Done r) \<noteq> Undefined \<and>
      (\<forall>r. (case x of None \<Rightarrow> Undefined | Some r \<Rightarrow> Done r) = Done r \<longrightarrow> P r)" for x :: "thread_result option" and P
    by auto
  have "thread_step lib ev p s \<noteq> Undefined \<and> (\<forall>r. thread_step lib ev p s = Done r \<longrightarrow> result_ok n s r)"
    by (cases p; cases ev)
      (simp_all add: parts reasons [OF record_reasons_ok [OF assms(1,2)]])
  then show "thread_step lib ev p s \<noteq> Undefined" "thread_step lib ev p s = Done r \<Longrightarrow> result_ok n s r"
    by blast+
qed

lemma loop_top_threads [simp]: "threads (snd (loop_top sh s)) = threads s"
  by (simp add: loop_top_def)

lemma thread_step_length:
  assumes "thread_step lib ev p s = Done r"
  shows "length (threads (snd r)) = length (threads s)"
proof -
  have parts: "length (threads (snd (counter_wait w s))) = length (threads s)"
    "length (threads (snd (count_read b w s))) = length (threads s)"
    "length (threads (snd (sleep_wakes b s))) = length (threads s)"
    "length (threads (snd (record_suspend_time lib b c s))) = length (threads s)"
    "length (threads (snd (call_wakeup_callbacks b rs s))) = length (threads s)" for w b c rs
    by (simp_all add: counter_wait_def count_read_def sleep_wakes_def record_suspend_time_def
        call_wakeup_callbacks_def Let_def split: prod.split)
  have attempt: "length (threads (snd (suspend_attempt w a b s))) = length (threads s)" for w a b
    by (simp add: suspend_attempt_def field_defs Let_def)
  have reasons: "length (threads (snd x)) = length (threads s)" if "record_reasons lib ok c op s = Some x" for ok c op x
    using that by (auto simp: record_reasons_def Let_def split: bind_splits if_splits)
  show ?thesis
    using assms
    by (cases p; cases ev) (auto simp: parts attempt reasons split: option.splits if_splits)
qed

lemma run_thread_Done:
  assumes "ss_inv s" "run_thread lib i ev s = Done t"
  obtains p pc s' where "i = 0" "threads s = [p]" "thread_step lib ev p s = Done (pc, s')"
    "t = s'\<lparr>threads := (case pc of None \<Rightarrow> [] | Some q \<Rightarrow> [q])\<rparr>"
proof -
  from assms have "i < length (threads s)" by (simp add: run_thread_def split: if_splits)
  with ss_inv_threads [OF assms(1)] obtain p where p: "threads s = [p]" "i = 0" by auto
  with assms(2) obtain pc s' where d: "thread_step lib ev p s = Done (pc, s')"
    "t = (case pc of None \<Rightarrow> s'\<lparr>threads := take 0 (threads s') @ drop (Suc 0) (threads s')\<rparr> | Some q \<Rightarrow> s'\<lparr>threads := (threads s')[0 := q]\<rparr>)"
    by (auto simp: run_thread_def split: outcome.splits)
  obtain q where "threads s' = [q]" using thread_step_length [OF d(1)] p by (auto simp: length_Suc_conv)
  with p d show thesis by (intro that) (auto split: option.split)
qed

lemma run_thread_ok:
  assumes "ss_inv s" "counter_ok n s"
  shows "run_thread lib i ev s \<noteq> Undefined"
    "run_thread lib i ev s = Done t \<Longrightarrow> ss_inv t \<and> waits_ok n t \<and> same_counter s t"
proof -
  show "run_thread lib i ev s \<noteq> Undefined"
  proof
    assume u: "run_thread lib i ev s = Undefined"
    then have "i < length (threads s)" by (simp add: run_thread_def split: if_splits)
    with ss_inv_threads [OF assms(1)] obtain p where p: "threads s = [p]" "i = 0" by auto
    with u thread_step_ok(1) [OF assms(1) p(1) assms(2)] show False
      by (auto simp: run_thread_def split: outcome.splits)
  qed
  assume "run_thread lib i ev s = Done t"
  with assms(1) obtain p pc s' where *: "threads s = [p]" "thread_step lib ev p s = Done (pc, s')"
    "t = s'\<lparr>threads := (case pc of None \<Rightarrow> [] | Some q \<Rightarrow> [q])\<rparr>" by (rule run_thread_Done)
  from thread_step_ok(2) [OF assms(1) *(1) assms(2) *(2)] *(3)
  show "ss_inv t \<and> waits_ok n t \<and> same_counter s t" by (simp add: result_ok_def Let_def)
qed

text \<open>Only the suspend attempt of the thread writes to the kernel, and only in this order.\<close>

lemma suspend_attempt_log:
  "kernel_log (snd (suspend_attempt w countOk stateOk s)) = kernel_log s @
     (if mAutosuspendClientTokens s = [] \<or> mSuspendCounter s \<noteq> 0 then []
      else if \<not> countOk then [(wakeup_count, w, False)]
      else [(wakeup_count, w, True), (power_state, kSleepState, stateOk)])"
  by (auto simp: suspend_attempt_def field_defs Let_def loop_top_def word_gt_0)

lemma thread_step_log:
  assumes "thread_step lib ev p s = Done r"
  shows "kernel_log (snd r) = kernel_log s \<or>
    (\<exists>w countOk stateOk. p = LockingTokens w \<and> ev = Attempt countOk stateOk \<and>
       mAutosuspendClientTokens s \<noteq> [] \<and> mSuspendCounter s = 0 \<and>
       kernel_log (snd r) = kernel_log s @ (if countOk
         then [(wakeup_count, w, True), (power_state, kSleepState, stateOk)] else [(wakeup_count, w, False)]))"
proof -
  have top: "kernel_log (snd (loop_top b s)) = kernel_log s" for b by (simp add: loop_top_def)
  have quiet: "kernel_log (snd (counter_wait w s)) = kernel_log s"
    "kernel_log (snd (count_read b w s)) = kernel_log s"
    "kernel_log (snd (sleep_wakes b s)) = kernel_log s"
    "kernel_log (snd (record_suspend_time lib b c s)) = kernel_log s"
    "kernel_log (snd (call_wakeup_callbacks b rs s)) = kernel_log s" for w b c rs
    by (simp_all add: top counter_wait_def count_read_def sleep_wakes_def record_suspend_time_def
        call_wakeup_callbacks_def Let_def split: prod.split)
  have reasons: "kernel_log (snd x) = kernel_log s" if "record_reasons lib ok c op s = Some x" for ok c op x
    using that by (auto simp: record_reasons_def Let_def split: bind_splits if_splits)
  have attempt: ?thesis if "ev = Attempt a b" "p = LockingTokens w" "r = suspend_attempt w a b s" for a b w
    using suspend_attempt_log [of w a b s] that by (cases a) (auto split: if_splits)
  have "kernel_log (snd r) = kernel_log s \<or>
      (\<exists>w a b. ev = Attempt a b \<and> p = LockingTokens w \<and> r = suspend_attempt w a b s)"
    using assms
    by (cases p; cases ev) (auto simp: quiet top reasons split: option.splits if_splits)
  with attempt show ?thesis by blast
qed

subsection \<open>The wakeup count\<close>

text \<open>The thread carries the wakeup count it read last, which is not empty once it has been checked.\<close>

fun count_ok :: "string \<Rightarrow> autosuspend_pc \<Rightarrow> bool" where
  "count_ok l (CountRead _ w) = (w = l)"
| "count_ok l (WaitingCounter w _) = (w = l \<and> w \<noteq> [])"
| "count_ok l (LockingTokens w) = (w = l \<and> w \<noteq> [])"
| "count_ok l _ = True"

definition counts_ok :: "SystemSuspend \<Rightarrow> bool" where
  "counts_ok s \<longleftrightarrow> list_all (count_ok (last_count_read s)) (threads s)"

lemma count_ok_signal [simp]: "count_ok l (signal p) = count_ok l p"
  by (cases p) auto

lemma loop_top_count: "loop_top sh s = (Some q, s') \<Longrightarrow> count_ok l q"
  by (auto simp: loop_top_def split: if_splits)

lemma counter_wait_count:
  "counter_wait w s = (Some q, s') \<Longrightarrow> w \<noteq> [] \<Longrightarrow> w = last_count_read s \<Longrightarrow> count_ok (last_count_read s') q"
  by (auto simp: counter_wait_def loop_top_def split: if_splits)

lemma thread_step_count:
  assumes "thread_step lib ev p s = Done (Some q, s')" "count_ok (last_count_read s) p"
  shows "count_ok (last_count_read s') q"
proof (cases p)
  case (CountRead sh w)
  with assms show ?thesis
    by (cases ev) (auto simp: count_read_def dest: loop_top_count counter_wait_count split: if_splits)
next
  case (WaitingCounter w b)
  with assms show ?thesis by (cases ev) (auto dest: counter_wait_count split: if_splits)
next
  case (Sleeping b)
  with assms show ?thesis
    by (cases ev) (auto simp: sleep_wakes_def dest: loop_top_count split: if_splits)
next
  case (LockingTokens w)
  with assms show ?thesis
    by (cases ev) (auto simp: suspend_attempt_def Let_def dest: loop_top_count split: if_splits)
next
  case (TimeUpdated b)
  with assms show ?thesis
    by (cases ev) (auto simp: record_reasons_def Let_def split: option.splits bind_splits if_splits)
next
  case (ReasonsRead b rs)
  with assms show ?thesis by (cases ev) (auto simp: call_wakeup_callbacks_def split: prod.splits)
qed (use assms in \<open>(cases ev; auto simp: record_suspend_time_def dest: loop_top_count)+\<close>)

lemma run_thread_count:
  assumes "ss_inv s" "counts_ok s" "run_thread lib i ev s = Done t"
  shows "counts_ok t"
proof -
  from assms(1,3) obtain p pc s' where *: "threads s = [p]" "thread_step lib ev p s = Done (pc, s')"
    "t = s'\<lparr>threads := (case pc of None \<Rightarrow> [] | Some q \<Rightarrow> [q])\<rparr>" by (rule run_thread_Done)
  with assms(2) thread_step_count [of lib ev p s _ s'] show ?thesis
    by (cases pc) (auto simp: counts_ok_def)
qed

lemma calls_count:
  assumes "counts_ok s"
  shows "counts_ok (snd (enableAutosuspend ok token s))" "counts_ok (disableAutosuspend s)"
    "counts_ok (snd (forceSuspend ok s))" "counts_ok (updateStatsNow t s)"
    "counts_ok (incSuspendCounter ok name s)" "counts_ok (decSuspendCounter ok pick name s)"
proof -
  have "list_all (count_ok l) (xs[i := signal (xs ! i)])" if "list_all (count_ok l) xs" for l xs i
  proof (cases "i < length xs")
    case True
    with that show ?thesis using set_update_subset_insert [of xs i "signal (xs ! i)"]
      by (auto simp: list_all_iff)
  qed (use that in \<open>simp add: list_update_beyond\<close>)
  with assms show "counts_ok (decSuspendCounter ok pick name s)"
    by (simp add: counts_ok_def decSuspendCounter_def notify_one_def write_file_def Let_def)
qed (use assms in \<open>simp_all add: counts_ok_def incSuspendCounter_def field_defs Let_def list_all_iff\<close>)

end
