(* ===== verification/WakeLocks.thy ===== *)
theory WakeLocks
  imports SystemSuspend
begin

text \<open>
  The wake lock objects that clients hold, of \<open>suspend/1.0/default/SystemSuspendAidl.cpp\<close> and
  \<open>SystemSuspendHidl.cpp\<close>, and the whole suspend service as a transition system.

  Acquiring and releasing are sequences of calls into \<open>SystemSuspend\<close>, each of which takes its own
  lock, so calls of other threads may come in between. A handler is therefore a list of actions; a lock
  object keeps what its handler has done and what is left to do. The \<open>once_flag\<close> \<open>mReleased\<close> lets the
  first of \<open>release\<close> and the destructor run the release actions, and makes the other callers wait for
  it and return.

  The two front ends differ in where the statistics are updated (in \<open>acquireWakeLock\<close> and in the
  constructor), and the AIDL one checks its result pointer. What the rest of the development needs of
  either is the interface \<open>wake_lock_api\<close>: acquiring counts the lock up first and releasing counts it down
  first, and nothing else touches the counter.
\<close>

datatype lock_action =
    IncSuspendCounter string
  | StatOnAcquire string i32
  | DecSuspendCounter string
  | StatOnRelease string i32

text \<open>\<open>SystemSuspendAidl.cpp\<close>: the constructor, \<open>releaseOnce\<close>, and \<open>acquireWakeLock\<close>.\<close>

definition aidl_WakeLock :: "string \<Rightarrow> i32 \<Rightarrow> lock_action list" where
  "aidl_WakeLock name pid = [IncSuspendCounter name]"

definition aidl_releaseOnce :: "string \<Rightarrow> i32 \<Rightarrow> lock_action list" where
  "aidl_releaseOnce name pid = [DecSuspendCounter name, StatOnRelease name pid]"

definition aidl_acquire :: "string \<Rightarrow> i32 \<Rightarrow> lock_action list" where
  "aidl_acquire name pid = aidl_WakeLock name pid @ [StatOnAcquire name pid]"

text \<open>\<open>SystemSuspendHidl.cpp\<close>.\<close>

definition hidl_WakeLock :: "string \<Rightarrow> i32 \<Rightarrow> lock_action list" where
  "hidl_WakeLock name pid = [IncSuspendCounter name, StatOnAcquire name pid]"

definition hidl_releaseOnce :: "string \<Rightarrow> i32 \<Rightarrow> lock_action list" where
  "hidl_releaseOnce name pid = [DecSuspendCounter name, StatOnRelease name pid]"

definition hidl_acquire :: "string \<Rightarrow> i32 \<Rightarrow> lock_action list" where
  "hidl_acquire name pid = hidl_WakeLock name pid"

datatype front_end = Aidl | Hidl

definition acquire_actions :: "front_end \<Rightarrow> string \<Rightarrow> i32 \<Rightarrow> lock_action list" where
  "acquire_actions f = (case f of Aidl \<Rightarrow> aidl_acquire | Hidl \<Rightarrow> hidl_acquire)"

definition release_actions :: "front_end \<Rightarrow> string \<Rightarrow> i32 \<Rightarrow> lock_action list" where
  "release_actions f = (case f of Aidl \<Rightarrow> aidl_releaseOnce | Hidl \<Rightarrow> hidl_releaseOnce)"

record WakeLock =
  lk_front :: front_end
  mName :: string
  mPid :: i32
  mReleased :: bool
  lk_done :: "lock_action list"
  lk_todo :: "lock_action list"

definition WakeLock_new :: "front_end \<Rightarrow> string \<Rightarrow> i32 \<Rightarrow> WakeLock" where
  "WakeLock_new f name pid =
     \<lparr>lk_front = f, mName = name, mPid = pid, mReleased = False, lk_done = [],
      lk_todo = acquire_actions f name pid\<rparr>"

text \<open>\<open>SystemSuspendAidl::acquireWakeLock\<close> fails on a null result pointer.\<close>

datatype aidl_exception = EX_ILLEGAL_ARGUMENT

definition aidl_acquireWakeLock :: "bool \<Rightarrow> string \<Rightarrow> i32 \<Rightarrow> aidl_exception + WakeLock" where
  "aidl_acquireWakeLock returnIsNull name pid =
     (if returnIsNull then Inl EX_ILLEGAL_ARGUMENT else Inr (WakeLock_new Aidl name pid))"

definition hidl_acquireWakeLock :: "string \<Rightarrow> i32 \<Rightarrow> WakeLock" where
  "hidl_acquireWakeLock name pid = WakeLock_new Hidl name pid"

text \<open>\<open>std::call_once\<close>: the first call starts the release actions, a later one does nothing.\<close>

definition releaseOnce :: "WakeLock \<Rightarrow> WakeLock" where
  "releaseOnce lk =
     (if mReleased lk then lk
      else lk\<lparr>mReleased := True, lk_todo := lk_todo lk @ release_actions (lk_front lk) (mName lk) (mPid lk)\<rparr>)"

text \<open>The client has the lock: \<open>acquireWakeLock\<close> has returned and nobody has called \<open>release\<close>.\<close>

definition held :: "WakeLock \<Rightarrow> bool" where
  "held lk \<longleftrightarrow> \<not> mReleased lk \<and> lk_todo lk = []"

text \<open>How often the actions raised the counter less how often they lowered it.\<close>

fun counter_change :: "lock_action \<Rightarrow> int" where
  "counter_change (IncSuspendCounter _) = 1"
| "counter_change (DecSuspendCounter _) = -1"
| "counter_change _ = 0"

definition net :: "lock_action list \<Rightarrow> int" where
  "net as = sum_list (map counter_change as)"

definition counted :: "WakeLock \<Rightarrow> bool" where
  "counted lk \<longleftrightarrow> net (lk_done lk) = 1"

subsection \<open>The interface of a front end\<close>

locale wake_lock_api =
  fixes acquire release :: "string \<Rightarrow> i32 \<Rightarrow> lock_action list"
  assumes acquire_first: "\<exists>as. acquire name pid = IncSuspendCounter name # as \<and> (\<forall>a \<in> set as. counter_change a = 0)"
    and release_first: "\<exists>as. release name pid = DecSuspendCounter name # as \<and> (\<forall>a \<in> set as. counter_change a = 0)"
begin

lemma net_quiet: "(\<forall>a \<in> set as. counter_change a = 0) \<Longrightarrow> net as = 0"
  by (induction as) (auto simp: net_def)

text \<open>From its first action until the first action of its release, and only then, a lock counts.\<close>

lemma net_acquiring:
  assumes "done @ todo = acquire name pid"
  shows "net done = (if done = [] then 0 else 1)"
proof (cases "done")
  case Nil
  then show ?thesis by (simp add: net_def)
next
  case (Cons a rest)
  with assms acquire_first [of name pid] have "a = IncSuspendCounter name" "\<forall>a \<in> set rest. counter_change a = 0"
    by auto
  with Cons net_quiet [of rest] show ?thesis by (simp add: net_def)
qed

lemma net_acquired: "net (acquire name pid) = 1"
  using net_acquiring [of "acquire name pid" "[]"] acquire_first [of name pid] by auto

lemma net_releasing:
  assumes "acquire name pid @ released @ todo = acquire name pid @ release name pid"
  shows "net (acquire name pid @ released) = (if released = [] then 1 else 0)"
proof (cases "released")
  case Nil
  then show ?thesis by (simp add: net_acquired)
next
  case (Cons a rest)
  with assms release_first [of name pid] have "a = DecSuspendCounter name" "\<forall>a \<in> set rest. counter_change a = 0"
    by auto
  with Cons net_quiet [of rest] net_acquired [of name pid] show ?thesis by (simp add: net_def)
qed

end

interpretation aidl: wake_lock_api aidl_acquire aidl_releaseOnce
  by unfold_locales (simp_all add: aidl_acquire_def aidl_WakeLock_def aidl_releaseOnce_def)

interpretation hidl: wake_lock_api hidl_acquire hidl_releaseOnce
  by unfold_locales (simp_all add: hidl_acquire_def hidl_WakeLock_def hidl_releaseOnce_def)

interpretation front: wake_lock_api "acquire_actions f" "release_actions f" for f
  by (cases f) (simp_all add: acquire_actions_def release_actions_def aidl.wake_lock_api_axioms
      hidl.wake_lock_api_axioms)

end
