(* ===== verification/SuspendSystem.thy ===== *)
theory SuspendSystem
  imports WakeLocks
begin

text \<open>
  The suspend service as one transition system: \<open>SystemSuspend\<close>, its autosuspend thread, and the wake
  locks of all clients. A step is a client call, one action of a wake lock handler, or one step of the
  thread; steps of different threads of control interleave in any order, and the kernel and the
  schedule are inputs.

  Shown: the system is never undefined; one autosuspend thread runs exactly when the flags say so; it
  suspends the system only while autosuspend is enabled and no wake lock counts, right after the kernel
  accepted the wakeup count read before; no wake-up is lost; with autosuspend enabled and no wake lock left
  the thread, left alone, gets to a suspend attempt in at most eight steps and some for each delay, whatever the
  kernel answers; once autosuspend is disabled it ends in
  at most four steps without another attempt.
\<close>

record system =
  sys_suspend :: SystemSuspend
  sys_locks :: "WakeLock list"

text \<open>The inputs of an action: the answer of the kernel, the thread notified, the clock.\<close>

record action_input =
  in_ok :: bool
  in_pick :: nat
  in_time :: timespec

fun do_action :: "action_input \<Rightarrow> lock_action \<Rightarrow> SystemSuspend \<Rightarrow> SystemSuspend option" where
  "do_action inp (IncSuspendCounter name) s = Some (incSuspendCounter (in_ok inp) name s)"
| "do_action inp (DecSuspendCounter name) s = Some (decSuspendCounter (in_ok inp) (in_pick inp) name s)"
| "do_action inp (StatOnAcquire name pid) s = updateWakeLockStatOnAcquire (in_time inp) name pid s"
| "do_action inp (StatOnRelease name pid) s = updateWakeLockStatOnRelease (in_time inp) name pid s"

datatype sys_event =
    EnableAutosuspend bool ibinder
  | DisableAutosuspend
  | ForceSuspend bool
  | UpdateStatsNow timespec
  | ControlCall cs_op
  | AidlAcquire bool string i32
  | HidlAcquire string i32
  | LockAction nat action_input
  | ReleaseLock nat
  | ThreadStep nat thread_event

definition map_suspend :: "(SystemSuspend \<Rightarrow> SystemSuspend) \<Rightarrow> system \<Rightarrow> system outcome" where
  "map_suspend f y = Done (y\<lparr>sys_suspend := f (sys_suspend y)\<rparr>)"

definition lock_step :: "nat \<Rightarrow> action_input \<Rightarrow> system \<Rightarrow> system outcome" where
  "lock_step i inp y =
     (if length (sys_locks y) \<le> i then NotEnabled
      else let lk = sys_locks y ! i in
        case lk_todo lk of [] \<Rightarrow> NotEnabled
        | a # as \<Rightarrow>
            (case do_action inp a (sys_suspend y) of None \<Rightarrow> Undefined
             | Some s \<Rightarrow> Done (y\<lparr>sys_suspend := s,
                 sys_locks := (sys_locks y)[i := lk\<lparr>lk_done := lk_done lk @ [a], lk_todo := as\<rparr>]\<rparr>)))"

text \<open>A client can release a lock only once it has it: while the handler runs it waits.\<close>

definition release_step :: "nat \<Rightarrow> system \<Rightarrow> system outcome" where
  "release_step i y =
     (if length (sys_locks y) \<le> i \<or> lk_todo (sys_locks y ! i) \<noteq> [] then NotEnabled
      else Done (y\<lparr>sys_locks := (sys_locks y)[i := releaseOnce (sys_locks y ! i)]\<rparr>))"

fun sys_apply :: "libs \<Rightarrow> (ibinder \<Rightarrow> bool) \<Rightarrow> sys_event \<Rightarrow> system \<Rightarrow> system outcome" where
  "sys_apply lib remote (EnableAutosuspend ok token) y = map_suspend (\<lambda>s. snd (enableAutosuspend ok token s)) y"
| "sys_apply lib remote DisableAutosuspend y = map_suspend disableAutosuspend y"
| "sys_apply lib remote (ForceSuspend ok) y = map_suspend (\<lambda>s. snd (forceSuspend ok s)) y"
| "sys_apply lib remote (UpdateStatsNow t) y = map_suspend (updateStatsNow t) y"
| "sys_apply lib remote (ControlCall op) y =
     map_suspend (\<lambda>s. s\<lparr>mControlService := cs_apply remote op (mControlService s)\<rparr>) y"
| "sys_apply lib remote (AidlAcquire isNull name pid) y =
     (case aidl_acquireWakeLock isNull name pid of Inl _ \<Rightarrow> Done y
      | Inr lk \<Rightarrow> Done (y\<lparr>sys_locks := sys_locks y @ [lk]\<rparr>))"
| "sys_apply lib remote (HidlAcquire name pid) y =
     Done (y\<lparr>sys_locks := sys_locks y @ [hidl_acquireWakeLock name pid]\<rparr>)"
| "sys_apply lib remote (LockAction i inp) y = lock_step i inp y"
| "sys_apply lib remote (ReleaseLock i) y = release_step i y"
| "sys_apply lib remote (ThreadStep i ev) y =
     (case run_thread lib i ev (sys_suspend y) of NotEnabled \<Rightarrow> NotEnabled | Undefined \<Rightarrow> Undefined
      | Done s \<Rightarrow> Done (y\<lparr>sys_suspend := s\<rparr>))"

inductive sys_step :: "libs \<Rightarrow> (ibinder \<Rightarrow> bool) \<Rightarrow> system \<Rightarrow> sys_event \<Rightarrow> system \<Rightarrow> bool"
  for lib :: libs and remote :: "ibinder \<Rightarrow> bool" where
  sys_stepI: "sys_apply lib remote e y = Done y' \<Longrightarrow> sys_step lib remote y e y'"

inductive_simps sys_step_iff: "sys_step lib remote y e y'"

definition sys_new ::
  "nat \<Rightarrow> SleepTimeConfig \<Rightarrow> bool \<Rightarrow> int \<Rightarrow> (string \<Rightarrow> int) \<Rightarrow> system" where
  "sys_new capacity cfg useCounter reasonsFd open_file =
     \<lparr>sys_suspend = SystemSuspend_new capacity cfg SuspendControlService_new useCounter reasonsFd open_file,
      sys_locks = []\<rparr>"

definition sys_init :: "system \<Rightarrow> bool" where
  "sys_init y \<longleftrightarrow> (\<exists>capacity cfg useCounter reasonsFd open_file. 0 < capacity \<and>
     y = sys_new capacity cfg useCounter reasonsFd open_file)"

subsection \<open>The invariant\<close>

text \<open>A lock has done a part of its handlers, in order.\<close>

definition lock_inv :: "WakeLock \<Rightarrow> bool" where
  "lock_inv lk \<longleftrightarrow>
     (let acq = acquire_actions (lk_front lk) (mName lk) (mPid lk);
          rel = release_actions (lk_front lk) (mName lk) (mPid lk)
      in if mReleased lk then \<exists>r. lk_done lk = acq @ r \<and> r @ lk_todo lk = rel
         else lk_done lk @ lk_todo lk = acq)"

definition counted_locks :: "system \<Rightarrow> nat" where
  "counted_locks y = length (filter counted (sys_locks y))"

definition sys_inv :: "system \<Rightarrow> bool" where
  "sys_inv y \<longleftrightarrow> ss_inv (sys_suspend y) \<and> waits_ok (counted_locks y) (sys_suspend y) \<and>
     counter_ok (counted_locks y) (sys_suspend y) \<and> list_all lock_inv (sys_locks y)"

lemma sys_inv_init: "sys_init y \<Longrightarrow> sys_inv y"
  by (auto simp: sys_init_def sys_new_def SystemSuspend_new_def sys_inv_def ss_inv_def waits_ok_def counter_ok_def
      counted_locks_def wl_inv_new wu_inv_new)

lemma lock_inv_new: "lock_inv (WakeLock_new f name pid)" "\<not> counted (WakeLock_new f name pid)"
  by (simp_all add: lock_inv_def WakeLock_new_def counted_def net_def)

lemma lock_inv_releaseOnce:
  assumes "lock_inv lk" "lk_todo lk = []"
  shows "lock_inv (releaseOnce lk)" "counted (releaseOnce lk) = counted lk"
  using assms by (auto simp: lock_inv_def releaseOnce_def counted_def Let_def split: if_splits)

text \<open>The effect of one action on whether the lock counts.\<close>

lemma lock_inv_action:
  assumes "lock_inv lk" "lk_todo lk = a # as"
  defines "lk' \<equiv> lk\<lparr>lk_done := lk_done lk @ [a], lk_todo := as\<rparr>"
  shows "lock_inv lk'"
    and "counter_change a = (if counted lk' then 1 else 0) - (if counted lk then 1 else 0)"
proof -
  show i: "lock_inv lk'" using assms by (auto simp: lock_inv_def Let_def split: if_splits)
  have n: "net (lk_done x) = (if counted x then 1 else 0)" if "lock_inv x" for x
  proof (cases "mReleased x")
    case False
    with that front.net_acquiring [of "lk_done x" "lk_todo x"] show ?thesis
      by (auto simp: lock_inv_def counted_def Let_def)
  next
    case True
    with that obtain r where "lk_done x = acquire_actions (lk_front x) (mName x) (mPid x) @ r"
      "r @ lk_todo x = release_actions (lk_front x) (mName x) (mPid x)"
      by (auto simp: lock_inv_def Let_def)
    with front.net_releasing [of "lk_front x" "mName x" "mPid x" r "lk_todo x"] show ?thesis
      by (auto simp: counted_def)
  qed
  have "net (lk_done lk') = net (lk_done lk) + counter_change a"
    by (simp add: lk'_def net_def)
  with n [OF i] n [OF assms(1)]
  show "counter_change a = (if counted lk' then 1 else 0) - (if counted lk then 1 else 0)" by simp
qed

lemma length_filter_update:
  assumes "i < length xs"
  shows "length (filter P (xs[i := x])) + (if P (xs ! i) then 1 else 0) = length (filter P xs) + (if P x then 1 else 0)"
proof -
  have "filter P xs = filter P (take i xs @ xs ! i # drop (Suc i) xs)"
    using id_take_nth_drop [OF assms] by simp
  then show ?thesis by (simp add: upd_conv_take_nth_drop assms)
qed

lemma list_all_update: "list_all P xs \<Longrightarrow> P x \<Longrightarrow> list_all P (xs[i := x])"
  using set_update_subset_insert [of xs i x] by (auto simp: list_all_iff)

lemma held_counted: "lock_inv lk \<Longrightarrow> held lk \<Longrightarrow> counted lk"
  by (simp add: lock_inv_def held_def counted_def front.net_acquired)


text \<open>Operations that leave the counter and the locks alone.\<close>

lemma sys_inv_suspend:
  assumes "sys_inv y" "ss_inv s" "waits_ok (counted_locks y) s" "same_counter (sys_suspend y) s"
  shows "sys_inv (y\<lparr>sys_suspend := s\<rparr>)"
  using assms counter_ok_same [OF assms(4)] by (simp add: sys_inv_def counted_locks_def)

lemma stats_action_ok:
  assumes "ss_inv s" "counter_change a = 0"
  shows "\<exists>s'. do_action inp a s = Some s' \<and> ss_inv s' \<and> same_counter s s' \<and> (\<forall>n. waits_ok n s' = waits_ok n s)"
proof -
  have i: "wl_inv (mStatsList s)" using assms(1) by (simp add: ss_inv_def)
  have frame: "ss_inv t \<and> same_counter s t \<and> (\<forall>n. waits_ok n t = waits_ok n s)"
    if "t = s\<lparr>mStatsList := l, mControlService := c, wakelock_calls := w\<rparr>" "wl_inv l" for t l c w
    using assms(1) that by (simp add: ss_inv_def same_counter_def waits_ok_def)
  show ?thesis
  proof (cases a)
    case (StatOnAcquire name pid)
    obtain l where "updateOnAcquire (in_time inp) name pid (mStatsList s) = Some l" "wl_inv l"
      using wl_apply_ok [OF i, of "Acquire (in_time inp) name pid"] by auto
    moreover obtain calls c where "notifyWakelock (\<lambda>_ c. c) name True (mControlService s) = (calls, c)" by fastforce
    ultimately show ?thesis
      using StatOnAcquire frame by (simp add: updateWakeLockStatOnAcquire_def)
  next
    case (StatOnRelease name pid)
    obtain l where "updateOnRelease (in_time inp) name pid (mStatsList s) = Some l" "wl_inv l"
      using wl_apply_ok [OF i, of "Release (in_time inp) name pid"] by auto
    moreover obtain calls c where "notifyWakelock (\<lambda>_ c. c) name False (mControlService s) = (calls, c)" by fastforce
    ultimately show ?thesis
      using StatOnRelease frame by (simp add: updateWakeLockStatOnRelease_def)
  qed (use assms(2) in simp_all)
qed

text \<open>An action on the state with \<open>n\<close> counting locks; \<open>m\<close> is their number afterwards.\<close>

lemma do_action_ok:
  assumes "ss_inv s" "waits_ok n s" "counter_ok n s" "int m = int n + counter_change a"
  shows "\<exists>s'. do_action inp a s = Some s' \<and> ss_inv s' \<and> waits_ok m s' \<and> counter_ok m s'"
proof (cases a)
  case (IncSuspendCounter name)
  with assms(4) have "m = Suc n" by simp
  with IncSuspendCounter show ?thesis
    using incSuspendCounter_inv [OF assms(1-3), of "in_ok inp" name] by simp
next
  case (DecSuspendCounter name)
  with assms(4) have "n = Suc m" by simp
  with DecSuspendCounter assms(1-3) show ?thesis
    using decSuspendCounter_inv [of s m "in_ok inp" "in_pick inp" name] by simp
qed (use assms stats_action_ok [OF assms(1), of a inp] counter_ok_same in auto)

lemma lock_step_ok:
  assumes "sys_inv y"
  shows "lock_step i inp y \<noteq> Undefined \<and> (\<forall>y'. lock_step i inp y = Done y' \<longrightarrow> sys_inv y')"
proof (cases "i < length (sys_locks y)")
  case False
  then show ?thesis by (simp add: lock_step_def)
next
  case i: True
  let ?lk = "sys_locks y ! i"
  have li: "lock_inv ?lk" using assms i by (simp add: sys_inv_def list_all_length)
  show ?thesis
  proof (cases "lk_todo ?lk")
    case Nil
    with i show ?thesis by (simp add: lock_step_def)
  next
    case (Cons a as)
    let ?lk' = "?lk\<lparr>lk_done := lk_done ?lk @ [a], lk_todo := as\<rparr>"
    let ?m = "length (filter counted ((sys_locks y)[i := ?lk']))"
    note act = lock_inv_action [OF li Cons]
    have "int ?m = int (counted_locks y) + counter_change a"
      using length_filter_update [OF i, of counted ?lk'] act(2)
      by (simp add: counted_locks_def split: if_splits)
    with do_action_ok assms obtain s' where "do_action inp a (sys_suspend y) = Some s'"
      "ss_inv s'" "waits_ok ?m s'" "counter_ok ?m s'" unfolding sys_inv_def by blast
    moreover have "list_all lock_inv ((sys_locks y)[i := ?lk'])"
      using assms act(1) by (simp add: sys_inv_def list_all_update)
    ultimately show ?thesis using i Cons by (simp add: lock_step_def sys_inv_def counted_locks_def Let_def)
  qed
qed

lemma release_step_ok:
  assumes "sys_inv y" "release_step i y = Done y'"
  shows "sys_inv y'"
proof -
  let ?lk = "sys_locks y ! i"
  from assms(2) have i: "i < length (sys_locks y)" "lk_todo ?lk = []"
    and y': "y' = y\<lparr>sys_locks := (sys_locks y)[i := releaseOnce ?lk]\<rparr>"
    by (simp_all add: release_step_def split: if_splits)
  have "lock_inv ?lk" using assms(1) i by (simp add: sys_inv_def list_all_length)
  note rel = lock_inv_releaseOnce [OF this i(2)]
  have "counted_locks y' = counted_locks y"
    using length_filter_update [OF i(1), of counted "releaseOnce ?lk"] rel(2)
    by (simp add: counted_locks_def y' split: if_splits)
  then show ?thesis using assms(1) rel(1) by (simp add: sys_inv_def y' list_all_update)
qed

lemma new_lock_ok:
  assumes "sys_inv y"
  shows "sys_inv (y\<lparr>sys_locks := sys_locks y @ [WakeLock_new f name pid]\<rparr>)"
  using assms lock_inv_new by (simp add: sys_inv_def counted_locks_def)

lemma other_calls_inv:
  assumes "ss_inv s" "waits_ok n s"
  shows "ss_inv (snd (forceSuspend ok s))" "waits_ok n (snd (forceSuspend ok s))"
    "same_counter s (snd (forceSuspend ok s))"
    "ss_inv (updateStatsNow t s)" "waits_ok n (updateStatsNow t s)" "same_counter s (updateStatsNow t s)"
    "ss_inv (s\<lparr>mControlService := c\<rparr>)" "waits_ok n (s\<lparr>mControlService := c\<rparr>)"
    "same_counter s (s\<lparr>mControlService := c\<rparr>)"
  using assms updateNow_ok(1) [of "mStatsList s" t]
  by (simp_all add: ss_inv_def waits_ok_def same_counter_def forceSuspend_def write_file_def updateStatsNow_def)

lemma sys_apply_ok:
  assumes "sys_inv y"
  shows "sys_apply lib remote e y \<noteq> Undefined \<and> (\<forall>y'. sys_apply lib remote e y = Done y' \<longrightarrow> sys_inv y')"
proof -
  have i: "ss_inv (sys_suspend y)" "waits_ok (counted_locks y) (sys_suspend y)"
    "counter_ok (counted_locks y) (sys_suspend y)" using assms by (simp_all add: sys_inv_def)
  note keep = sys_inv_suspend [OF assms]
  show ?thesis
  proof (cases e)
    case (ThreadStep k ev)
    show ?thesis
    proof (cases "run_thread lib k ev (sys_suspend y)")
      case (Done s)
      with run_thread_ok(2) [OF i(1,3) Done] ThreadStep keep show ?thesis by simp
    qed (use run_thread_ok(1) [OF i(1,3)] ThreadStep in simp_all)
  next
    case (AidlAcquire isNull name pid)
    with new_lock_ok [OF assms] assms show ?thesis by (simp add: aidl_acquireWakeLock_def)
  next
    case (HidlAcquire name pid)
    with new_lock_ok [OF assms] show ?thesis by (simp add: hidl_acquireWakeLock_def)
  next
    case (ReleaseLock k)
    with release_step_ok [OF assms] show ?thesis by (auto simp: release_step_def)
  qed (use keep lock_step_ok [OF assms] enableAutosuspend_inv [OF i(1,2)] disableAutosuspend_inv [OF i(1,2)]
      other_calls_inv [OF i(1,2)] in \<open>simp_all add: map_suspend_def\<close>)
qed

interpretation sys: invariant_system sys_init "sys_step lib remote" sys_inv for lib remote
  using sys_inv_init sys_apply_ok by unfold_locales (auto simp: sys_step_iff)

text \<open>The same system, with what the thread knows of the wakeup count.\<close>

definition sys_count_inv :: "system \<Rightarrow> bool" where
  "sys_count_inv y \<longleftrightarrow> sys_inv y \<and> counts_ok (sys_suspend y)"

lemma do_action_count:
  assumes "do_action inp a s = Some s'" "counts_ok s"
  shows "counts_ok s'"
  using assms calls_count [OF assms(2)]
  by (cases a) (auto simp: updateWakeLockStatOnAcquire_def updateWakeLockStatOnRelease_def counts_ok_def
      split: bind_splits prod.splits)

lemma sys_apply_count:
  assumes "sys_count_inv y" "sys_apply lib remote e y = Done y'"
  shows "sys_count_inv y'"
proof -
  have c: "counts_ok (sys_suspend y)" "ss_inv (sys_suspend y)"
    using assms(1) by (simp_all add: sys_count_inv_def sys_inv_def)
  have "counts_ok (sys_suspend y')"
  proof (cases e)
    case (LockAction i inp)
    with assms(2) c(1) show ?thesis
      by (auto simp: lock_step_def Let_def split: if_splits list.splits option.splits dest: do_action_count)
  next
    case (ThreadStep i ev)
    with assms(2) c show ?thesis by (auto split: outcome.splits dest: run_thread_count)
  next
    case (ControlCall op)
    with assms(2) c(1) show ?thesis by (auto simp: map_suspend_def counts_ok_def)
  qed (use assms(2) c(1) calls_count [OF c(1)] in
      \<open>auto simp: map_suspend_def release_step_def split: sum.splits if_splits\<close>)
  with assms sys_apply_ok [of y lib remote e] show ?thesis by (simp add: sys_count_inv_def)
qed

interpretation count: invariant_system sys_init "sys_step lib remote" sys_count_inv for lib remote
proof unfold_locales
  show "sys_count_inv y" if "sys_init y" for y
    using that sys_inv_init [OF that]
    by (auto simp: sys_count_inv_def sys_init_def sys_new_def SystemSuspend_new_def counts_ok_def)
  show "sys_count_inv y'" if "sys_count_inv y" "sys_step lib remote y e y'" for y y' e
    using sys_apply_count that by (simp add: sys_step_iff)
qed

subsection \<open>A thread step on its own\<close>

lemma thread_event_Done:
  assumes "sys_count_inv y" "sys_step lib remote y (ThreadStep i ev) y'"
  obtains p pc s' where "threads (sys_suspend y) = [p]" "thread_step lib ev p (sys_suspend y) = Done (pc, s')"
    "y' = y\<lparr>sys_suspend := s'\<lparr>threads := (case pc of None \<Rightarrow> [] | Some q \<Rightarrow> [q])\<rparr>\<rparr>"
proof -
  from assms obtain t where t: "run_thread lib i ev (sys_suspend y) = Done t" "y' = y\<lparr>sys_suspend := t\<rparr>"
    by (auto simp: sys_step_iff split: outcome.splits)
  from assms(1) have "ss_inv (sys_suspend y)" by (simp add: sys_count_inv_def sys_inv_def)
  from this t(1) show thesis by (rule run_thread_Done) (use t(2) in \<open>simp add: that\<close>)
qed

text \<open>What a thread step writes: nothing, or the suspend attempt.\<close>

lemma thread_event_log:
  assumes "sys_count_inv y" "sys_step lib remote y (ThreadStep i ev) y'"
    "kernel_log (sys_suspend y') \<noteq> kernel_log (sys_suspend y)"
  shows "mAutosuspendEnabled (sys_suspend y)" "mSuspendCounter (sys_suspend y) = 0"
    "last_count_read (sys_suspend y) \<noteq> []"
    "\<exists>countOk stateOk. kernel_log (sys_suspend y') = kernel_log (sys_suspend y) @
      (if countOk then [(wakeup_count, last_count_read (sys_suspend y), True), (power_state, kSleepState, stateOk)]
       else [(wakeup_count, last_count_read (sys_suspend y), False)])"
proof -
  let ?s = "sys_suspend y"
  from assms(1,2) obtain p pc s' where p: "threads ?s = [p]" "thread_step lib ev p ?s = Done (pc, s')"
    "y' = y\<lparr>sys_suspend := s'\<lparr>threads := (case pc of None \<Rightarrow> [] | Some q \<Rightarrow> [q])\<rparr>\<rparr>"
    by (rule thread_event_Done)
  from assms(1) have inv: "ss_inv ?s" "counts_ok ?s" by (simp_all add: sys_count_inv_def sys_inv_def)
  from thread_step_log [OF p(2)] assms(3) p(3) obtain w countOk stateOk where
    w: "p = LockingTokens w" "mAutosuspendClientTokens ?s \<noteq> []" "mSuspendCounter ?s = 0"
    "kernel_log s' = kernel_log ?s @ (if countOk
       then [(wakeup_count, w, True), (power_state, kSleepState, stateOk)] else [(wakeup_count, w, False)])"
    by auto
  from w(1) p(1) inv(2) have l: "w = last_count_read ?s" "w \<noteq> []" by (auto simp: counts_ok_def)
  show "mAutosuspendEnabled ?s" using w(2) inv(1) by (simp add: ss_inv_def)
  show "mSuspendCounter ?s = 0" by (rule w(3))
  show "last_count_read ?s \<noteq> []" using l by simp
  show "\<exists>countOk stateOk. kernel_log (sys_suspend y') = kernel_log ?s @
      (if countOk then [(wakeup_count, last_count_read ?s, True), (power_state, kSleepState, stateOk)]
       else [(wakeup_count, last_count_read ?s, False)])"
    using w(4) p(3) l by auto
qed

subsection \<open>Progress of the thread\<close>

text \<open>
  An event that is possible at each point of the thread: at the timeout of the sleep, with an answer to
  every question and no delay.
\<close>

fun friendly :: "autosuspend_pc \<Rightarrow> thread_event" where
  "friendly Starting = GetLock"
| "friendly (Sleeping _) = WaitEnds True"
| "friendly (ReadingCount _) = CountIs ''1''"
| "friendly (CountRead _ _) = GetLock"
| "friendly (WaitingCounter _ _) = WaitEnds False"
| "friendly (LockingTokens _) = Attempt True True"
| "friendly (Attempted _) = TimeIs None"
| "friendly (TimeUpdated _) = ReasonsAre None (\<lambda>_. -1)"
| "friendly (ReasonsRead _ _) = CallsMade"
| "friendly Notified = GetLock"

text \<open>How far the thread is from a suspend attempt, and from its end once autosuspend is disabled.\<close>

fun attempt_rank :: "autosuspend_pc \<Rightarrow> nat" where
  "attempt_rank (LockingTokens _) = 1"
| "attempt_rank (WaitingCounter _ _) = 2"
| "attempt_rank (CountRead sh w) = (if w \<noteq> [] then 2 else if sh then 5 else 4)"
| "attempt_rank (ReadingCount _) = 3"
| "attempt_rank (Sleeping _) = 4"
| "attempt_rank Starting = 5"
| "attempt_rank Notified = 5"
| "attempt_rank (ReasonsRead _ _) = 6"
| "attempt_rank (TimeUpdated _) = 7"
| "attempt_rank (Attempted _) = 8"

fun end_rank :: "autosuspend_pc \<Rightarrow> nat" where
  "end_rank (ReadingCount _) = 2"
| "end_rank (ReasonsRead _ _) = 2"
| "end_rank (TimeUpdated _) = 3"
| "end_rank (Attempted _) = 4"
| "end_rank _ = 1"

definition thread_rank :: "SystemSuspend \<Rightarrow> nat" where
  "thread_rank s = (case threads s of [] \<Rightarrow> 0 | p # _ \<Rightarrow> end_rank p)"

lemma attempt_rank_le: "attempt_rank p \<le> 8"
  by (cases p) auto

lemma end_rank_bounds: "1 \<le> end_rank p" "end_rank p \<le> 4"
  by (cases p; simp)+

lemma friendly_enabled:
  assumes "ss_inv s" "threads s = [p]"
  shows "\<exists>r. thread_step lib (friendly p) p s = Done r"
proof (cases p)
  case (TimeUpdated b)
  obtain r where "record_reasons lib b None (\<lambda>_. -1) s = Some r"
    using record_reasons_ok [OF assms] by blast
  with TimeUpdated show ?thesis by simp
qed simp_all

text \<open>What holds up the thread on its way to an attempt: a wakeup count that cannot be read costs three steps,
  a wake-up before the timeout one.\<close>

fun delay :: "thread_event \<Rightarrow> nat" where
  "delay (CountIs w) = (if w = [] then 3 else 0)"
| "delay (WaitEnds timedOut) = (if timedOut then 0 else 1)"
| "delay _ = 0"

lemma delay_friendly: "delay (friendly p) = 0 \<or> (\<exists>w b. p = WaitingCounter w b)"
  by (cases p) auto

definition may_suspend :: "SystemSuspend \<Rightarrow> bool" where
  "may_suspend s \<longleftrightarrow> ss_inv s \<and> counts_ok s \<and> mAutosuspendEnabled s \<and> mSuspendCounter s = 0"

lemma may_suspend_thread:
  assumes "may_suspend s"
  obtains p where "threads s = [p]"
  using assms ss_inv_threads [of s] by (auto simp: may_suspend_def ss_inv_def)

lemma nearer_step:
  assumes "thread_step lib ev p s = Done (pc, s')" "mAutosuspendEnabled s" "mSuspendCounter s = 0"
    and "\<And>w. p \<noteq> LockingTokens w"
  shows "\<exists>q. pc = Some q \<and> Suc (attempt_rank q) \<le> attempt_rank p + delay ev \<and> kernel_log s' = kernel_log s \<and>
    mAutosuspendEnabled s' \<and> (\<forall>w b. q \<noteq> WaitingCounter w b)"
  using assms
  by (cases p; cases ev)
    (auto simp: loop_top_def sleep_wakes_def count_read_def counter_wait_def record_suspend_time_def
      record_reasons_def call_wakeup_callbacks_def Let_def
      split: if_splits option.splits bind_splits prod.splits)

lemma attempt_step:
  assumes "thread_step lib ev (LockingTokens w) s = Done (pc, s')" "mAutosuspendClientTokens s \<noteq> []"
    "mAutosuspendEnabled s" "mSuspendCounter s = 0"
  shows "\<exists>q countOk stateOk. pc = Some q \<and> mAutosuspendEnabled s' \<and> (\<forall>w b. q \<noteq> WaitingCounter w b) \<and>
    kernel_log s' = kernel_log s @ (wakeup_count, w, countOk) # (if countOk then [(power_state, kSleepState, stateOk)] else [])"
  using assms
  by (cases ev) (auto simp: suspend_attempt_def hasAliveAutosuspendTokenLocked_def loop_top_def write_file_def Let_def
      split: if_splits)

text \<open>What the thread writes in a suspend attempt: the wakeup count and, if the kernel accepts it, the state.\<close>

definition starts_with_attempt :: "(kernel_file \<times> string \<times> bool) list \<Rightarrow> bool" where
  "starts_with_attempt es \<longleftrightarrow> (\<exists>w ok rest. w \<noteq> [] \<and> es = (wakeup_count, w, ok) # rest \<and>
     (ok \<longrightarrow> (\<exists>stateOk rest'. rest = (power_state, kSleepState, stateOk) # rest')))"

lemma starts_with_attempt_append: "starts_with_attempt es \<Longrightarrow> starts_with_attempt (es @ fs)"
  unfolding starts_with_attempt_def by fastforce

lemma thread_makes_way:
  assumes "may_suspend s" "threads s = [p]" "run_thread lib 0 ev s = Done t"
  shows "may_suspend t \<and> (\<exists>q. threads t = [q] \<and> (\<forall>w b. q \<noteq> WaitingCounter w b) \<and>
    (\<exists>es. kernel_log t = kernel_log s @ es \<and>
      (starts_with_attempt es \<or> es = [] \<and> Suc (attempt_rank q) \<le> attempt_rank p + delay ev)))"
proof -
  from assms(1) have i: "ss_inv s" "counts_ok s" and e: "mAutosuspendEnabled s" "mSuspendCounter s = 0"
    by (simp_all add: may_suspend_def)
  from i(1) assms(3) obtain pc s' where st: "thread_step lib ev p s = Done (pc, s')"
    "t = s'\<lparr>threads := (case pc of None \<Rightarrow> [] | Some q \<Rightarrow> [q])\<rparr>"
    by (rule run_thread_Done) (use assms(2) in simp)
  have c: "counter_ok 0 s" using e by (simp add: counter_ok_def)
  from run_thread_ok(2) [OF i(1) c assms(3)] have t: "ss_inv t" "same_counter s t" by blast+
  have "counts_ok t" by (rule run_thread_count [OF i assms(3)])
  with t e have may: "may_suspend t" if "mAutosuspendEnabled s'"
    using that st(2) by (simp add: may_suspend_def same_counter_def)
  show ?thesis
  proof (cases "\<exists>w. p = LockingTokens w")
    case True
    then obtain w where p: "p = LockingTokens w" by blast
    then have w: "w \<noteq> []" using i(2) assms(2) by (auto simp: counts_ok_def)
    have "mAutosuspendClientTokens s \<noteq> []" using i(1) e(1) by (simp add: ss_inv_def)
    from attempt_step [OF st(1) [unfolded p] this e] obtain q countOk stateOk where
      q: "pc = Some q" "mAutosuspendEnabled s'" "\<forall>w b. q \<noteq> WaitingCounter w b"
      "kernel_log s' = kernel_log s @ (wakeup_count, w, countOk) # (if countOk then [(power_state, kSleepState, stateOk)] else [])"
      by blast
    from may [OF q(2)] q(1,3,4) w st(2) show ?thesis by (auto simp: starts_with_attempt_def)
  next
    case False
    then have "\<And>w. p \<noteq> LockingTokens w" by blast
    from nearer_step [OF st(1) e this] may st(2) show ?thesis by auto
  qed
qed

text \<open>Every step of the thread while autosuspend is disabled brings it nearer to its end.\<close>

lemma disabled_step:
  assumes "thread_step lib ev p s = Done (pc, s')" "\<not> mAutosuspendEnabled s" "mAutosuspendClientTokens s = []"
  shows "kernel_log s' = kernel_log s \<and> \<not> mAutosuspendEnabled s' \<and>
    (case pc of None \<Rightarrow> True | Some q \<Rightarrow> end_rank q < end_rank p)"
  using assms
  by (cases p; cases ev)
    (auto simp: loop_top_def sleep_wakes_def count_read_def counter_wait_def record_suspend_time_def
      record_reasons_def call_wakeup_callbacks_def suspend_attempt_def field_defs Let_def
      split: if_splits option.splits bind_splits prod.splits)

subsection \<open>Runs\<close>

fun sys_run :: "libs \<Rightarrow> (ibinder \<Rightarrow> bool) \<Rightarrow> sys_event list \<Rightarrow> system \<Rightarrow> system outcome" where
  "sys_run lib remote [] y = Done y"
| "sys_run lib remote (e # es) y =
     (case sys_apply lib remote e y of Done y' \<Rightarrow> sys_run lib remote es y' | r \<Rightarrow> r)"

lemma reach_run:
  "reach sys_init (sys_step lib remote) y \<Longrightarrow> sys_run lib remote es y = Done y' \<Longrightarrow>
   reach sys_init (sys_step lib remote) y'"
proof (induction es arbitrary: y)
  case (Cons e es)
  then obtain z where "sys_apply lib remote e y = Done z" "sys_run lib remote es z = Done y'"
    by (auto split: outcome.splits)
  with Cons show ?case by (meson reach_step sys_stepI)
qed simp

text \<open>Runs of the thread alone: they stay defined, can be continued without a further delay, and contain an
  attempt once they are longer than the way to it and its delays.\<close>

lemma thread_continues:
  assumes "may_suspend (sys_suspend y)" "threads (sys_suspend y) = [p]"
  shows "\<exists>y'. sys_apply lib remote (ThreadStep 0 (friendly p)) y = Done y'"
proof -
  obtain r where "thread_step lib (friendly p) p (sys_suspend y) = Done r"
    using friendly_enabled assms by (metis may_suspend_def)
  with assms(2) have "\<exists>t. run_thread lib 0 (friendly p) (sys_suspend y) = Done t"
    by (cases r) (simp add: run_thread_def)
  then show ?thesis by auto
qed

lemma thread_run_defined:
  assumes "may_suspend (sys_suspend y)"
  shows "sys_run lib remote (map (ThreadStep 0) evs) y \<noteq> Undefined"
  using assms
proof (induction evs arbitrary: y)
  case (Cons ev evs)
  obtain p where p: "threads (sys_suspend y) = [p]" using Cons.prems by (rule may_suspend_thread)
  have "counter_ok 0 (sys_suspend y)" "ss_inv (sys_suspend y)"
    using Cons.prems by (simp_all add: counter_ok_def may_suspend_def)
  note run = run_thread_ok(1) [OF this(2,1), of lib 0 ev]
  show ?case
  proof (cases "run_thread lib 0 ev (sys_suspend y)")
    case (Done t)
    with thread_makes_way [OF Cons.prems p] have "may_suspend (sys_suspend (y\<lparr>sys_suspend := t\<rparr>))" by simp
    with Cons.IH Done show ?thesis by simp
  qed (use run in simp_all)
qed simp

lemma thread_run_ends:
  assumes "may_suspend (sys_suspend y)" "sys_run lib remote (map (ThreadStep 0) evs) y = Done y'"
  shows "may_suspend (sys_suspend y') \<and>
    (\<exists>q. threads (sys_suspend y') = [q] \<and> (evs \<noteq> [] \<longrightarrow> (\<forall>w b. q \<noteq> WaitingCounter w b)))"
  using assms
proof (induction evs arbitrary: y)
  case Nil
  then show ?case by (auto elim: may_suspend_thread)
next
  case (Cons ev evs)
  obtain p where p: "threads (sys_suspend y) = [p]" using Cons.prems(1) by (rule may_suspend_thread)
  from Cons.prems(2) obtain t where t: "run_thread lib 0 ev (sys_suspend y) = Done t"
    "sys_run lib remote (map (ThreadStep 0) evs) (y\<lparr>sys_suspend := t\<rparr>) = Done y'"
    by (auto split: outcome.splits)
  note way = thread_makes_way [OF Cons.prems(1) p t(1)]
  then have "may_suspend (sys_suspend (y\<lparr>sys_suspend := t\<rparr>))" by simp
  from Cons.IH [OF this t(2)] way t(2) show ?case by (cases evs) auto
qed

lemma thread_run_log:
  assumes "may_suspend (sys_suspend y)" "sys_run lib remote (map (ThreadStep 0) evs) y = Done y'"
    "threads (sys_suspend y) = [p]"
  shows "\<exists>es. kernel_log (sys_suspend y') = kernel_log (sys_suspend y) @ es \<and>
    (attempt_rank p + sum_list (map delay evs) \<le> length evs \<longrightarrow> starts_with_attempt es)"
  using assms
proof (induction evs arbitrary: y p)
  case Nil
  then show ?case by (cases p) auto
next
  case (Cons ev evs)
  from Cons.prems(2) obtain t where t: "run_thread lib 0 ev (sys_suspend y) = Done t"
    "sys_run lib remote (map (ThreadStep 0) evs) (y\<lparr>sys_suspend := t\<rparr>) = Done y'"
    by (auto split: outcome.splits)
  from thread_makes_way [OF Cons.prems(1,3) t(1)] obtain q es where q: "may_suspend t" "threads t = [q]"
    "kernel_log t = kernel_log (sys_suspend y) @ es"
    "starts_with_attempt es \<or> es = [] \<and> Suc (attempt_rank q) \<le> attempt_rank p + delay ev" by blast
  have "may_suspend (sys_suspend (y\<lparr>sys_suspend := t\<rparr>))" "threads (sys_suspend (y\<lparr>sys_suspend := t\<rparr>)) = [q]"
    using q by simp_all
  from Cons.IH [OF this(1) t(2) this(2)] obtain fs where
    fs: "kernel_log (sys_suspend y') = kernel_log t @ fs"
      "attempt_rank q + sum_list (map delay evs) \<le> length evs \<longrightarrow> starts_with_attempt fs" by auto
  from q(4) fs(2) have "starts_with_attempt (es @ fs)"
    if "attempt_rank p + sum_list (map delay (ev # evs)) \<le> length (ev # evs)"
    using that by (auto simp: starts_with_attempt_append)
  with fs(1) q(3) show ?case by auto
qed

text \<open>A sample configuration and runs: a wake lock is acquired, autosuspend is enabled and reaches the
  wait for the counter; the lock is released and the thread gets on.\<close>

definition sample_libs :: libs where
  "sample_libs = \<lparr>lib_trim = \<lambda>s. s, lib_join = \<lambda>rs sep. concat rs, lib_strtod_other = \<lambda>_. None\<rparr>"

definition sample_start :: system where
  "sample_start = sys_new 4
     \<lparr>baseSleepTime = 100, maxSleepTime = 60000, sleepTimeScaleFactor = 2, backoffThreshold = 0,
      shortSuspendThreshold = 0, failedSuspendBackoffEnabled = True, shortSuspendBackoffEnabled = False\<rparr>
     True 9 (\<lambda>_. 5)"

definition sample_input :: action_input where
  "sample_input = \<lparr>in_ok = True, in_pick = 0, in_time = \<lparr>tv_sec = 1, tv_nsec = 0\<rparr>\<rparr>"

definition sample_waiting :: "sys_event list" where
  "sample_waiting =
     [HidlAcquire ''a'' 7, LockAction 0 sample_input, LockAction 0 sample_input, EnableAutosuspend True 1,
      ThreadStep 0 GetLock, ThreadStep 0 (WaitEnds True), ThreadStep 0 (CountIs ''42''), ThreadStep 0 GetLock]"

definition sample_released :: "sys_event list" where
  "sample_released = sample_waiting @
     [ReleaseLock 0, LockAction 0 sample_input, LockAction 0 sample_input, ThreadStep 0 (WaitEnds False)]"

lemma sample_start_reach: "reach sys_init (sys_step lib remote) sample_start"
proof (rule reach_init)
  show "sys_init sample_start"
    unfolding sys_init_def sample_start_def by ((rule exI)+, rule conjI [rotated], rule refl, simp)
qed

lemma outcome_case_Done:
  "(case r of Done y \<Rightarrow> P y | _ \<Rightarrow> False) \<longleftrightarrow> (\<exists>y. r = Done y \<and> P y)"
  by (cases r) auto

lemma sample_waiting_state:
  "case sys_run sample_libs (\<lambda>_. True) sample_waiting sample_start of
     Done y \<Rightarrow> threads (sys_suspend y) = [WaitingCounter ''42'' False] \<and>
       mUseSuspendCounter (sys_suspend y) \<and> map held (sys_locks y) = [True]
   | _ \<Rightarrow> False"
  by code_simp

lemma sample_released_state:
  "case sys_run sample_libs (\<lambda>_. True) sample_released sample_start of
     Done y \<Rightarrow> threads (sys_suspend y) = [LockingTokens ''42''] \<and> mUseSuspendCounter (sys_suspend y) \<and>
       mAutosuspendEnabled (sys_suspend y) \<and> mSuspendCounter (sys_suspend y) = 0 \<and> counted_locks y = 0 \<and>
       kernel_log (sys_suspend y) = [(wake_unlock, ''zygote_kwl'', True)] \<and>
       (case sys_apply sample_libs (\<lambda>_. True) (ThreadStep 0 (Attempt True True)) y of
          Done y' \<Rightarrow> kernel_log (sys_suspend y') =
            [(wake_unlock, ''zygote_kwl'', True), (wakeup_count, ''42'', True), (power_state, ''mem'', True)]
        | _ \<Rightarrow> False)
   | _ \<Rightarrow> False"
  by code_simp

text \<open>The thread goes on: the kernel refuses the count, then the count cannot be read, then it suspends, and
  the thread sleeps again.\<close>

definition sample_thread_events :: "thread_event list" where
  "sample_thread_events =
     [Attempt False False, CountIs [], GetLock, CountIs ''43'', GetLock, Attempt True True, TimeIs None,
      ReasonsAre None (\<lambda>_. -1), CallsMade, GetLock, WaitEnds False, WaitEnds True]"

lemma sample_thread_run:
  "case sys_run sample_libs (\<lambda>_. True) sample_released sample_start of
     Done y \<Rightarrow> mAutosuspendEnabled (sys_suspend y) \<and> mSuspendCounter (sys_suspend y) = 0 \<and>
       (case sys_run sample_libs (\<lambda>_. True) (map (ThreadStep 0) sample_thread_events) y of
          Done _ \<Rightarrow> True | _ \<Rightarrow> False)
   | _ \<Rightarrow> False"
  by code_simp

lemma sample_disabled_state:
  "case sys_run sample_libs (\<lambda>_. True) (sample_waiting @ [DisableAutosuspend]) sample_start of
     Done y \<Rightarrow> \<not> mAutosuspendEnabled (sys_suspend y) \<and> thread_rank (sys_suspend y) = 1 \<and>
       (case sys_apply sample_libs (\<lambda>_. True) (ThreadStep 0 (WaitEnds False)) y of Done _ \<Rightarrow> True | _ \<Rightarrow> False)
   | _ \<Rightarrow> False"
  by code_simp

text \<open>Without the suspend counter a wake lock is its name in the kernel. Two locks of one name are one
  kernel wakelock: the first release unlocks it while the other lock is held.\<close>

definition kernel_mode_start :: system where
  "kernel_mode_start = sys_new 4
     \<lparr>baseSleepTime = 100, maxSleepTime = 60000, sleepTimeScaleFactor = 2, backoffThreshold = 0,
      shortSuspendThreshold = 0, failedSuspendBackoffEnabled = True, shortSuspendBackoffEnabled = False\<rparr>
     False 9 (\<lambda>_. 5)"

lemma kernel_lock_shared_by_name:
  "case sys_run sample_libs (\<lambda>_. True)
     [AidlAcquire False ''a'' 7, LockAction 0 sample_input, LockAction 0 sample_input,
      AidlAcquire False ''a'' 8, LockAction 1 sample_input, LockAction 1 sample_input,
      ReleaseLock 0, LockAction 0 sample_input, LockAction 0 sample_input] kernel_mode_start of
     Done y \<Rightarrow> map held (sys_locks y) = [False, True] \<and>
       kernel_log (sys_suspend y) = [(wake_lock, ''a'', True), (wake_lock, ''a'', True), (wake_unlock, ''a'', True)]
   | _ \<Rightarrow> False"
  by code_simp

subsection \<open>Properties\<close>

text \<open>C1. Autosuspend never suspends the system while a client holds a wake lock: in any
  interleaving of client calls and the thread, when a step of the thread writes to \<open>/sys/power/state\<close>,
  no wake lock of either front end is held or has even been counted without being released, provided
  fewer wake locks are counted than the 32-bit counter can tell apart.\<close>

theorem no_autosuspend_while_held:
  assumes "reach sys_init (sys_step lib remote) y" "sys_step lib remote y (ThreadStep i ev) y'"
    and "(power_state, d, ok) \<in> set (drop (length (kernel_log (sys_suspend y))) (kernel_log (sys_suspend y')))"
    and "mUseSuspendCounter (sys_suspend y)" "counted_locks y < 2 ^ 32"
  shows "\<not> (\<exists>lk \<in> set (sys_locks y). held lk \<or> counted lk)"
proof -
  have inv: "sys_count_inv y" using assms(1) by (rule count.reach_inv)
  from assms(3) have "kernel_log (sys_suspend y') \<noteq> kernel_log (sys_suspend y)" by auto
  from thread_event_log(2) [OF inv assms(2) this] have "mSuspendCounter (sys_suspend y) = 0" .
  with inv assms(4) have "(of_nat (counted_locks y) :: u32) = 0"
    by (simp add: sys_count_inv_def sys_inv_def counter_ok_def)
  with unat_u32_of_nat [OF assms(5)] have "counted_locks y = 0" by simp
  then have "\<forall>lk \<in> set (sys_locks y). \<not> counted lk" by (simp add: counted_locks_def filter_empty_conv)
  with inv held_counted show ?thesis by (auto simp: sys_count_inv_def sys_inv_def list_all_iff)
qed

theorem no_autosuspend_while_held_witness:
  "\<exists>y y'. reach sys_init (sys_step sample_libs (\<lambda>_. True)) y \<and>
     sys_step sample_libs (\<lambda>_. True) y (ThreadStep 0 (Attempt True True)) y' \<and>
     (power_state, ''mem'', True) \<in> set (kernel_log (sys_suspend y')) \<and>
     \<not> (\<exists>lk \<in> set (sys_locks y). held lk \<or> counted lk)"
proof -
  obtain y y' where y: "sys_run sample_libs (\<lambda>_. True) sample_released sample_start = Done y"
    "mUseSuspendCounter (sys_suspend y)" "counted_locks y = 0"
    "kernel_log (sys_suspend y) = [(wake_unlock, ''zygote_kwl'', True)]"
    "sys_apply sample_libs (\<lambda>_. True) (ThreadStep 0 (Attempt True True)) y = Done y'"
    "kernel_log (sys_suspend y') =
      [(wake_unlock, ''zygote_kwl'', True), (wakeup_count, ''42'', True), (power_state, ''mem'', True)]"
    using sample_released_state unfolding outcome_case_Done by blast
  have r: "reach sys_init (sys_step sample_libs (\<lambda>_. True)) y" by (rule reach_run [OF sample_start_reach y(1)])
  have t: "sys_step sample_libs (\<lambda>_. True) y (ThreadStep 0 (Attempt True True)) y'" by (rule sys_stepI [OF y(5)])
  have n: "\<not> (\<exists>lk \<in> set (sys_locks y). held lk \<or> counted lk)"
    using no_autosuspend_while_held [OF r t, of "''mem''" True] y(2,3,4,6) by simp
  have w: "(power_state, ''mem'', True) \<in> set (kernel_log (sys_suspend y'))" by (simp add: y(6))
  from r t w n show ?thesis by blast
qed

text \<open>C2. The suspend protocol of the thread: whatever a step of the thread writes to the kernel is
  the wakeup count it read last, not empty, and only if the kernel accepts it is \<open>mem\<close> written to
  \<open>/sys/power/state\<close> in the same step, with the lock held throughout, autosuspend enabled and the
  suspend counter zero.\<close>

theorem autosuspend_protocol:
  assumes "reach sys_init (sys_step lib remote) y" "sys_step lib remote y (ThreadStep i ev) y'"
    and "kernel_log (sys_suspend y') \<noteq> kernel_log (sys_suspend y)"
  shows "mAutosuspendEnabled (sys_suspend y) \<and> mSuspendCounter (sys_suspend y) = 0 \<and>
    last_count_read (sys_suspend y) \<noteq> [] \<and>
    (\<exists>stateOk. drop (length (kernel_log (sys_suspend y))) (kernel_log (sys_suspend y')) \<in>
      {[(wakeup_count, last_count_read (sys_suspend y), False)],
       [(wakeup_count, last_count_read (sys_suspend y), True), (power_state, ''mem'', stateOk)]})"
  using thread_event_log [OF count.reach_inv [OF assms(1)] assms(2,3)]
  by (fastforce simp: kSleepState_def split: if_splits)

theorem autosuspend_protocol_witness:
  "\<exists>y y'. reach sys_init (sys_step sample_libs (\<lambda>_. True)) y \<and>
     sys_step sample_libs (\<lambda>_. True) y (ThreadStep 0 (Attempt True True)) y' \<and>
     kernel_log (sys_suspend y') \<noteq> kernel_log (sys_suspend y) \<and> last_count_read (sys_suspend y) \<noteq> []"
proof -
  obtain y y' where y: "sys_run sample_libs (\<lambda>_. True) sample_released sample_start = Done y"
    "sys_apply sample_libs (\<lambda>_. True) (ThreadStep 0 (Attempt True True)) y = Done y'"
    "kernel_log (sys_suspend y') \<noteq> kernel_log (sys_suspend y)"
    using sample_released_state unfolding outcome_case_Done by fastforce
  have r: "reach sys_init (sys_step sample_libs (\<lambda>_. True)) y" by (rule reach_run [OF sample_start_reach y(1)])
  have t: "sys_step sample_libs (\<lambda>_. True) y (ThreadStep 0 (Attempt True True)) y'" by (rule sys_stepI [OF y(2)])
  from autosuspend_protocol [OF r t y(3)] r t y(3) show ?thesis by blast
qed

text \<open>C4. In every reachable state the service can go on without undefined behaviour, there is exactly
  one autosuspend thread if \<open>mAutosuspendThreadCreated\<close> is set and none otherwise, autosuspend is
  enabled exactly while a client token is registered, and then the thread exists; no token is
  registered twice.\<close>

theorem autosuspend_consistent:
  assumes "reach sys_init (sys_step lib remote) y"
  defines "s \<equiv> sys_suspend y"
  shows "sys_apply lib remote e y \<noteq> Undefined \<and>
    length (threads s) = (if mAutosuspendThreadCreated s then 1 else 0) \<and>
    (mAutosuspendEnabled s \<longrightarrow> mAutosuspendThreadCreated s) \<and>
    (mAutosuspendEnabled s \<longleftrightarrow> mAutosuspendClientTokens s \<noteq> []) \<and>
    distinct (mAutosuspendClientTokens s)"
  using sys.reach_inv [OF assms(1)] sys_apply_ok [of y lib remote e]
  unfolding s_def sys_inv_def ss_inv_def by blast

theorem autosuspend_consistent_witness:
  "\<exists>y. reach sys_init (sys_step sample_libs (\<lambda>_. True)) y \<and> threads (sys_suspend y) \<noteq> [] \<and>
     length (threads (sys_suspend y)) = (if mAutosuspendThreadCreated (sys_suspend y) then 1 else 0)"
proof -
  obtain y where y: "sys_run sample_libs (\<lambda>_. True) sample_waiting sample_start = Done y"
    "threads (sys_suspend y) = [WaitingCounter ''42'' False]"
    using sample_waiting_state unfolding outcome_case_Done by blast
  have r: "reach sys_init (sys_step sample_libs (\<lambda>_. True)) y" by (rule reach_run [OF sample_start_reach y(1)])
  have "threads (sys_suspend y) \<noteq> []" by (simp add: y(2))
  with autosuspend_consistent [OF r] r show ?thesis by blast
qed

text \<open>C3. The suspend counter is the number of wake locks that have been counted and not released,
  modulo its 32 bits; a lock that its client holds is among them, one whose release is complete is not,
  and releasing a lock again, or destroying it after its release, changes nothing.\<close>

theorem counter_counts_locks:
  assumes "reach sys_init (sys_step lib remote) y" "mUseSuspendCounter (sys_suspend y)"
    and "i < length (sys_locks y)"
  defines "lk \<equiv> sys_locks y ! i"
  shows "mSuspendCounter (sys_suspend y) = of_nat (length (filter counted (sys_locks y))) \<and>
    (held lk \<longrightarrow> counted lk) \<and>
    (mReleased lk \<and> lk_todo lk = [] \<longrightarrow> \<not> counted lk \<and> sys_apply lib remote (ReleaseLock i) y = Done y)"
proof -
  have inv: "sys_inv y" using assms(1) by (rule sys.reach_inv)
  then have li: "lock_inv lk" using assms(3) by (simp add: sys_inv_def list_all_length lk_def)
  have "\<not> counted lk" if "mReleased lk" "lk_todo lk = []"
  proof -
    from that li have "lk_done lk = acquire_actions (lk_front lk) (mName lk) (mPid lk) @
        release_actions (lk_front lk) (mName lk) (mPid lk)" by (auto simp: lock_inv_def Let_def)
    with front.net_releasing [of "lk_front lk" "mName lk" "mPid lk" "release_actions (lk_front lk) (mName lk) (mPid lk)" "[]"]
      front.release_first [of "lk_front lk" "mName lk" "mPid lk"]
    show ?thesis by (auto simp: counted_def)
  qed
  moreover have "sys_apply lib remote (ReleaseLock i) y = Done y" if "mReleased lk" "lk_todo lk = []"
    using that assms(3) by (simp add: release_step_def releaseOnce_def lk_def)
  ultimately show ?thesis
    using inv assms(2) held_counted [OF li]
    by (auto simp: sys_inv_def counter_ok_def counted_locks_def)
qed

theorem counter_counts_locks_witness:
  "\<exists>y. reach sys_init (sys_step sample_libs (\<lambda>_. True)) y \<and> held (sys_locks y ! 0) \<and> counted (sys_locks y ! 0) \<and>
     mSuspendCounter (sys_suspend y) = of_nat (length (filter counted (sys_locks y)))"
proof -
  obtain y where y: "sys_run sample_libs (\<lambda>_. True) sample_waiting sample_start = Done y"
    "mUseSuspendCounter (sys_suspend y)" "map held (sys_locks y) = [True]"
    using sample_waiting_state unfolding outcome_case_Done by (elim exE conjE) (rule that)
  have r: "reach sys_init (sys_step sample_libs (\<lambda>_. True)) y" by (rule reach_run [OF sample_start_reach y(1)])
  obtain lk where "sys_locks y = [lk]" "held lk" using y(3) by (auto simp: map_eq_Cons_conv)
  then have h: "0 < length (sys_locks y)" "held (sys_locks y ! 0)" by simp_all
  from counter_counts_locks [OF r y(2) h(1)] r h(2) show ?thesis by blast
qed

text \<open>C5. No wake-up is lost: while the thread waits for the suspend counter and has not been
  notified, autosuspend is enabled and some wake lock is still counted; while it sleeps un-notified,
  autosuspend is enabled.\<close>

theorem no_lost_wakeup:
  assumes "reach sys_init (sys_step lib remote) y" "threads (sys_suspend y) = [p]"
    and "p = WaitingCounter w False \<or> p = Sleeping False"
  shows "mAutosuspendEnabled (sys_suspend y) \<and>
    (p = WaitingCounter w False \<longrightarrow> (\<exists>lk \<in> set (sys_locks y). counted lk))"
proof -
  have inv: "sys_inv y" using assms(1) by (rule sys.reach_inv)
  then have "waits_ok (counted_locks y) (sys_suspend y)" by (simp add: sys_inv_def)
  then show ?thesis using assms(2,3)
    by (auto simp: waits_ok_def counted_locks_def filter_empty_conv split: if_splits)
qed

theorem no_lost_wakeup_witness:
  "\<exists>y. reach sys_init (sys_step sample_libs (\<lambda>_. True)) y \<and>
     threads (sys_suspend y) = [WaitingCounter ''42'' False] \<and> (\<exists>lk. lk \<in> set (sys_locks y) \<and> counted lk)"
proof -
  obtain y where y: "sys_run sample_libs (\<lambda>_. True) sample_waiting sample_start = Done y"
    "threads (sys_suspend y) = [WaitingCounter ''42'' False]"
    using sample_waiting_state unfolding outcome_case_Done by blast
  have r: "reach sys_init (sys_step sample_libs (\<lambda>_. True)) y" by (rule reach_run [OF sample_start_reach y(1)])
  with no_lost_wakeup [OF r y(2), of "''42''"] y(2) show ?thesis by blast
qed

text \<open>C6. From every reachable state with autosuspend enabled and the counter at zero, and as long as no
  client calls in between, the steps of the autosuspend thread lead to a suspend attempt whatever the kernel
  answers: a run of the thread is never undefined, it can always be continued without a new delay, and if it has
  at least eight steps, three more for each time the wakeup count could not be read and one more for each wake-up
  before the timeout, then the first thing it writes is a non-empty wakeup count, followed by \<open>mem\<close> to
  \<open>/sys/power/state\<close> if the kernel accepts the count.\<close>

theorem autosuspend_attempt_follows:
  assumes "reach sys_init (sys_step lib remote) y"
    and "mAutosuspendEnabled (sys_suspend y)" "mSuspendCounter (sys_suspend y) = 0"
  shows "sys_run lib remote (map (ThreadStep 0) evs) y \<noteq> Undefined \<and>
    (\<forall>y'. sys_run lib remote (map (ThreadStep 0) evs) y = Done y' \<longrightarrow>
      (\<exists>ev y''. sys_apply lib remote (ThreadStep 0 ev) y' = Done y'' \<and> (evs = [] \<or> delay ev = 0)) \<and>
      (8 + sum_list (map delay evs) \<le> length evs \<longrightarrow>
        (\<exists>w ok rest. kernel_log (sys_suspend y') = kernel_log (sys_suspend y) @ (wakeup_count, w, ok) # rest \<and> w \<noteq> [] \<and>
          (ok \<longrightarrow> (\<exists>stateOk rest'. rest = (power_state, ''mem'', stateOk) # rest')))))"
proof -
  have may: "may_suspend (sys_suspend y)"
    using count.reach_inv [OF assms(1)] assms(2,3) by (simp add: may_suspend_def sys_count_inv_def sys_inv_def)
  then obtain p where p: "threads (sys_suspend y) = [p]" by (rule may_suspend_thread)
  have next_step: "\<exists>ev y''. sys_apply lib remote (ThreadStep 0 ev) y' = Done y'' \<and> (evs = [] \<or> delay ev = 0)"
    and attempt: "8 + sum_list (map delay evs) \<le> length evs \<Longrightarrow>
      \<exists>es. kernel_log (sys_suspend y') = kernel_log (sys_suspend y) @ es \<and> starts_with_attempt es"
    if run: "sys_run lib remote (map (ThreadStep 0) evs) y = Done y'" for y'
  proof -
    from thread_run_ends [OF may run] obtain q where q: "may_suspend (sys_suspend y')" "threads (sys_suspend y') = [q]"
      "evs \<noteq> [] \<longrightarrow> (\<forall>w b. q \<noteq> WaitingCounter w b)" by blast
    from thread_continues [OF q(1,2)] q(3) delay_friendly [of q]
    show "\<exists>ev y''. sys_apply lib remote (ThreadStep 0 ev) y' = Done y'' \<and> (evs = [] \<or> delay ev = 0)" by blast
    show "8 + sum_list (map delay evs) \<le> length evs \<Longrightarrow>
      \<exists>es. kernel_log (sys_suspend y') = kernel_log (sys_suspend y) @ es \<and> starts_with_attempt es"
      using thread_run_log [OF may run p] attempt_rank_le [of p] by force
  qed
  show ?thesis
    using thread_run_defined [OF may] next_step attempt
    unfolding starts_with_attempt_def kSleepState_def by blast
qed

theorem autosuspend_attempt_follows_witness:
  "\<exists>y y' w ok rest. reach sys_init (sys_step sample_libs (\<lambda>_. True)) y \<and>
     sys_run sample_libs (\<lambda>_. True) (map (ThreadStep 0) sample_thread_events) y = Done y' \<and>
     kernel_log (sys_suspend y') = kernel_log (sys_suspend y) @ (wakeup_count, w, ok) # rest \<and> w \<noteq> []"
proof -
  obtain y y' where y: "sys_run sample_libs (\<lambda>_. True) sample_released sample_start = Done y"
    "mAutosuspendEnabled (sys_suspend y)" "mSuspendCounter (sys_suspend y) = 0"
    "sys_run sample_libs (\<lambda>_. True) (map (ThreadStep 0) sample_thread_events) y = Done y'"
    using sample_thread_run unfolding outcome_case_Done by blast
  have r: "reach sys_init (sys_step sample_libs (\<lambda>_. True)) y" by (rule reach_run [OF sample_start_reach y(1)])
  have "8 + sum_list (map delay sample_thread_events) \<le> length sample_thread_events"
    by (simp add: sample_thread_events_def)
  with autosuspend_attempt_follows [OF r y(2,3), of sample_thread_events] y(4) r show ?thesis by blast
qed

text \<open>C7. Disabling autosuspend ends the thread: as long as it stays disabled, every step of the
  thread, whatever the kernel answers, writes nothing and lowers a rank that is at most four and is zero
  only when the thread has ended; and while the thread exists, a step is possible.\<close>

theorem disabled_thread_ends:
  assumes "reach sys_init (sys_step lib remote) y" "\<not> mAutosuspendEnabled (sys_suspend y)"
    and "sys_step lib remote y (ThreadStep i ev) y'"
  shows "kernel_log (sys_suspend y') = kernel_log (sys_suspend y) \<and> \<not> mAutosuspendEnabled (sys_suspend y') \<and>
    thread_rank (sys_suspend y') < thread_rank (sys_suspend y) \<and> thread_rank (sys_suspend y) \<le> 4 \<and>
    (thread_rank (sys_suspend y') = 0 \<longleftrightarrow> threads (sys_suspend y') = []) \<and>
    (threads (sys_suspend y') \<noteq> [] \<longrightarrow> (\<exists>ev' y''. sys_step lib remote y' (ThreadStep 0 ev') y''))"
proof -
  have inv: "sys_count_inv y" using assms(1) by (rule count.reach_inv)
  then have inv': "sys_count_inv y'" using assms(3) by (rule count.inv_kept)
  from inv assms(3) obtain p pc s' where p: "threads (sys_suspend y) = [p]"
    "thread_step lib ev p (sys_suspend y) = Done (pc, s')"
    "y' = y\<lparr>sys_suspend := s'\<lparr>threads := (case pc of None \<Rightarrow> [] | Some q \<Rightarrow> [q])\<rparr>\<rparr>"
    by (rule thread_event_Done)
  have "mAutosuspendClientTokens (sys_suspend y) = []"
    using inv assms(2) by (simp add: sys_count_inv_def sys_inv_def ss_inv_def)
  note step = disabled_step [OF p(2) assms(2) this]
  have ss: "ss_inv (sys_suspend y')" using inv' by (simp add: sys_count_inv_def sys_inv_def)
  have "\<exists>ev' y''. sys_step lib remote y' (ThreadStep 0 ev') y''" if q: "threads (sys_suspend y') = [q]" for q
  proof -
    obtain r where "thread_step lib (friendly q) q (sys_suspend y') = Done r"
      using friendly_enabled [OF ss q] by blast
    with q have "\<exists>t. run_thread lib 0 (friendly q) (sys_suspend y') = Done t"
      by (cases r) (simp add: run_thread_def)
    then show ?thesis by (auto simp: sys_step_iff intro!: exI [of _ "friendly q"])
  qed
  with step p end_rank_bounds show ?thesis
    by (cases pc) (auto simp: thread_rank_def Suc_le_eq)
qed

theorem disabled_thread_ends_witness:
  "\<exists>y y'. reach sys_init (sys_step sample_libs (\<lambda>_. True)) y \<and>
     sys_step sample_libs (\<lambda>_. True) y (ThreadStep 0 (WaitEnds False)) y' \<and> threads (sys_suspend y') = []"
proof -
  obtain y y' where y: "sys_run sample_libs (\<lambda>_. True) (sample_waiting @ [DisableAutosuspend]) sample_start = Done y"
    "\<not> mAutosuspendEnabled (sys_suspend y)" "thread_rank (sys_suspend y) = 1"
    "sys_apply sample_libs (\<lambda>_. True) (ThreadStep 0 (WaitEnds False)) y = Done y'"
    using sample_disabled_state unfolding outcome_case_Done by blast
  have r: "reach sys_init (sys_step sample_libs (\<lambda>_. True)) y" by (rule reach_run [OF sample_start_reach y(1)])
  have t: "sys_step sample_libs (\<lambda>_. True) y (ThreadStep 0 (WaitEnds False)) y'" by (rule sys_stepI [OF y(4)])
  from disabled_thread_ends [OF r y(2) t] y(3) r t show ?thesis by auto
qed

end
