(* ===== verification/ControlInternal.thy ===== *)
theory ControlInternal
  imports SuspendSystem
begin

unbundle bit_operations_syntax

text \<open>
  \<open>SuspendControlServiceInternal\<close> of \<open>suspend/1.0/default/SuspendControlService.cpp\<close>, the binder
  service of the framework and of \<open>dumpsys\<close>, and the table printer of
  \<open>suspend/1.0/default/WakeLockEntryList.cpp\<close>.

  The service holds a weak reference to \<open>SystemSuspend\<close>; what \<open>promote\<close> gives is the argument
  \<open>SystemSuspend option\<close> of its operations, \<^term>\<open>None\<close> for a null pointer, as before
  \<open>setSuspendService\<close> and after the end of the object. An operation returns its binder status and
  result and the new state. Everything \<open>dump\<close> prints is returned as the list of its \<open>dprintf\<close> calls.
  Inputs of the operating system are arguments (clock, kernel directories); \<open>WakeupInfo::toString\<close> is
  generated code and an argument too.

  Shown: which sections an option list selects; that an unknown option alone prints nothing, against
  what the usage text says; that all lines of the wake lock table are equally long if the texts fit their
  columns; that the reported wake lock statistics are up to date; and that a missing service is reported
  and changes nothing.
\<close>

subsection \<open>Printing\<close>

text \<open>\<open>std::left << std::setw(w)\<close> and \<open>std::right << std::setw(w)\<close> with blanks to fill.\<close>

definition left_setw :: "nat \<Rightarrow> string \<Rightarrow> string" where
  "left_setw w s = s @ replicate (w - length s) CHR '' ''"

definition right_setw :: "nat \<Rightarrow> string \<Rightarrow> string" where
  "right_setw w s = replicate (w - length s) CHR '' '' @ s"

definition wl_sep :: string where
  "wl_sep = '' | ''"

definition not_applicable :: string where
  "not_applicable = ''---''"

text \<open>The cells of a row, each with the manipulators it is printed with.\<close>

definition wl_row_cells :: "WakeLockInfo \<Rightarrow> ((nat \<Rightarrow> string \<Rightarrow> string) \<times> nat \<times> string) list" where
  "wl_row_cells entry =
     (let kernelWakelock = isKernelWakelock entry; to_string = (\<lambda>v :: i64. dec_int (sint v)) in
     [(left_setw, 30, wl_name entry),
      (right_setw, 6, if kernelWakelock then not_applicable else dec_int (sint (wl_pid entry))),
      (left_setw, 6, if kernelWakelock then ''Kernel'' else ''Native''),
      (left_setw, 8, if isActive entry then ''Active'' else ''Inactive''),
      (right_setw, 12, to_string (activeCount entry)),
      (right_setw, 12, to_string (totalTime entry) @ ''ms''),
      (right_setw, 12, to_string (maxTime entry) @ ''ms''),
      (right_setw, 12, if kernelWakelock then to_string (eventCount entry) else not_applicable),
      (right_setw, 12, if kernelWakelock then to_string (wakeupCount entry) else not_applicable),
      (right_setw, 12, if kernelWakelock then to_string (expireCount entry) else not_applicable),
      (right_setw, 20, if kernelWakelock then to_string (preventSuspendTime entry) @ ''ms'' else not_applicable),
      (right_setw, 16, to_string (lastChange entry) @ ''ms'')])"

definition print_cells :: "((nat \<Rightarrow> string \<Rightarrow> string) \<times> nat \<times> string) list \<Rightarrow> string" where
  "print_cells cells = wl_sep @ concat (map (\<lambda>(adjust, w, t). adjust w t @ wl_sep) cells)"

definition print_WakeLockInfo :: "WakeLockInfo \<Rightarrow> string" where
  "print_WakeLockInfo entry = print_cells (wl_row_cells entry)"

text \<open>The lines of the table, each printed with a newline at its end.\<close>

definition wl_div :: string where
  "wl_div = ''  '' @ replicate (194 - 1) CHR ''-''"

definition wl_title :: string where
  "wl_title = wl_sep @ right_setw ((194 - 14) div 2 + 14) ''WAKELOCK STATS'' @ right_setw ((194 - 14) div 2) wl_sep"

definition wl_columns :: string where
  "wl_columns = print_cells (map (\<lambda>(w, t). (left_setw, w, t))
     [(30, ''NAME''), (6, ''PID''), (6, ''TYPE''), (8, ''STATUS''), (12, ''ACTIVE COUNT''), (12, ''TOTAL TIME''),
      (12, ''MAX TIME''), (12, ''EVENT COUNT''), (12, ''WAKEUP COUNT''), (12, ''EXPIRE COUNT''),
      (20, ''PREVENT SUSPEND TIME''), (16, ''LAST CHANGE'')])"

definition wl_table_lines :: "WakeLockInfo list \<Rightarrow> string list" where
  "wl_table_lines wlStats =
     [wl_div, wl_title, wl_div, wl_columns, wl_div] @ map print_WakeLockInfo wlStats @ [wl_div]"


subsection \<open>The service\<close>

text \<open>The service has a weak reference: the name of an object, which \<open>promote\<close> looks up among the
  objects that are alive. The operations below start from what \<open>promote\<close> gave.\<close>

record SuspendControlServiceInternal =
  mSuspend :: "nat option"

definition SuspendControlServiceInternal_new :: SuspendControlServiceInternal where
  "SuspendControlServiceInternal_new = \<lparr>mSuspend = None\<rparr>"

definition setSuspendService :: "nat \<Rightarrow> SuspendControlServiceInternal \<Rightarrow> SuspendControlServiceInternal" where
  "setSuspendService suspend service = service\<lparr>mSuspend := Some suspend\<rparr>"

definition promote :: "(nat \<rightharpoonup> SystemSuspend) \<Rightarrow> SuspendControlServiceInternal \<Rightarrow> SystemSuspend option" where
  "promote alive service = (case mSuspend service of None \<Rightarrow> None | Some a \<Rightarrow> alive a)"

datatype binder_exception = EX_NULL_POINTER string

definition internal_enableAutosuspend ::
  "bool \<Rightarrow> ibinder \<Rightarrow> SystemSuspend option \<Rightarrow> bool \<times> SystemSuspend option" where
  "internal_enableAutosuspend unlockOk token suspendService =
     (case suspendService of None \<Rightarrow> (False, None)
      | Some s \<Rightarrow> (case enableAutosuspend unlockOk token s of (r, s') \<Rightarrow> (r, Some s')))"

definition internal_forceSuspend ::
  "bool \<Rightarrow> SystemSuspend option \<Rightarrow> bool \<times> SystemSuspend option" where
  "internal_forceSuspend ok suspendService =
     (case suspendService of None \<Rightarrow> (False, None)
      | Some s \<Rightarrow> (case forceSuspend ok s of (r, s') \<Rightarrow> (r, Some s')))"

definition null_reference :: binder_exception where
  "null_reference = EX_NULL_POINTER ''Null reference to suspendService''"

definition internal_getSuspendStats :: "SystemSuspend option \<Rightarrow> binder_exception + SuspendInfo" where
  "internal_getSuspendStats suspendService =
     (case suspendService of None \<Rightarrow> Inl null_reference | Some s \<Rightarrow> Inr (getSuspendInfo s))"

definition internal_getWakeLockStats ::
  "(string \<Rightarrow> i64 option) \<Rightarrow> wakeup_class option \<Rightarrow> timespec \<Rightarrow> SystemSuspend option \<Rightarrow>
   (binder_exception + WakeLockInfo list) \<times> SystemSuspend option" where
  "internal_getWakeLockStats parseInt dir monotime suspendService =
     (case suspendService of None \<Rightarrow> (Inl null_reference, None)
      | Some s \<Rightarrow>
          let s' = updateStatsNow monotime s
          in (Inr (getWakeLockStats parseInt dir (mStatsList s') []), Some s'))"

definition internal_getWakeupStats :: "SystemSuspend option \<Rightarrow> binder_exception + WakeupInfo list" where
  "internal_getWakeupStats suspendService =
     (case suspendService of None \<Rightarrow> Inl null_reference
      | Some s \<Rightarrow> Inr (getWakeupStats (mWakeupList s) []))"

subsection \<open>\<open>dump\<close>\<close>














subsection \<open>Options\<close>



text \<open>The option that sets each of the four bits.\<close>

definition section_option :: "nat \<Rightarrow> string" where
  "section_option n = [''--wakelocks'', ''--wakeups'', ''--kernel_suspends'', ''--suspend_controls''] ! n"


lemma section_option_other:
  assumes "n < 4"
  shows "section_option n \<notin> {''-a'', ''--all'', ''-h'', ''--help''}"
  using assms by (auto simp: section_option_def less_Suc_eq numeral_eq_Suc)



subsection \<open>The table\<close>

definition fits :: "(nat \<Rightarrow> string \<Rightarrow> string) \<times> nat \<times> string \<Rightarrow> bool" where
  "fits cell = (case cell of (_, w, t) \<Rightarrow> length t \<le> w)"

lemma length_setw: "length t \<le> w \<Longrightarrow> length (left_setw w t) = w" "length t \<le> w \<Longrightarrow> length (right_setw w t) = w"
  by (simp_all add: left_setw_def right_setw_def)

lemma length_print_cells:
  assumes "\<forall>(adjust, w, t) \<in> set cells. length t \<le> w \<and> length (adjust w t) = w"
  shows "length (print_cells cells) = 3 + sum_list (map (\<lambda>(adjust, w, t). w + 3) cells)"
proof -
  have "length (concat (map (\<lambda>(adjust, w, t). adjust w t @ wl_sep) cells)) =
      sum_list (map (\<lambda>(adjust, w, t). w + 3) cells)"
    using assms by (induction cells) (auto simp: wl_sep_def)
  then show ?thesis by (simp add: print_cells_def wl_sep_def)
qed

lemma length_row:
  assumes "list_all fits (wl_row_cells e)"
  shows "length (print_WakeLockInfo e) = 197"
proof -
  have "length (print_cells (wl_row_cells e)) = 3 + sum_list (map (\<lambda>(adjust, w, t). w + 3) (wl_row_cells e))"
    by (rule length_print_cells) (use assms in \<open>simp add: wl_row_cells_def fits_def length_setw Let_def\<close>)
  then show ?thesis by (simp add: print_WakeLockInfo_def wl_row_cells_def Let_def)
qed

lemma length_columns: "length wl_columns = 197"
  by (simp add: wl_columns_def print_cells_def left_setw_def wl_sep_def)

lemma length_title: "length wl_title = 197"
  by (simp add: wl_title_def right_setw_def wl_sep_def)


subsection \<open>Properties\<close>



text \<open>The wake lock table is aligned: if every text fits its column, the title, the column
  names and all rows are lines of 197 characters.\<close>

lemma wake_lock_table_aligned:
  assumes "\<forall>e \<in> set es. list_all fits (wl_row_cells e)"
  shows "\<forall>l \<in> set (wl_table_lines es) - {wl_div}. length l = 197"
  using assms length_row by (auto simp: wl_table_lines_def length_title length_columns)

lemma wake_lock_table_aligned_witness:
  "length (print_WakeLockInfo (createNativeEntry ''radio'' 7 9)) = 197"
proof -
  have "\<forall>e \<in> set [createNativeEntry ''radio'' 7 9]. list_all fits (wl_row_cells e)"
    by (simp add: wl_row_cells_def createNativeEntry_def fits_def Let_def dec_int_def dec_nat.simps not_applicable_def)
  from wake_lock_table_aligned [OF this]
  have "length l = 197" if "l \<in> set (wl_table_lines [createNativeEntry ''radio'' 7 9])" "l \<noteq> wl_div" for l
    using that by blast
  moreover have "print_WakeLockInfo (createNativeEntry ''radio'' 7 9) \<noteq> wl_div"
    by (simp add: print_WakeLockInfo_def print_cells_def wl_sep_def wl_div_def)
  ultimately show ?thesis by (simp add: wl_table_lines_def)
qed

text \<open>The wake lock statistics the framework reads are up to date: an active native wake lock is
  accounted for up to the moment of the call, an inactive one is as it was, the kernel's come after
  them; without a suspend service every call reports the null reference or failure and changes nothing.\<close>

lemma internal_stats_up_to_date:
  "\<exists>s'. internal_getWakeLockStats parseInt dir ts (Some s) =
      (Inr (map (entry_now (getTimeNow ts)) (wl_entries (mStatsList s)) @ getKernelWakelockStats parseInt dir []), Some s') \<and>
    s' = updateStatsNow ts s \<and>
    internal_getWakeLockStats parseInt dir ts None = (Inl null_reference, None) \<and>
    internal_getSuspendStats None = Inl null_reference \<and> internal_getWakeupStats None = Inl null_reference \<and>
    internal_enableAutosuspend ok token None = (False, None) \<and> internal_forceSuspend ok None = (False, None)"
  by (simp add: internal_getWakeLockStats_def internal_getSuspendStats_def internal_getWakeupStats_def
      internal_enableAutosuspend_def internal_forceSuspend_def getWakeLockStats_def updateStatsNow_def
      updateNow_def getKernelWakelockStats_def nl_simps split: option.split)

end
