(* ===== verification/SuspendMain.thy ===== *)
theory SuspendMain
  imports ControlInternal
begin

text \<open>
  \<open>main\<close> of \<open>suspend/1.0/default/main.cpp\<close>: the files it opens and what it does if some are missing,
  the sleep time configuration from the system properties, and the order in which the services are
  created and registered. Arguments: what \<open>open\<close> and \<open>Socketpair\<close> give, the values of the
  properties (\<^term>\<open>None\<close> if not set), and whether each registration succeeds. A failed registration of
  a binder or AIDL service ends the process; the HIDL service is optional.

  Shown: the service that \<open>main\<close> starts is an initial state of the suspend system, with the suspend counter
  in use, and with no property set its sleep time follows the backoff formula with the default values in
  every state it can get to.
\<close>

definition kStatsCapacity :: nat where
  "kStatsCapacity = 1000"

definition kSysClassWakeup :: string where
  "kSysClassWakeup = ''/sys/class/wakeup''"

definition kSysPowerSuspendStats :: string where
  "kSysPowerSuspendStats = ''/sys/power/suspend_stats''"

definition kSysPowerWakeupCount :: string where
  "kSysPowerWakeupCount = ''/sys/power/wakeup_count''"

definition kSysPowerState :: string where
  "kSysPowerState = ''/sys/power/state''"

definition kSysKernelWakeupReasons :: string where
  "kSysKernelWakeupReasons = ''/sys/kernel/wakeup_reasons/last_resume_reason''"

definition kSysKernelSuspendTime :: string where
  "kSysKernelSuspendTime = ''/sys/kernel/wakeup_reasons/last_suspend_time''"

definition kDefaultMaxSleepTimeMillis :: u32 where
  "kDefaultMaxSleepTimeMillis = 500"

definition kDefaultBaseSleepTimeMillis :: u32 where
  "kDefaultBaseSleepTimeMillis = 10"

definition kDefaultSleepTimeScaleFactor :: rat where
  "kDefaultSleepTimeScaleFactor = 2"

definition kDefaultBackoffThresholdCount :: u32 where
  "kDefaultBackoffThresholdCount = 1"

definition kDefaultShortSuspendThresholdMillis :: u32 where
  "kDefaultShortSuspendThresholdMillis = 50"

definition kDefaultFailedSuspendBackoffEnabled :: bool where
  "kDefaultFailedSuspendBackoffEnabled = True"

definition kDefaultShortSuspendBackoffEnabled :: bool where
  "kDefaultShortSuspendBackoffEnabled = True"

lemmas kDefault_defs =
  kDefaultMaxSleepTimeMillis_def kDefaultBaseSleepTimeMillis_def kDefaultSleepTimeScaleFactor_def
  kDefaultBackoffThresholdCount_def kDefaultShortSuspendThresholdMillis_def
  kDefaultFailedSuspendBackoffEnabled_def kDefaultShortSuspendBackoffEnabled_def

record suspend_properties =
  base_sleep_time_millis :: "u32 option"
  max_sleep_time_millis :: "u32 option"
  sleep_time_scale_factor :: "rat option"
  backoff_threshold_count :: "u32 option"
  short_suspend_threshold_millis :: "u32 option"
  failed_suspend_backoff_enabled :: "bool option"
  short_suspend_backoff_enabled :: "bool option"

definition value_or :: "'a option \<Rightarrow> 'a \<Rightarrow> 'a" where
  "value_or v d = (case v of Some x \<Rightarrow> x | None \<Rightarrow> d)"

definition main_config :: "suspend_properties \<Rightarrow> SleepTimeConfig" where
  "main_config props =
     \<lparr>baseSleepTime = uint (value_or (base_sleep_time_millis props) kDefaultBaseSleepTimeMillis),
      maxSleepTime = uint (value_or (max_sleep_time_millis props) kDefaultMaxSleepTimeMillis),
      sleepTimeScaleFactor = value_or (sleep_time_scale_factor props) kDefaultSleepTimeScaleFactor,
      backoffThreshold = value_or (backoff_threshold_count props) kDefaultBackoffThresholdCount,
      shortSuspendThreshold = uint (value_or (short_suspend_threshold_millis props) kDefaultShortSuspendThresholdMillis),
      failedSuspendBackoffEnabled = value_or (failed_suspend_backoff_enabled props) kDefaultFailedSuspendBackoffEnabled,
      shortSuspendBackoffEnabled = value_or (short_suspend_backoff_enabled props) kDefaultShortSuspendBackoffEnabled\<rparr>"

text \<open>The descriptors, in the order they are opened; a pair of sockets replaces the two files that
  suspending needs if one of them is missing.\<close>

record main_fds =
  wakeupCountFd :: int
  stateFd :: int
  kernelWakelockStatsFd :: int
  suspendStatsFd :: int
  wakeupReasonsFd :: int
  suspendTimeFd :: int

definition open_fds :: "(string \<Rightarrow> int) \<Rightarrow> (int \<times> int) option \<Rightarrow> main_fds" where
  "open_fds open_file socketpair =
     (let fds = \<lparr>wakeupCountFd = open_file kSysPowerWakeupCount, stateFd = open_file kSysPowerState,
                 kernelWakelockStatsFd = open_file kSysClassWakeup,
                 suspendStatsFd = open_file kSysPowerSuspendStats,
                 wakeupReasonsFd = open_file kSysKernelWakeupReasons,
                 suspendTimeFd = open_file kSysKernelSuspendTime\<rparr>
      in if wakeupCountFd fds < 0 \<or> stateFd fds < 0
         then (case socketpair of None \<Rightarrow> fds | Some (a, b) \<Rightarrow> fds\<lparr>wakeupCountFd := a, stateFd := b\<rparr>)
         else fds)"

record registrations =
  addControl :: bool
  addInternal :: bool
  addAidl :: bool
  addHidl :: bool

datatype service = SuspendControl | SuspendControlInternal | SuspendAidl | SuspendHidl

datatype main_result = Fatal string | Joined system main_fds "service list"

definition main ::
  "(string \<Rightarrow> int) \<Rightarrow> (int \<times> int) option \<Rightarrow> suspend_properties \<Rightarrow> registrations \<Rightarrow> main_result" where
  "main open_file socketpair props reg =
     (let fds = open_fds open_file socketpair; sleepTimeConfig = main_config props in
      if \<not> addControl reg then Fatal ''Unable to register suspend_control service: ''
      else if \<not> addInternal reg then Fatal ''Unable to register suspend_control_internal service: ''
      else
        let suspend = sys_new kStatsCapacity sleepTimeConfig True (wakeupReasonsFd fds) open_file
        in if \<not> addAidl reg then Fatal ''Unable to register system-suspend AIDL service: ''
           else Joined suspend fds ([SuspendControl, SuspendControlInternal, SuspendAidl] @
                  (if addHidl reg then [SuspendHidl] else [])))"

subsection \<open>The sleep time of the running service\<close>

text \<open>A step either leaves the sleep state alone or records one attempt.\<close>

definition sleep_step :: "SystemSuspend \<Rightarrow> SystemSuspend \<Rightarrow> bool" where
  "sleep_step s t \<longleftrightarrow> kSleepTimeConfig t = kSleepTimeConfig s \<and> mUseSuspendCounter t = mUseSuspendCounter s \<and>
     (mSleep t = mSleep s \<or> (\<exists>ok st. mSleep t = updateSleepTime (kSleepTimeConfig s) ok st (mSleep s)))"

lemma sleep_step_refl [simp]: "sleep_step s s"
  by (simp add: sleep_step_def)

lemma calls_sleep:
  "sleep_step s (snd (enableAutosuspend ok token s))" "sleep_step s (disableAutosuspendLocked s)"
  "sleep_step s (disableAutosuspend s)"
  "sleep_step s (snd (forceSuspend ok s))" "sleep_step s (updateStatsNow ts s)"
  "sleep_step s (incSuspendCounter ok name s)" "sleep_step s (decSuspendCounter ok pick name s)"
  "sleep_step s (s\<lparr>mControlService := c\<rparr>)" "sleep_step s (write_file f d ok s)"
  by (simp_all add: sleep_step_def incSuspendCounter_def decSuspendCounter_def notify_one_def field_defs Let_def)

lemma do_action_sleep:
  assumes "do_action inp a s = Some t"
  shows "sleep_step s t"
proof (cases "counter_change a = 0")
  case True
  with assms show ?thesis
    by (cases a) (auto simp: updateWakeLockStatOnAcquire_def updateWakeLockStatOnRelease_def sleep_step_def
        split: bind_splits prod.splits)
next
  case False
  with assms calls_sleep(6,7) [of s] show ?thesis by (cases a) auto
qed

lemma thread_step_sleep:
  assumes "thread_step lib ev p s = Done r"
  shows "sleep_step s (snd r)"
proof -
  have top: "sleep_step s (snd (loop_top b s))" for b by (simp add: loop_top_def sleep_step_def)
  have parts: "sleep_step s (snd (counter_wait w s))" "sleep_step s (snd (count_read b w s))"
    "sleep_step s (snd (sleep_wakes b s))" for w b
    by (simp_all add: top counter_wait_def count_read_def sleep_wakes_def)
  have calls: "sleep_step s (snd (call_wakeup_callbacks b rs s))" "sleep_step s (s\<lparr>last_count_read := w\<rparr>)" for b w rs
    by (simp_all add: call_wakeup_callbacks_def sleep_step_def split: prod.split)
  have time: "sleep_step s (snd (record_suspend_time lib b c s))" for b c
    by (auto simp: record_suspend_time_def sleep_step_def Let_def)
  have reasons: "sleep_step s (snd x)" if "record_reasons lib ok c op s = Some x" for ok c op x
    using that by (auto simp: record_reasons_def sleep_step_def Let_def split: bind_splits if_splits)
  have attempt: "sleep_step s (snd (suspend_attempt w a b s))" for w a b
    by (simp add: suspend_attempt_def loop_top_def sleep_step_def field_defs Let_def)
  show ?thesis
    using assms
    by (cases p; cases ev) (auto simp: top parts calls time attempt reasons split: option.splits if_splits)
qed

lemma run_thread_sleep:
  assumes "run_thread lib i ev s = Done t"
  shows "sleep_step s t"
proof -
  from assms obtain pc s' where "thread_step lib ev (threads s ! i) s = Done (pc, s')"
    "kSleepTimeConfig t = kSleepTimeConfig s'" "mUseSuspendCounter t = mUseSuspendCounter s'" "mSleep t = mSleep s'"
    by (auto simp: run_thread_def split: if_splits outcome.splits option.splits)
  with thread_step_sleep [of lib ev "threads s ! i" s "(pc, s')"] show ?thesis by (simp add: sleep_step_def)
qed

lemma sys_apply_sleep:
  assumes "sys_apply lib remote e y = Done z"
  shows "sleep_step (sys_suspend y) (sys_suspend z)"
proof (cases e)
  case (LockAction i inp)
  with assms show ?thesis
    by (auto simp: lock_step_def Let_def split: if_splits list.splits option.splits dest: do_action_sleep)
next
  case (ThreadStep i ev)
  with assms show ?thesis by (auto split: outcome.splits dest: run_thread_sleep)
qed (use assms calls_sleep in \<open>auto simp: map_suspend_def release_step_def split: sum.splits if_splits\<close>)

lemma sys_run_sleep:
  assumes "sys_run lib remote es y = Done z"
  shows "\<exists>as. length as \<le> length es \<and> kSleepTimeConfig (sys_suspend z) = kSleepTimeConfig (sys_suspend y) \<and>
    mUseSuspendCounter (sys_suspend z) = mUseSuspendCounter (sys_suspend y) \<and>
    mSleep (sys_suspend z) = sleep_run (kSleepTimeConfig (sys_suspend y)) as (mSleep (sys_suspend y))"
  using assms
proof (induction es arbitrary: y)
  case Nil
  then show ?case by (auto simp: sleep_run_def)
next
  case (Cons e es)
  then obtain x where x: "sys_apply lib remote e y = Done x" "sys_run lib remote es x = Done z"
    by (auto split: outcome.splits)
  note step = sys_apply_sleep [OF x(1)]
  from Cons.IH [OF x(2)] obtain as where as: "length as \<le> length es"
    "kSleepTimeConfig (sys_suspend z) = kSleepTimeConfig (sys_suspend x)"
    "mUseSuspendCounter (sys_suspend z) = mUseSuspendCounter (sys_suspend x)"
    "mSleep (sys_suspend z) = sleep_run (kSleepTimeConfig (sys_suspend x)) as (mSleep (sys_suspend x))" by blast
  show ?case
  proof (cases "mSleep (sys_suspend x) = mSleep (sys_suspend y)")
    case True
    with as step show ?thesis by (intro exI [of _ as]) (simp add: sleep_step_def)
  next
    case False
    with step obtain ok st where "mSleep (sys_suspend x) =
        updateSleepTime (kSleepTimeConfig (sys_suspend y)) ok st (mSleep (sys_suspend y))"
      by (auto simp: sleep_step_def)
    with as step show ?thesis
      by (intro exI [of _ "(ok, st) # as"]) (simp add: sleep_step_def sleep_run_def)
  qed
qed

subsection \<open>Properties\<close>

text \<open>C36. If every required service registers, \<open>main\<close> ends up serving a system that is in an initial
  state and uses the suspend counter; with no property set, in every state that system gets to, the sleep
  state comes from some history of attempts, and the sleep time is that of the documented formula for the
  number \<open>n\<close> of bad attempts that history ends with: 10 ms up to the first, then doubled for every further
  one, and at most 500 ms.\<close>

theorem main_default_service:
  assumes "addControl reg" "addInternal reg" "addAidl reg"
    and "props = \<lparr>base_sleep_time_millis = None, max_sleep_time_millis = None, sleep_time_scale_factor = None,
      backoff_threshold_count = None, short_suspend_threshold_millis = None,
      failed_suspend_backoff_enabled = None, short_suspend_backoff_enabled = None\<rparr>"
    and "length es < 2 ^ 32"
  shows "\<exists>y fds svs. main open_file socketpair props reg = Joined y fds svs \<and> sys_init y \<and>
    (\<forall>z. sys_run lib remote es y = Done z \<longrightarrow>
       reach sys_init (sys_step lib remote) z \<and> mUseSuspendCounter (sys_suspend z) \<and>
       (\<exists>as n. mSleep (sys_suspend z) = sleep_run (main_config props) as (sleep_state_new (main_config props)) \<and>
          n = bad_streak (main_config props) as \<and>
          getSleepTime (sys_suspend z) = (if n \<le> 1 then 10 else min (10 * 2 ^ (n - 1)) 500)))"
proof -
  let ?cfg = "main_config props"
  let ?y = "sys_new kStatsCapacity ?cfg True (wakeupReasonsFd (open_fds open_file socketpair)) open_file"
  have init: "sys_init ?y" unfolding sys_init_def kStatsCapacity_def
    by ((rule exI)+, rule conjI [rotated], rule refl, simp)
  have cfg: "sleepTimeScaleFactor ?cfg = of_int 2" "baseSleepTime ?cfg = 10" "maxSleepTime ?cfg = 500"
    "backoffThreshold ?cfg = 1"
    using assms(4) by (simp_all add: main_config_def kDefault_defs value_or_def)
  have "reach sys_init (sys_step lib remote) z \<and> mUseSuspendCounter (sys_suspend z) \<and>
      (\<exists>as n. mSleep (sys_suspend z) = sleep_run ?cfg as (sleep_state_new ?cfg) \<and> n = bad_streak ?cfg as \<and>
         getSleepTime (sys_suspend z) = (if n \<le> 1 then 10 else min (10 * 2 ^ (n - 1)) 500))"
    if z: "sys_run lib remote es ?y = Done z" for z
  proof -
    have y: "kSleepTimeConfig (sys_suspend ?y) = ?cfg" "mSleep (sys_suspend ?y) = sleep_state_new ?cfg"
      "mUseSuspendCounter (sys_suspend ?y)"
      by (simp_all add: sys_new_def SystemSuspend_new_def)
    from sys_run_sleep [OF z] obtain as where as: "length as \<le> length es"
      "mUseSuspendCounter (sys_suspend z)" "mSleep (sys_suspend z) = sleep_run ?cfg as (sleep_state_new ?cfg)"
      unfolding y by (auto simp: y(3))
    have "mSleepTime (sleep_run ?cfg as (sleep_state_new ?cfg)) = backoff_formula ?cfg 2 (bad_streak ?cfg as)"
      by (rule sleep_run_formula) (use cfg as(1) assms(5) in simp_all)
    with as have "getSleepTime (sys_suspend z) =
        (if bad_streak ?cfg as \<le> 1 then 10 else min (10 * 2 ^ (bad_streak ?cfg as - 1)) 500)"
      by (simp add: getSleepTime_def backoff_formula_def cfg)
    moreover have "reach sys_init (sys_step lib remote) z" 
      by (rule reach_run [OF reach_init [where init = sys_init, OF init] z])
    ultimately show ?thesis using as(2,3) by blast
  qed
  moreover have "\<exists>svs. main open_file socketpair props reg = Joined ?y (open_fds open_file socketpair) svs"
    using assms(1-3) by (simp add: main_def Let_def)
  ultimately show ?thesis using init by blast
qed

theorem main_default_service_witness:
  "\<exists>y fds svs. main (\<lambda>_. 5) None \<lparr>base_sleep_time_millis = None, max_sleep_time_millis = None,
       sleep_time_scale_factor = None, backoff_threshold_count = None, short_suspend_threshold_millis = None,
       failed_suspend_backoff_enabled = None, short_suspend_backoff_enabled = None\<rparr>
     \<lparr>addControl = True, addInternal = True, addAidl = True, addHidl = False\<rparr> = Joined y fds svs \<and> sys_init y \<and>
     (\<exists>n. getSleepTime (sys_suspend y) = (if n \<le> 1 then 10 else min (10 * 2 ^ (n - 1)) 500))"
  using main_default_service [of "\<lparr>addControl = True, addInternal = True, addAidl = True, addHidl = False\<rparr>"
      _ "[]" "\<lambda>_. 5" None sample_libs "\<lambda>_. True"] by fastforce

end
