(* ===== verification/Locking.thy ===== *)
theory Locking
  imports WakeLocks
begin

text \<open>
  The mutexes of the suspend service: \<open>mAutosuspendClientTokensLock\<close>, \<open>mAutosuspendLock\<close> and
  \<open>mSuspendInfoLock\<close> of \<open>SystemSuspend\<close>, \<open>mCallbackLock\<close> and \<open>mWakelockCallbackLock\<close> of
  \<open>SuspendControlService\<close>, \<open>mStatsLock\<close> of \<open>WakeLockEntryList\<close>, \<open>mLock\<close> of \<open>WakeupList\<close>, and the
  \<open>std::once_flag\<close> of each wake lock, which is held while the first \<open>release\<close> runs.

  Every handler and the autosuspend thread are given as programs that keep only what concerns locks: a
  lock is taken or given back, data a mutex guards is used, the thread sleeps in a wait on the condition
  variable (which gives the mutex up and takes it again), a client is called and waited for
  (\<open>ISuspendCallback\<close>) or only sent a message (\<open>IWakelockCallback\<close> is \<open>oneway\<close>). Conditions of the code are
  choices. The programs are written from the source, as the step functions of \<open>SystemSuspend\<close> and
  \<open>WakeLocks\<close> are, and not derived from those: there what happens under one hold of a mutex is one step, in which
  the mutexes do not occur any more. \<open>lty\<close> is the discipline as a type system: it computes the mutexes held after a program from
  those held before, and rejects a mutex taken out of order, guarded data used without its mutex, and
  waits and calls with a mutex held.

  A configuration is any number of threads, each with the mutexes it holds and the rest of its program;
  threads start at any time with any handler, and a client that is called may call any handler before it
  returns.

  Shown: all handlers and the thread obey the discipline, the destructor does not; in every reachable
  configuration no two threads hold the same mutex or use the same guarded data at once, and threads
  that want a mutex never wait for each other in a circle.
\<close>

datatype mutex =
    OnceFlag nat
  | AutosuspendClientTokensLock
  | AutosuspendLock
  | SuspendInfoLock
  | CallbackLock
  | WakelockCallbackLock
  | StatsLock
  | WakeupListLock

datatype lcom =
    LSkip
  | LAcq mutex
  | LRel mutex
  | LUse mutex
  | LSleep
  | LCall
  | LPost
  | LSeq lcom lcom
  | LChoice lcom lcom
  | LLoop lcom

text \<open>\<open>std::lock_guard\<close> for a block, and \<open>wait\<close> or \<open>wait_for\<close> with a \<open>std::unique_lock\<close>.\<close>

definition guard :: "mutex \<Rightarrow> lcom \<Rightarrow> lcom" where
  "guard m body = LSeq (LAcq m) (LSeq body (LRel m))"

definition cond_wait :: "mutex \<Rightarrow> lcom" where
  "cond_wait m = LSeq (LUse m) (LLoop (LSeq (LRel m) (LSeq LSleep (LSeq (LAcq m) (LUse m)))))"

subsection \<open>The handlers\<close>

definition lk_enableAutosuspend :: lcom where
  "lk_enableAutosuspend =
     guard AutosuspendClientTokensLock (guard AutosuspendLock (LSeq (LUse AutosuspendClientTokensLock) (LUse AutosuspendLock)))"

definition lk_disableAutosuspend :: lcom where
  "lk_disableAutosuspend =
     guard AutosuspendClientTokensLock (guard AutosuspendLock (LSeq (LUse AutosuspendClientTokensLock) (LUse AutosuspendLock)))"

definition lk_forceSuspend :: lcom where
  "lk_forceSuspend = guard AutosuspendLock (LUse AutosuspendLock)"

definition lk_incSuspendCounter :: lcom where
  "lk_incSuspendCounter = guard AutosuspendLock (LUse AutosuspendLock)"

definition lk_decSuspendCounter :: lcom where
  "lk_decSuspendCounter = guard AutosuspendLock (LUse AutosuspendLock)"

definition lk_updateSleepTime :: lcom where
  "lk_updateSleepTime = guard SuspendInfoLock (LUse SuspendInfoLock)"

definition lk_getSuspendInfo :: lcom where
  "lk_getSuspendInfo = guard SuspendInfoLock (LUse SuspendInfoLock)"

definition lk_registerCallback :: lcom where
  "lk_registerCallback = LChoice LSkip (guard CallbackLock (LUse CallbackLock))"

definition lk_registerWakelockCallback :: lcom where
  "lk_registerWakelockCallback = LChoice LSkip (guard WakelockCallbackLock (LUse WakelockCallbackLock))"

definition lk_binderDied :: lcom where
  "lk_binderDied =
     guard CallbackLock (LSeq (LUse CallbackLock) (guard WakelockCallbackLock (LUse WakelockCallbackLock)))"

definition lk_notifyWakelock :: lcom where
  "lk_notifyWakelock =
     LSeq (LAcq WakelockCallbackLock) (LSeq (LUse WakelockCallbackLock)
       (LChoice (LRel WakelockCallbackLock) (LSeq (LRel WakelockCallbackLock) (LLoop LPost))))"

definition lk_notifyWakeup :: lcom where
  "lk_notifyWakeup =
     LSeq (LAcq CallbackLock) (LSeq (LUse CallbackLock) (LSeq (LRel CallbackLock) (LLoop LCall)))"

text \<open>\<open>WakeLockEntryList\<close> (any of its operations) and \<open>WakeupList\<close>.\<close>

definition lk_stats :: lcom where
  "lk_stats = guard StatsLock (LUse StatsLock)"

definition lk_wakeups_update :: lcom where
  "lk_wakeups_update = LChoice LSkip (guard WakeupListLock (LUse WakeupListLock))"

definition lk_wakeups_get :: lcom where
  "lk_wakeups_get = guard WakeupListLock (LUse WakeupListLock)"

text \<open>The actions of the wake lock handlers; the actions themselves are those of both front ends.\<close>

fun lk_action :: "lock_action \<Rightarrow> lcom" where
  "lk_action (IncSuspendCounter _) = lk_incSuspendCounter"
| "lk_action (DecSuspendCounter _) = lk_decSuspendCounter"
| "lk_action (StatOnAcquire _ _) = LSeq lk_stats lk_notifyWakelock"
| "lk_action (StatOnRelease _ _) = LSeq lk_stats lk_notifyWakelock"

definition lk_actions :: "lock_action list \<Rightarrow> lcom" where
  "lk_actions as = foldr (\<lambda>a c. LSeq (lk_action a) c) as LSkip"

definition lk_acquireWakeLock :: "front_end \<Rightarrow> string \<Rightarrow> i32 \<Rightarrow> lcom" where
  "lk_acquireWakeLock f name pid = LChoice LSkip (lk_actions (acquire_actions f name pid))"

definition lk_releaseOnce :: "nat \<Rightarrow> front_end \<Rightarrow> string \<Rightarrow> i32 \<Rightarrow> lcom" where
  "lk_releaseOnce i f name pid =
     guard (OnceFlag i) (LChoice LSkip (lk_actions (release_actions f name pid)))"

text \<open>\<open>SystemSuspend::getSuspendStats\<close> holds a wake lock of its own meanwhile.\<close>

definition lk_getSuspendStats :: "nat \<Rightarrow> lcom" where
  "lk_getSuspendStats i =
     LChoice LSkip (LSeq (lk_acquireWakeLock Aidl ''suspend_stats_lock'' 0)
       (LChoice LSkip (lk_releaseOnce i Aidl ''suspend_stats_lock'' 0)))"

text \<open>\<open>SuspendControlServiceInternal\<close>: nothing if the service is gone.\<close>

definition lk_getWakeLockStats :: lcom where
  "lk_getWakeLockStats = LChoice LSkip (LSeq lk_stats lk_stats)"

definition lk_getWakeupStats :: lcom where
  "lk_getWakeupStats = LChoice LSkip lk_wakeups_get"

definition lk_dump :: "nat \<Rightarrow> lcom" where
  "lk_dump i =
     LChoice LSkip
       (LSeq (LChoice LSkip (LSeq lk_stats lk_stats))
       (LSeq (LChoice LSkip lk_wakeups_get)
       (LSeq (LChoice LSkip (lk_getSuspendStats i))
         (LChoice LSkip lk_getSuspendInfo))))"

subsection \<open>The autosuspend thread and the destructor\<close>

text \<open>The body of the loop, from its head to its head, with \<open>mAutosuspendLock\<close> held: the paths that
  \<open>continue\<close> and the full turn.\<close>

definition lk_after_attempt :: lcom where
  "lk_after_attempt =
     LSeq (LRel AutosuspendLock) (LSeq (LRel AutosuspendClientTokensLock)
       (LSeq lk_updateSleepTime (LSeq lk_wakeups_update (LSeq lk_notifyWakeup (LAcq AutosuspendLock)))))"

definition lk_attempt :: lcom where
  "lk_attempt =
     LSeq (LRel AutosuspendLock) (LSeq (LAcq AutosuspendClientTokensLock) (LSeq (LAcq AutosuspendLock)
       (LSeq (LUse AutosuspendClientTokensLock) (LSeq (LUse AutosuspendLock)
         (LChoice (LRel AutosuspendClientTokensLock) lk_after_attempt)))))"

definition lk_read_count :: lcom where
  "lk_read_count =
     LSeq (LRel AutosuspendLock) (LSeq (LAcq AutosuspendLock)
       (LChoice LSkip (LSeq (LUse AutosuspendLock) (LSeq (cond_wait AutosuspendLock) (LChoice LSkip lk_attempt)))))"

definition lk_autosuspend_body :: lcom where
  "lk_autosuspend_body =
     LSeq (LUse AutosuspendLock) (LSeq (LChoice LSkip (cond_wait AutosuspendLock))
       (LSeq (LUse AutosuspendLock) (LChoice LSkip lk_read_count)))"

definition lk_autosuspend :: lcom where
  "lk_autosuspend =
     LSeq (LAcq AutosuspendLock) (LSeq (LLoop lk_autosuspend_body) (LSeq (LUse AutosuspendLock) (LRel AutosuspendLock)))"

definition lk_destroy :: lcom where
  "lk_destroy =
     guard AutosuspendClientTokensLock (guard AutosuspendLock
       (LSeq (LUse AutosuspendClientTokensLock) (LSeq (LUse AutosuspendLock) (cond_wait AutosuspendLock))))"

text \<open>The calls the service gets; those through \<open>SuspendControlServiceInternal\<close> do nothing if the service is
  gone.\<close>

datatype entry =
    E_enableAutosuspend
  | E_disableAutosuspend
  | E_forceSuspend
  | E_getSuspendInfo
  | E_registerCallback
  | E_registerWakelockCallback
  | E_binderDied
  | E_acquireWakeLock front_end string i32
  | E_releaseOnce nat front_end string i32
  | E_getWakeLockStats
  | E_getWakeupStats
  | E_dump nat

fun entry_prog :: "entry \<Rightarrow> lcom" where
  "entry_prog E_enableAutosuspend = LChoice LSkip lk_enableAutosuspend"
| "entry_prog E_disableAutosuspend = lk_disableAutosuspend"
| "entry_prog E_forceSuspend = LChoice LSkip lk_forceSuspend"
| "entry_prog E_getSuspendInfo = LChoice LSkip lk_getSuspendInfo"
| "entry_prog E_registerCallback = lk_registerCallback"
| "entry_prog E_registerWakelockCallback = lk_registerWakelockCallback"
| "entry_prog E_binderDied = lk_binderDied"
| "entry_prog (E_acquireWakeLock f name pid) = lk_acquireWakeLock f name pid"
| "entry_prog (E_releaseOnce i f name pid) = lk_releaseOnce i f name pid"
| "entry_prog E_getWakeLockStats = lk_getWakeLockStats"
| "entry_prog E_getWakeupStats = lk_getWakeupStats"
| "entry_prog (E_dump i) = lk_dump i"

subsection \<open>The discipline\<close>

fun rank :: "mutex \<Rightarrow> nat" where
  "rank (OnceFlag _) = 0"
| "rank AutosuspendClientTokensLock = 1"
| "rank AutosuspendLock = 2"
| "rank SuspendInfoLock = 3"
| "rank CallbackLock = 4"
| "rank WakelockCallbackLock = 5"
| "rank StatsLock = 6"
| "rank WakeupListLock = 7"

fun lty :: "mutex set \<Rightarrow> lcom \<Rightarrow> mutex set option" where
  "lty H LSkip = Some H"
| "lty H (LAcq m) = (if \<forall>x \<in> H. rank x < rank m then Some (insert m H) else None)"
| "lty H (LRel m) = (if m \<in> H then Some (H - {m}) else None)"
| "lty H (LUse m) = (if m \<in> H then Some H else None)"
| "lty H LSleep = (if H = {} then Some H else None)"
| "lty H LCall = (if H = {} then Some H else None)"
| "lty H LPost = Some H"
| "lty H (LSeq c d) = (case lty H c of None \<Rightarrow> None | Some H' \<Rightarrow> lty H' d)"
| "lty H (LChoice c d) = (if lty H c = lty H d then lty H c else None)"
| "lty H (LLoop c) = (if lty H c = Some H then Some H else None)"

subsection \<open>Running threads\<close>

inductive lstep :: "(mutex \<Rightarrow> bool) \<Rightarrow> mutex set \<Rightarrow> lcom \<Rightarrow> mutex set \<Rightarrow> lcom \<Rightarrow> bool"
  for free :: "mutex \<Rightarrow> bool" where
  Acq: "free m \<Longrightarrow> lstep free H (LAcq m) (insert m H) LSkip"
| Rel: "lstep free H (LRel m) (H - {m}) LSkip"
| Use: "lstep free H (LUse m) H LSkip"
| Sleep: "lstep free H LSleep H LSkip"
| CallReturns: "lstep free H LCall H LSkip"
| CallsBack: "lstep free H LCall H (LSeq (entry_prog e) LCall)"
| Post: "lstep free H LPost H LSkip"
| SeqSkip: "lstep free H (LSeq LSkip c) H c"
| SeqStep: "lstep free H c H' c' \<Longrightarrow> lstep free H (LSeq c d) H' (LSeq c' d)"
| ChoiceL: "lstep free H (LChoice c d) H c"
| ChoiceR: "lstep free H (LChoice c d) H d"
| LoopEnd: "lstep free H (LLoop c) H LSkip"
| LoopTurn: "lstep free H (LLoop c) H (LSeq c (LLoop c))"

inductive_cases lstep_AcqE: "lstep free H (LAcq m) H' c'"

type_synonym lconfig = "(mutex set \<times> lcom) list"

definition lfree :: "lconfig \<Rightarrow> mutex \<Rightarrow> bool" where
  "lfree C m \<longleftrightarrow> (\<forall>t \<in> set C. m \<notin> fst t)"

inductive lk_step :: "lconfig \<Rightarrow> nat option \<Rightarrow> lconfig \<Rightarrow> bool" where
  Start: "p = lk_autosuspend \<or> p = entry_prog e \<Longrightarrow> lk_step C None (C @ [({}, p)])"
| Run: "i < length C \<Longrightarrow> C ! i = (H, c) \<Longrightarrow> lstep (lfree C) H c H' c' \<Longrightarrow>
    lk_step C (Some i) (C[i := (H', c')])"

text \<open>What a thread does next, and whether it is at work: neither finished, nor asleep, nor waiting for
  a client.\<close>

fun lhead :: "lcom \<Rightarrow> lcom" where
  "lhead (LSeq c d) = (if c = LSkip then LSkip else lhead c)"
| "lhead c = c"

definition at_work :: "lcom \<Rightarrow> bool" where
  "at_work c \<longleftrightarrow> c \<noteq> LSkip \<and> lhead c \<noteq> LSleep \<and> lhead c \<noteq> LCall"

definition lk_inv :: "lconfig \<Rightarrow> bool" where
  "lk_inv C \<longleftrightarrow> (\<forall>t \<in> set C. lty (fst t) (snd t) = Some {}) \<and>
     (\<forall>i j. i < length C \<longrightarrow> j < length C \<longrightarrow> i \<noteq> j \<longrightarrow> fst (C ! i) \<inter> fst (C ! j) = {})"

subsection \<open>The handlers obey the discipline\<close>

named_theorems lk_defs

lemmas lk_program_defs [lk_defs] = guard_def cond_wait_def lk_enableAutosuspend_def lk_disableAutosuspend_def lk_forceSuspend_def
  lk_incSuspendCounter_def lk_decSuspendCounter_def lk_updateSleepTime_def lk_getSuspendInfo_def
  lk_registerCallback_def lk_registerWakelockCallback_def lk_binderDied_def lk_notifyWakelock_def
  lk_notifyWakeup_def lk_stats_def lk_wakeups_update_def lk_wakeups_get_def lk_getWakeLockStats_def
  lk_getWakeupStats_def lk_after_attempt_def lk_attempt_def lk_read_count_def lk_autosuspend_body_def
  lk_autosuspend_def lk_destroy_def

lemma lty_action: "\<forall>x \<in> H. rank x < 2 \<Longrightarrow> lty H (lk_action a) = Some H"
  by (cases a) (auto simp: lk_defs)

lemma lty_actions: "\<forall>x \<in> H. rank x < 2 \<Longrightarrow> lty H (lk_actions as) = Some H"
  by (induction as) (simp_all add: lk_actions_def lty_action)

lemma lty_locks:
  "lty {} (lk_acquireWakeLock f name pid) = Some {}" "lty {} (lk_releaseOnce i f name pid) = Some {}"
  by (simp_all add: lk_acquireWakeLock_def lk_releaseOnce_def guard_def lty_actions)

lemma lty_stats: "lty {} (lk_getSuspendStats i) = Some {}"
  by (simp add: lk_getSuspendStats_def lty_locks)

lemma lty_entry: "lty {} (entry_prog e) = Some {}"
  by (cases e) (simp_all add: lk_defs lk_dump_def lty_locks lty_stats)

lemma lty_autosuspend: "lty {} lk_autosuspend = Some {}"
  by (simp add: lk_defs insert_Diff_if)

lemma lty_destroy: "lty {} lk_destroy = None"
  by (simp add: lk_defs insert_Diff_if)

subsection \<open>Types are kept\<close>

lemma lstep_lty:
  "lstep free H c H' c' \<Longrightarrow> lty H c = Some K \<Longrightarrow> lty H' c' = Some K"
proof (induction arbitrary: K rule: lstep.induct)
  case (SeqStep H c H' c' d)
  from SeqStep.prems obtain L where "lty H c = Some L" "lty L d = Some K" by (auto split: option.splits)
  with SeqStep.IH show ?case by simp
qed (auto simp: lty_entry split: if_splits)

lemma lstep_held: "lstep free H c H' c' \<Longrightarrow> H' \<subseteq> H \<or> (\<exists>m. free m \<and> H' = insert m H)"
  by (induction rule: lstep.induct) auto

lemma lk_inv_start:
  assumes "lk_inv C" "lty {} p = Some {}"
  shows "lk_inv (C @ [({}, p)])"
  using assms by (auto simp: lk_inv_def nth_append)

lemma lk_inv_run:
  assumes inv: "lk_inv C" and i: "i < length C" "C ! i = (H, c)" and step: "lstep (lfree C) H c H' c'"
  shows "lk_inv (C[i := (H', c')])"
proof -
  have "(H, c) \<in> set C" using i nth_mem by metis
  with inv have "lty H c = Some {}" by (force simp: lk_inv_def)
  with lstep_lty [OF step] have ty: "lty H' c' = Some {}" .
  have disj: "H' \<inter> fst (C ! j) = {}" if "j < length C" "j \<noteq> i" for j
  proof -
    have "H \<inter> fst (C ! j) = {}" using inv i that unfolding lk_inv_def by (metis fst_conv)
    moreover have "m \<notin> fst (C ! j)" if "lfree C m" for m
      using that \<open>j < length C\<close> by (simp add: lfree_def)
    ultimately show ?thesis using lstep_held [OF step] by auto
  qed
  have "lty (fst t) (snd t) = Some {}" if "t \<in> set (C[i := (H', c')])" for t
    using that set_update_subset_insert ty inv by (fastforce simp: lk_inv_def)
  moreover have "fst (C[i := (H', c')] ! j) \<inter> fst (C[i := (H', c')] ! k) = {}"
    if "j < length C" "k < length C" "j \<noteq> k" for j k
    using that disj [of j] disj [of k] inv unfolding lk_inv_def
    by (cases "j = i"; cases "k = i") (simp_all add: Int_commute)
  ultimately show ?thesis by (simp add: lk_inv_def)
qed

interpretation lk: invariant_system "\<lambda>C. C = []" lk_step lk_inv
proof unfold_locales
  show "lk_inv C" if "C = []" for C using that by (simp add: lk_inv_def)
  show "lk_inv C'" if "lk_inv C" "lk_step C l C'" for C l C'
    using that(2,1) by cases (auto simp: lty_entry lty_autosuspend intro: lk_inv_start lk_inv_run)
qed

subsection \<open>Progress\<close>

lemma lstep_exists:
  "c \<noteq> LSkip \<Longrightarrow> \<forall>m. lhead c = LAcq m \<longrightarrow> free m \<Longrightarrow> \<exists>H' c'. lstep free H c H' c'"
proof (induction c)
  case (LSeq c d)
  then show ?case by (cases "c = LSkip") (auto intro: lstep.intros)
qed (auto intro: lstep.intros)

lemma lhead_typed:
  "lty H c = Some K \<Longrightarrow> lhead c = LAcq m \<Longrightarrow> \<forall>x \<in> H. rank x < rank m"
  "lty H c = Some K \<Longrightarrow> lhead c = LUse m \<Longrightarrow> m \<in> H"
  "lty H c = Some K \<Longrightarrow> lhead c = LSleep \<or> lhead c = LCall \<Longrightarrow> H = {}"
  by (induction c arbitrary: K) (auto split: if_splits option.splits)

text \<open>A thread with a mutex is at work.\<close>

lemma holder_at_work: "lty H c = Some {} \<Longrightarrow> m \<in> H \<Longrightarrow> at_work c"
  using lhead_typed(3) [of H c "{}"] by (auto simp: at_work_def)

definition can_run :: "lconfig \<Rightarrow> nat \<Rightarrow> bool" where
  "can_run C i \<longleftrightarrow> at_work (snd (C ! i)) \<and> (\<exists>C'. lk_step C (Some i) C')"

lemma can_run_free:
  assumes "i < length C" "at_work (snd (C ! i))" "\<forall>m. lhead (snd (C ! i)) = LAcq m \<longrightarrow> lfree C m"
  shows "can_run C i"
proof -
  obtain H c where c: "C ! i = (H, c)" by (cases "C ! i")
  from assms c lstep_exists [of c "lfree C" H] obtain H' c' where "lstep (lfree C) H c H' c'"
    by (auto simp: at_work_def)
  with assms(1,2) c show ?thesis by (auto simp: can_run_def intro: lk_step.Run)
qed

text \<open>Whoever holds the mutex a thread wants can run, or wants one of higher rank.\<close>

lemma wanted_mutex_progress:
  assumes "lk_inv C" "i < length C" "lhead (snd (C ! i)) = LAcq m"
  shows "\<exists>j < length C. can_run C j"
  using assms(2,3)
proof (induction "7 - rank m" arbitrary: i m rule: less_induct)
  case less
  show ?case
  proof (cases "lfree C m")
    case True
    with less.prems have "can_run C i"
      by (intro can_run_free) (auto simp: at_work_def)
    with less.prems show ?thesis by blast
  next
    case False
    then obtain j where j: "j < length C" "m \<in> fst (C ! j)" by (auto simp: lfree_def in_set_conv_nth)
    with assms(1) have ty: "lty (fst (C ! j)) (snd (C ! j)) = Some {}" by (auto simp: lk_inv_def)
    show ?thesis
    proof (cases "\<exists>n. lhead (snd (C ! j)) = LAcq n")
      case True
      then obtain n where n: "lhead (snd (C ! j)) = LAcq n" ..
      with lhead_typed(1) [OF ty n] j have "rank m < rank n" by blast
      moreover have "rank n \<le> 7" by (cases n) simp_all
      ultimately show ?thesis using less.hyps [OF _ j(1) n] by simp
    next
      case False
      with j holder_at_work [OF ty] show ?thesis by (intro exI [of _ j]) (auto intro: can_run_free)
    qed
  qed
qed

subsection \<open>Properties\<close>

text \<open>The locking discipline holds: every handler of the service, for either kind of wake lock, and
  the autosuspend thread take mutexes in one fixed order only, use guarded data only under its mutex,
  sleep and call clients only without any mutex, and end without one. The destructor of
  \<open>SystemSuspend\<close> does not obey it.\<close>

lemma locking_discipline:
  "lty {} (entry_prog e) = Some {} \<and> lty {} lk_autosuspend = Some {} \<and> lty {} lk_destroy = None"
  by (simp add: lty_entry lty_autosuspend lty_destroy)

text \<open>C9. There is no deadlock and no data race: in every configuration of any number of handlers and
  autosuspend threads, with clients that call back, as soon as one thread is at work (not finished, not
  asleep in a wait, not waiting for a client) some thread at work can take its next step; no mutex is
  held twice; and two threads never are at the use of data of the same mutex.\<close>

theorem no_deadlock_no_race:
  assumes "reach (\<lambda>C. C = []) lk_step C"
  shows "((\<exists>i < length C. at_work (snd (C ! i))) = (\<exists>j < length C. can_run C j)) \<and>
    (i < length C \<and> j < length C \<and> i \<noteq> j \<longrightarrow> fst (C ! i) \<inter> fst (C ! j) = {} \<and>
       (lhead (snd (C ! i)) = LUse m \<longrightarrow> lhead (snd (C ! j)) \<noteq> LUse m))"
proof -
  from assms have inv: "lk_inv C" by (rule lk.reach_inv)
  have "\<exists>j < length C. can_run C j" if "i < length C" "at_work (snd (C ! i))" for i
    using that wanted_mutex_progress [OF inv that(1)] can_run_free [OF that] by blast
  moreover have "at_work (snd (C ! j))" if "can_run C j" for j using that by (simp add: can_run_def)
  moreover have "m \<in> fst (C ! i)" if "i < length C" "lhead (snd (C ! i)) = LUse m" for i
    using inv that lhead_typed(2) by (fastforce simp: lk_inv_def)
  ultimately show ?thesis using inv unfolding lk_inv_def by blast
qed

theorem no_deadlock_no_race_witness:
  "\<exists>C j. reach (\<lambda>C. C = []) lk_step C \<and> map fst C = [{}, {}] \<and> j < length C \<and> can_run C j"
proof -
  let ?C = "[({}, entry_prog E_binderDied), ({}, lk_autosuspend)] :: lconfig"
  have "lk_step [] None ([] @ [({}, entry_prog E_binderDied)])" by (rule lk_step.Start [where e = E_binderDied]) simp
  then have "reach (\<lambda>C. C = []) lk_step ([] @ [({}, entry_prog E_binderDied)])"
    by (rule reach_step [rotated]) (simp add: reach_init)
  moreover have "lk_step [({}, entry_prog E_binderDied)] None ([({}, entry_prog E_binderDied)] @ [({}, lk_autosuspend)])"
    by (rule lk_step.Start [where e = E_binderDied]) simp
  ultimately have r: "reach (\<lambda>C. C = []) lk_step ?C" using reach_step by fastforce
  have "\<exists>i < length ?C. at_work (snd (?C ! i))"
    by (intro exI [of _ 0]) (simp add: at_work_def lk_defs)
  with no_deadlock_no_race [OF r, THEN conjunct1] have "\<exists>j < length ?C. can_run ?C j" by (rule iffD1)
  then obtain j where "j < length ?C" "can_run ?C j" by (elim exE conjE) (rule that)
  with r show ?thesis by (intro exI [of _ ?C] exI [of _ j]) simp
qed

text \<open>
  The destructor sleeps with \<open>mAutosuspendClientTokensLock\<close> held. If the autosuspend thread wants that
  mutex next it cannot run, so the flag the destructor waits for cannot change: the destructor goes on
  when its 100 ms are over, with the thread still there.
\<close>

lemma destructor_blocks_thread:
  assumes "C ! 0 = ({AutosuspendClientTokensLock}, LSeq LSleep d)" "C ! 1 = ({}, LSeq (LAcq AutosuspendClientTokensLock) c)"
    "length C = 2"
  shows "\<not> lk_step C (Some 1) C'"
proof
  assume "lk_step C (Some 1) C'"
  then obtain H' c' where "lstep (lfree C) {} (LSeq (LAcq AutosuspendClientTokensLock) c) H' c'"
    using assms by cases auto
  then have "lfree C AutosuspendClientTokensLock" by cases (auto elim: lstep_AcqE)
  moreover have "C ! 0 \<in> set C" using assms(3) by simp
  ultimately show False using assms(1) by (auto simp: lfree_def)
qed

end
