(* ===== verification/HexInput.thy ===== *)
theory HexInput
  imports Prelude
begin

text \<open>
  Reading an unsigned 64-bit number in hexadecimal from a string stream, \<open>s >> std::hex >> tmp\<close>, as
  libc++ does it: blanks are skipped; the characters of a number are collected (a sign first, an \<open>x\<close>
  after a leading zero, hexadecimal digits); \<open>strtoull\<close> must consume all of them. If the stream is
  empty or blank the variable is not written at all and keeps what it held, \<open>garbage\<close>; every other
  failure writes a value.
\<close>

definition hex_digits :: string where
  "hex_digits = ''0123456789abcdef''"

definition hex_value :: "char \<Rightarrow> nat option" where
  "hex_value c =
     (let n = of_char c :: nat in
      if 48 \<le> n \<and> n \<le> 57 then Some (n - 48)
      else if 97 \<le> n \<and> n \<le> 102 then Some (n - 87)
      else if 65 \<le> n \<and> n \<le> 70 then Some (n - 55)
      else None)"

text \<open>The characters collected in \<open>a\<close>, and the rest of the stream.\<close>

fun stage2_hex :: "string \<Rightarrow> string \<Rightarrow> string \<times> string" where
  "stage2_hex a [] = (a, [])"
| "stage2_hex a (c # cs) =
     (if a = [] \<and> (c = CHR ''+'' \<or> c = CHR ''-'') then stage2_hex [c] cs
      else if hex_value c \<noteq> None then stage2_hex (a @ [c]) cs
      else if (c = CHR ''x'' \<or> c = CHR ''X'') \<and> a \<noteq> [] \<and> length a \<le> 2 \<and> last a = CHR ''0''
      then stage2_hex (a @ [c]) cs
      else (a, c # cs))"

definition hex_number :: "string \<Rightarrow> nat" where
  "hex_number ds = foldl (\<lambda>n c. 16 * n + (case hex_value c of Some d \<Rightarrow> d | None \<Rightarrow> 0)) 0 ds"

text \<open>\<open>strtoull\<close> in base 16 on a whole text without a minus sign.\<close>

definition strtoull_all :: "string \<Rightarrow> nat option" where
  "strtoull_all s =
     (let b = (if take 1 s = ''+'' then drop 1 s else s);
          ds = (if take 2 b = ''0x'' \<or> take 2 b = ''0X'' then drop 2 b else b)
      in if ds = [] \<or> (\<exists>c \<in> set ds. hex_value c = None) then None else Some (hex_number ds))"

text \<open>The variable afterwards, and the \<open>fail\<close> and \<open>eof\<close> bits of the stream.\<close>

record hex_input =
  hi_value :: u64
  hi_fail :: bool
  hi_eof :: bool

definition extract_hex :: "u64 \<Rightarrow> string \<Rightarrow> hex_input" where
  "extract_hex garbage s =
     (let t = dropWhile isspace s in
      if t = [] then \<lparr>hi_value = garbage, hi_fail = True, hi_eof = True\<rparr>
      else
        case stage2_hex [] t of (a, rest) \<Rightarrow>
          let negate = (take 1 a = ''-''); b = (if negate then drop 1 a else a); eof = (rest = [])
          in if b = [] then \<lparr>hi_value = 0, hi_fail = True, hi_eof = eof\<rparr>
             else case strtoull_all b of
               None \<Rightarrow> \<lparr>hi_value = 0, hi_fail = True, hi_eof = eof\<rparr>
             | Some n \<Rightarrow>
                 if 2 ^ 64 \<le> n then \<lparr>hi_value = -1, hi_fail = True, hi_eof = eof\<rparr>
                 else \<lparr>hi_value = (if negate then - of_nat n else of_nat n), hi_fail = False, hi_eof = eof\<rparr>)"

text \<open>The hexadecimal notation of a number.\<close>

fun hex_nat :: "nat \<Rightarrow> string" where
  "hex_nat n = (if n < 16 then [hex_digits ! n] else hex_nat (n div 16) @ [hex_digits ! (n mod 16)])"

declare hex_nat.simps [simp del]

subsection \<open>Reading back what was printed\<close>

lemma hex_value_digit: "n < 16 \<Longrightarrow> hex_value (hex_digits ! n) = Some n"
proof -
  assume n: "n < 16"
  have "list_all (\<lambda>n. hex_value (hex_digits ! n) = Some n) [0..<16]" by code_simp
  with n show ?thesis by (simp add: list_all_iff del: upt_rec_numeral)
qed

lemma hex_nat_ne [simp]: "hex_nat n \<noteq> []"
  by (subst hex_nat.simps) simp

lemma hex_nat_digits: "c \<in> set (hex_nat n) \<Longrightarrow> hex_value c \<noteq> None"
proof (induction n rule: hex_nat.induct)
  case (1 n)
  then show ?case
    by (subst (asm) (2) hex_nat.simps) (auto simp: hex_value_digit split: if_splits)
qed

lemma hex_number_snoc: "hex_number (ds @ [c]) = 16 * hex_number ds + (case hex_value c of Some d \<Rightarrow> d | None \<Rightarrow> 0)"
  by (simp add: hex_number_def)

lemma hex_number_hex_nat [simp]: "hex_number (hex_nat n) = n"
proof (induction n rule: hex_nat.induct)
  case (1 n)
  show ?case
  proof (cases "n < 16")
    case True
    then have "hex_nat n = [] @ [hex_digits ! n]" by (subst hex_nat.simps) simp
    with True show ?thesis by (simp add: hex_number_def hex_value_digit)
  next
    case False
    then have "hex_nat n = hex_nat (n div 16) @ [hex_digits ! (n mod 16)]" by (subst hex_nat.simps) simp
    with 1 False show ?thesis by (simp add: hex_number_snoc hex_value_digit)
  qed
qed

lemma hex_value_not:
  "hex_value c \<noteq> None \<Longrightarrow> c \<noteq> CHR ''+'' \<and> c \<noteq> CHR ''-'' \<and> c \<noteq> CHR ''x'' \<and> c \<noteq> CHR ''X'' \<and> \<not> isspace c"
  by (auto simp: hex_value_def isspace_def)

lemma stage2_hex_digits:
  "\<forall>c \<in> set ds. hex_value c \<noteq> None \<Longrightarrow> stage2_hex a ds = (a @ ds, [])"
proof (induction ds arbitrary: a)
  case (Cons c ds)
  then have "hex_value c \<noteq> None" by simp
  with hex_value_not [OF this] Cons show ?case by simp
qed simp

lemma extract_hex_digits:
  assumes "ds \<noteq> []" "\<forall>c \<in> set ds. hex_value c \<noteq> None" "hex_number ds < 2 ^ 64"
  shows "extract_hex garbage ds = \<lparr>hi_value = of_nat (hex_number ds), hi_fail = False, hi_eof = True\<rparr>"
proof -
  obtain d r where ds: "ds = d # r" using assms(1) by (cases ds) auto
  have d: "d \<noteq> CHR ''+''" "d \<noteq> CHR ''-''" "\<not> isspace d"
    using assms(2) hex_value_not [of d] by (auto simp: ds)
  have x: "take 2 ds \<noteq> ''0x''" "take 2 ds \<noteq> ''0X''"
    using assms(2) hex_value_not by (cases r; auto simp: ds)+
  have "strtoull_all ds = Some (hex_number ds)"
    using assms(2) d x by (auto simp: strtoull_all_def ds Let_def)
  with d assms(3) stage2_hex_digits [OF assms(2), of "[]"] show ?thesis
    by (simp add: extract_hex_def ds Let_def)
qed

lemma extract_hex_nat:
  assumes "n < 2 ^ 64"
  shows "extract_hex garbage (hex_nat n) = \<lparr>hi_value = of_nat n, hi_fail = False, hi_eof = True\<rparr>"
  using extract_hex_digits [of "hex_nat n" garbage] assms hex_nat_digits by auto

lemma extract_hex_empty:
  "extract_hex garbage [] = \<lparr>hi_value = garbage, hi_fail = True, hi_eof = True\<rparr>"
  by (simp add: extract_hex_def)

end
