(* ===== verification/WifiKeystore.thy ===== *)
theory WifiKeystore
  imports HexInput
begin

text \<open>
  The Wi-Fi keystore HAL, \<open>wifi/keystore/1.0/default/keystore.cpp\<close> and \<open>wifikeystorehal_utils.h\<close>: the
  supplicant asks for certificates, public keys and signatures, which the HAL gets from Keystore 2.0,
  with the legacy keystore as a fallback for certificates.

  Outside the sources, and so arguments: Keystore 2.0 and the legacy keystore (\<open>services\<close>; a service that
  cannot be reached is \<^term>\<open>None\<close>, a failed call \<^term>\<open>Inl\<close>), BoringSSL (\<open>crypto\<close>; \<open>d2i_X509\<close> gives the certificate and the
  number of bytes it took), and \<open>StartsWith\<close> of libbase. Memory is assumed to be available to
  \<open>BIO_new(BIO_s_mem())\<close>. Log messages are left out. \<open>garbage\<close> is what an uninitialised variable holds. A service
  may return a null security level or a null operation; calling it ends the process.

  Shown: a grant name is decoded to the grant id it was printed from, and to an undetermined one if the id is
  missing; the PEM conversion ends and converts a sequence of DER certificates one by one; \<open>getBlob\<close>
  asks the legacy keystore only when Keystore 2.0 has no certificate, and fails exactly if neither has
  one or the conversion fails; \<open>sign\<close> returns the signature of an operation with the algorithm of the
  key and the parameters written out, and nothing else, and ends the process exactly at a null reference; \<open>getPublicKey\<close> reports success with an empty key if the certificate cannot be
  decoded.
\<close>

type_synonym byte = "8 word"

subsection \<open>Key descriptors\<close>

datatype Domain = APP | GRANT | SELINUX | BLOB | KEY_ID

record KeyDescriptor =
  kd_domain :: Domain
  kd_nspace :: i64
  kd_alias :: "string option"
  kd_blob :: "byte list option"

definition KS2_NAMESPACE_WIFI :: i64 where
  "KS2_NAMESPACE_WIFI = 102"

definition keystore2_grant_id_prefix :: string where
  "keystore2_grant_id_prefix = ''ks2_keystore-engine_grant_id:''"

type_synonym starts_with = "string \<Rightarrow> string \<Rightarrow> bool"

definition mkKeyDescriptor :: "starts_with \<Rightarrow> u64 \<Rightarrow> string \<Rightarrow> KeyDescriptor" where
  "mkKeyDescriptor StartsWith garbage alias =
     (if StartsWith alias keystore2_grant_id_prefix then
        let tmp = hi_value (extract_hex garbage (drop (length keystore2_grant_id_prefix) alias))
        in \<lparr>kd_domain = GRANT, kd_nspace = tmp, kd_alias = None, kd_blob = None\<rparr>
      else \<lparr>kd_domain = SELINUX, kd_nspace = KS2_NAMESPACE_WIFI, kd_alias = Some alias, kd_blob = None\<rparr>)"

subsection \<open>Certificates\<close>

record ('x, 'k) crypto =
  d2i_X509 :: "byte list \<Rightarrow> ('x \<times> nat) option"
  PEM_write_X509 :: "'x \<Rightarrow> byte list option"
  PEM_read_X509 :: "byte list \<Rightarrow> 'x option"
  X509_get_pubkey :: "'x \<Rightarrow> 'k option"
  i2d_PUBKEY :: "'k \<Rightarrow> byte list option"
  mem_buf_ok :: bool
  mem_contents_ok :: bool

text \<open>
  The loop over the certificates of a buffer: \<open>cert_current\<close> is the rest of it, \<open>pem\<close> what has been
  written. It may not end, for all the code knows; then the value is \<^term>\<open>None\<close>. It returns the bytes, or
  no value on an error.
\<close>

partial_function (option) der_loop ::
  "('x, 'k) crypto \<Rightarrow> byte list \<Rightarrow> byte list \<Rightarrow> byte list \<Rightarrow> byte list option option" where
  "der_loop ssl cert_bytes cert_current pem =
     (if cert_current = [] then Some (if mem_contents_ok ssl then Some pem else None)
      else case d2i_X509 ssl cert_current of None \<Rightarrow> Some (Some cert_bytes)
      | Some (cert, n) \<Rightarrow>
          (case PEM_write_X509 ssl cert of None \<Rightarrow> Some None
           | Some p \<Rightarrow> der_loop ssl cert_bytes (drop n cert_current) (pem @ p)))"

definition convertDerCertToPemOrPassthrough ::
  "('x, 'k) crypto \<Rightarrow> byte list \<Rightarrow> byte list option option" where
  "convertDerCertToPemOrPassthrough ssl cert_bytes = der_loop ssl cert_bytes cert_bytes []"

text \<open>\<open>wifikeystorehal_utils.h\<close>: every failure gives the empty vector.\<close>

definition extractPubKey :: "('x, 'k) crypto \<Rightarrow> byte list \<Rightarrow> byte list" where
  "extractPubKey ssl cert_bytes =
     (let decoded = (case d2i_X509 ssl cert_bytes of Some (x, n) \<Rightarrow> Some (Some x)
            | None \<Rightarrow> if \<not> mem_buf_ok ssl then None else Some (PEM_read_X509 ssl cert_bytes))
      in case decoded of None \<Rightarrow> []
         | Some None \<Rightarrow> []
         | Some (Some decoded_cert) \<Rightarrow>
             (case X509_get_pubkey ssl decoded_cert of None \<Rightarrow> []
              | Some pub_key \<Rightarrow>
                  (case i2d_PUBKEY ssl pub_key of None \<Rightarrow> []
                   | Some bytes \<Rightarrow> if mem_contents_ok ssl then bytes else [])))"

subsection \<open>The keystore services\<close>

datatype key_tag = PURPOSE | ALGORITHM | PADDING | DIGEST | OTHER_TAG nat

datatype key_purpose = SIGN | OtherPurpose nat

datatype padding_mode = PaddingMode_NONE | OtherPadding nat

datatype key_digest = Digest_NONE | OtherDigest nat

datatype key_value = KeyPurpose key_purpose | Algorithm nat | PaddingMode padding_mode | Digest key_digest | OtherValue

record KeyParameter =
  kp_tag :: key_tag
  kp_value :: key_value

record KeyEntryResponse =
  certificate :: "byte list option"
  certificateChain :: "byte list option"
  authorizations :: "KeyParameter list"
  iSecurityLevel :: "nat option"

type_synonym ks_error = int

record IKeystoreService =
  getKeyEntry :: "KeyDescriptor \<Rightarrow> ks_error + KeyEntryResponse"
  createOperation :: "nat \<Rightarrow> KeyDescriptor \<Rightarrow> KeyParameter list \<Rightarrow> bool \<Rightarrow> ks_error + nat option"
  finish :: "nat \<Rightarrow> byte list option \<Rightarrow> byte list option \<Rightarrow> ks_error + byte list option"

record services =
  keystore2_service :: "IKeystoreService option"
  legacy_service :: "(string \<Rightarrow> int \<Rightarrow> ks_error + byte list) option"

text \<open>The Wi-Fi user, of Android's \<open>android_filesystem_config.h\<close>.\<close>

definition AID_WIFI :: int where
  "AID_WIFI = 1010"

text \<open>The two uninitialised variables of \<open>keyStore2GetCert\<close> are \<open>garbage1\<close> and \<open>garbage2\<close>.\<close>

definition keyStore2GetCert ::
  "starts_with \<Rightarrow> u64 \<Rightarrow> u64 \<Rightarrow> services \<Rightarrow> string \<Rightarrow> byte list option" where
  "keyStore2GetCert StartsWith garbage1 garbage2 sv key =
     (case keystore2_service sv of None \<Rightarrow> None
      | Some keystore2 \<Rightarrow>
          let alias0 = c_str key;
              ca_cert = StartsWith alias0 ''CACERT_'';
              alias = (if ca_cert then drop 7 alias0
                       else if StartsWith alias0 ''USRCERT_'' then drop 8 alias0 else alias0);
              descriptor0 = mkKeyDescriptor StartsWith garbage1 alias;
              descriptor = (if StartsWith alias keystore2_grant_id_prefix
                then descriptor0\<lparr>kd_nspace := hi_value (extract_hex garbage2 (drop (length keystore2_grant_id_prefix) alias)),
                                 kd_domain := GRANT, kd_alias := None\<rparr>
                else descriptor0)
          in case getKeyEntry keystore2 descriptor of Inl rc \<Rightarrow> None
             | Inr response \<Rightarrow>
                 if ca_cert \<and> certificateChain response \<noteq> None then certificateChain response
                 else if \<not> ca_cert \<and> certificate response \<noteq> None then certificate response
                 else None)"

definition usr_key_alias :: "starts_with \<Rightarrow> string \<Rightarrow> string" where
  "usr_key_alias StartsWith key =
     (let alias = c_str key in if StartsWith alias ''USRPKEY_'' then drop 8 alias else alias)"

definition keyStore2GetPubKey ::
  "starts_with \<Rightarrow> u64 \<Rightarrow> ('x, 'k) crypto \<Rightarrow> services \<Rightarrow> string \<Rightarrow> byte list option" where
  "keyStore2GetPubKey StartsWith garbage ssl sv key =
     (case keystore2_service sv of None \<Rightarrow> None
      | Some keystore2 \<Rightarrow>
          let descriptor = mkKeyDescriptor StartsWith garbage (usr_key_alias StartsWith key)
          in case getKeyEntry keystore2 descriptor of Inl rc \<Rightarrow> None
             | Inr response \<Rightarrow>
                 (case certificate response of None \<Rightarrow> None
                  | Some cert \<Rightarrow> Some (extractPubKey ssl cert)))"

text \<open>
  The algorithm is the last one among the authorizations. Asking a union for a value it does not hold ends
  the process, and so does a call through a null reference.
\<close>

datatype 'a run = Aborts | Returns 'a

fun find_algorithm :: "KeyParameter list \<Rightarrow> nat option \<Rightarrow> nat option run" where
  "find_algorithm [] algorithm = Returns algorithm"
| "find_algorithm (element # es) algorithm =
     (if kp_tag element = ALGORITHM
      then (case kp_value element of Algorithm a \<Rightarrow> find_algorithm es (Some a) | _ \<Rightarrow> Aborts)
      else find_algorithm es algorithm)"

definition sign_params :: "nat \<Rightarrow> KeyParameter list" where
  "sign_params algorithm =
     [\<lparr>kp_tag = PURPOSE, kp_value = KeyPurpose SIGN\<rparr>,
      \<lparr>kp_tag = ALGORITHM, kp_value = Algorithm algorithm\<rparr>,
      \<lparr>kp_tag = PADDING, kp_value = PaddingMode PaddingMode_NONE\<rparr>,
      \<lparr>kp_tag = DIGEST, kp_value = Digest Digest_NONE\<rparr>]"

definition keyStore2Sign ::
  "starts_with \<Rightarrow> u64 \<Rightarrow> services \<Rightarrow> string \<Rightarrow> byte list \<Rightarrow> byte list option run" where
  "keyStore2Sign StartsWith garbage sv key dataToSign =
     (case keystore2_service sv of None \<Rightarrow> Returns None
      | Some keystore2 \<Rightarrow>
          let descriptor = mkKeyDescriptor StartsWith garbage (usr_key_alias StartsWith key)
          in case getKeyEntry keystore2 descriptor of Inl rc \<Rightarrow> Returns None
             | Inr response \<Rightarrow>
                 (case find_algorithm (authorizations response) None of
                    Aborts \<Rightarrow> Aborts
                  | Returns None \<Rightarrow> Returns None
                  | Returns (Some algorithm) \<Rightarrow>
                      (case iSecurityLevel response of
                         None \<Rightarrow> Aborts
                       | Some sec_level \<Rightarrow>
                           (case createOperation keystore2 sec_level descriptor (sign_params algorithm) False of
                              Inl rc \<Rightarrow> Returns None
                            | Inr None \<Rightarrow> Aborts
                            | Inr (Some op) \<Rightarrow>
                                (case finish keystore2 op (Some dataToSign) None of Inl rc \<Rightarrow> Returns None
                                 | Inr output \<Rightarrow> Returns output)))))"

definition getLegacyKeystoreBlob :: "services \<Rightarrow> string \<Rightarrow> byte list option" where
  "getLegacyKeystoreBlob sv key =
     (case legacy_service sv of None \<Rightarrow> None
      | Some get \<Rightarrow> (case get key AID_WIFI of Inl rc \<Rightarrow> None | Inr blob \<Rightarrow> Some blob))"

subsection \<open>The HAL methods\<close>

datatype KeystoreStatusCode = SUCCESS | ERROR_UNKNOWN

definition getBlob ::
  "starts_with \<Rightarrow> u64 \<Rightarrow> u64 \<Rightarrow> ('x, 'k) crypto \<Rightarrow> services \<Rightarrow> string \<Rightarrow>
   (KeystoreStatusCode \<times> byte list) option" where
  "getBlob StartsWith garbage1 garbage2 ssl sv key =
     (let result_cert =
        (case keyStore2GetCert StartsWith garbage1 garbage2 sv key of
           Some ks2_cert \<Rightarrow> Some ks2_cert
         | None \<Rightarrow> getLegacyKeystoreBlob sv key)
      in case result_cert of None \<Rightarrow> Some (ERROR_UNKNOWN, [])
         | Some cert \<Rightarrow>
             map_option (\<lambda>r. case r of Some v \<Rightarrow> (SUCCESS, v) | None \<Rightarrow> (ERROR_UNKNOWN, []))
               (convertDerCertToPemOrPassthrough ssl cert))"

definition getPublicKey ::
  "starts_with \<Rightarrow> u64 \<Rightarrow> ('x, 'k) crypto \<Rightarrow> services \<Rightarrow> string \<Rightarrow> KeystoreStatusCode \<times> byte list" where
  "getPublicKey StartsWith garbage ssl sv keyId =
     (case keyStore2GetPubKey StartsWith garbage ssl sv keyId of
        Some ks2_pubkey \<Rightarrow> (SUCCESS, ks2_pubkey) | None \<Rightarrow> (ERROR_UNKNOWN, []))"

definition sign ::
  "starts_with \<Rightarrow> u64 \<Rightarrow> services \<Rightarrow> string \<Rightarrow> byte list \<Rightarrow> (KeystoreStatusCode \<times> byte list) run" where
  "sign StartsWith garbage sv keyId dataToSign =
     (case keyStore2Sign StartsWith garbage sv keyId dataToSign of
        Aborts \<Rightarrow> Aborts
      | Returns (Some ks2_result) \<Rightarrow> Returns (SUCCESS, ks2_result)
      | Returns None \<Rightarrow> Returns (ERROR_UNKNOWN, []))"

subsection \<open>The conversion loop\<close>

lemma der_loop_ends:
  assumes "\<And>bs x n. d2i_X509 ssl bs = Some (x, n) \<Longrightarrow> 0 < n"
  shows "\<exists>r. der_loop ssl whole cur pem = Some r"
proof (induction "length cur" arbitrary: cur pem rule: less_induct)
  case less
  show ?case
  proof (cases "cur = [] \<or> d2i_X509 ssl cur = None")
    case True
    then show ?thesis by (subst der_loop.simps) auto
  next
    case False
    then obtain x n where d: "d2i_X509 ssl cur = Some (x, n)" "cur \<noteq> []" by auto
    then have "length (drop n cur) < length cur" using assms [OF d(1)] by simp
    note ih = less.hyps [OF this]
    show ?thesis
    proof (cases "PEM_write_X509 ssl x")
      case None
      with d show ?thesis by (subst der_loop.simps) simp
    next
      case (Some p)
      with d ih [of "pem @ p"] show ?thesis by (subst der_loop.simps) simp
    qed
  qed
qed

text \<open>A certificate that the parser takes off the front of the buffer, with its PEM form.\<close>

definition der_cert :: "('x, 'k) crypto \<Rightarrow> byte list \<times> byte list \<Rightarrow> bool" where
  "der_cert ssl c \<longleftrightarrow> (case c of (der, pem) \<Rightarrow> der \<noteq> [] \<and>
     (\<exists>x. PEM_write_X509 ssl x = Some pem \<and> (\<forall>rest. d2i_X509 ssl (der @ rest) = Some (x, length der))))"

lemma der_loop_cert:
  assumes "der_cert ssl (der, pem)"
  shows "der_loop ssl whole (der @ rest) acc = der_loop ssl whole rest (acc @ pem)"
  using assms by (subst der_loop.simps) (auto simp: der_cert_def)

lemma der_loop_certs:
  assumes "list_all (der_cert ssl) cs"
  shows "der_loop ssl whole (concat (map fst cs) @ rest) acc = der_loop ssl whole rest (acc @ concat (map snd cs))"
  using assms by (induction cs arbitrary: acc) (auto simp: der_loop_cert)

lemma der_loop_end: "mem_contents_ok ssl \<Longrightarrow> der_loop ssl whole [] acc = Some (Some acc)"
  by (subst der_loop.simps) simp

lemma der_loop_other:
  "junk \<noteq> [] \<Longrightarrow> d2i_X509 ssl junk = None \<Longrightarrow> der_loop ssl whole junk acc = Some (Some whole)"
  by (subst der_loop.simps) simp

subsection \<open>Aliases and algorithms\<close>

lemma c_str_id: "CHR 0x00 \<notin> set s \<Longrightarrow> c_str s = s"
  unfolding c_str_def takeWhile_eq_all_conv by metis

text \<open>The algorithm among well-typed authorizations.\<close>

definition typed_auths :: "KeyParameter list \<Rightarrow> bool" where
  "typed_auths es = list_all (\<lambda>e. kp_tag e \<noteq> ALGORITHM \<or> (case kp_value e of Algorithm _ \<Rightarrow> True | _ \<Rightarrow> False)) es"

definition algorithms :: "KeyParameter list \<Rightarrow> nat list" where
  "algorithms es = concat (map (\<lambda>e. if kp_tag e = ALGORITHM
     then (case kp_value e of Algorithm a \<Rightarrow> [a] | _ \<Rightarrow> []) else []) es)"

lemma find_algorithm_typed:
  "typed_auths es \<Longrightarrow> find_algorithm es alg =
     Returns (if algorithms es = [] then alg else Some (last (algorithms es)))"
proof (induction es arbitrary: alg)
  case (Cons e es)
  then show ?case
    by (cases "kp_tag e = ALGORITHM"; cases "kp_value e") (simp_all add: typed_auths_def algorithms_def)
qed (simp add: algorithms_def)

subsection \<open>Properties\<close>

text \<open>C32. A grant name made of the prefix and a 64-bit grant id in hexadecimal becomes the descriptor of that
  grant, whatever the variable held before; the prefix without an id becomes a grant whose id is
  whatever the uninitialised variable held.\<close>

theorem grant_descriptor_roundtrip:
  assumes "\<forall>s p. StartsWith s p \<longleftrightarrow> prefix p s" and "n < 2 ^ 64"
  shows "mkKeyDescriptor StartsWith garbage (keystore2_grant_id_prefix @ hex_nat n) =
      \<lparr>kd_domain = GRANT, kd_nspace = of_nat n, kd_alias = None, kd_blob = None\<rparr> \<and>
    mkKeyDescriptor StartsWith garbage keystore2_grant_id_prefix =
      \<lparr>kd_domain = GRANT, kd_nspace = garbage, kd_alias = None, kd_blob = None\<rparr>"
  using assms by (simp add: mkKeyDescriptor_def extract_hex_nat extract_hex_empty)

theorem grant_descriptor_roundtrip_witness:
  "mkKeyDescriptor (\<lambda>s p. prefix p s) 7 (keystore2_grant_id_prefix @ hex_nat 48879) =
     \<lparr>kd_domain = GRANT, kd_nspace = 48879, kd_alias = None, kd_blob = None\<rparr>"
  using grant_descriptor_roundtrip [of "\<lambda>s p. prefix p s" 48879 7] by simp

text \<open>C33. The conversion to PEM always ends if the parser takes at least one byte for a certificate. A buffer of
  DER certificates becomes the PEM forms one after the other; a buffer that is not one, even only at its
  end, is returned as it is.\<close>

theorem der_conversion:
  assumes "\<forall>bs x n. d2i_X509 ssl bs = Some (x, n) \<longrightarrow> 0 < n" and "mem_contents_ok ssl"
    and "list_all (der_cert ssl) cs" and "junk \<noteq> []" "d2i_X509 ssl junk = None"
  shows "(\<exists>r. convertDerCertToPemOrPassthrough ssl bytes = Some r) \<and>
    convertDerCertToPemOrPassthrough ssl (concat (map fst cs)) = Some (Some (concat (map snd cs))) \<and>
    convertDerCertToPemOrPassthrough ssl (concat (map fst cs) @ junk) = Some (Some (concat (map fst cs) @ junk))"
proof -
  have "\<exists>r. der_loop ssl bytes bytes [] = Some r" by (rule der_loop_ends) (use assms(1) in blast)
  moreover have "der_loop ssl whole (concat (map fst cs)) [] = Some (Some (concat (map snd cs)))" for whole
    using der_loop_certs [OF assms(3), of whole "[]" "[]"] der_loop_end [OF assms(2)] by simp
  moreover have "der_loop ssl whole (concat (map fst cs) @ junk) [] = Some (Some whole)" for whole
    using der_loop_certs [OF assms(3)] der_loop_other [OF assms(4,5)] by simp
  ultimately show ?thesis by (simp add: convertDerCertToPemOrPassthrough_def)
qed

text \<open>A sample library: a certificate is a byte 48 with the byte after it.\<close>

definition sample_ssl :: "(byte, byte) crypto" where
  "sample_ssl =
     \<lparr>d2i_X509 = (\<lambda>bs. case bs of a # b # _ \<Rightarrow> if a = 48 then Some (b, 2) else None | _ \<Rightarrow> None),
      PEM_write_X509 = (\<lambda>x. Some [45, x, 45]), PEM_read_X509 = (\<lambda>_. None), X509_get_pubkey = Some,
      i2d_PUBKEY = (\<lambda>k. Some [k]), mem_buf_ok = True, mem_contents_ok = True\<rparr>"

lemma sample_ssl_progress: "\<forall>bs x n. d2i_X509 sample_ssl bs = Some (x, n) \<longrightarrow> 0 < n"
  by (auto simp: sample_ssl_def split: list.splits if_splits)

theorem der_conversion_witness:
  "convertDerCertToPemOrPassthrough sample_ssl [48, 1, 48, 2] = Some (Some [45, 1, 45, 45, 2, 45]) \<and>
   convertDerCertToPemOrPassthrough sample_ssl [48, 1, 7] = Some (Some [48, 1, 7])"
proof -
  have c: "der_cert sample_ssl ([48, b], [45, b, 45])" for b by (simp add: der_cert_def sample_ssl_def)
  have m: "mem_contents_ok sample_ssl" "d2i_X509 sample_ssl [7] = None" by (simp_all add: sample_ssl_def)
  from der_conversion [OF sample_ssl_progress m(1) _ _ m(2), of "[([48, 1], [45, 1, 45]), ([48, 2], [45, 2, 45])]"]
    der_conversion [OF sample_ssl_progress m(1) _ _ m(2), of "[([48, 1], [45, 1, 45])]"] c
  show ?thesis by simp
qed

text \<open>C34. Where \<open>getBlob\<close> gets a certificate: for a CA certificate from the chain of the Keystore 2.0 entry of
  the alias in the Wi-Fi namespace, for a client certificate from its leaf certificate, and from the
  legacy keystore under the full key only if that gives nothing. The bytes are returned converted;
  it fails, with an empty value, exactly if there is no source or the conversion fails.\<close>

theorem getBlob_source:
  fixes sv :: services and key a :: string
  assumes "\<forall>s p. StartsWith s p \<longleftrightarrow> prefix p s" and "\<forall>bs x n. d2i_X509 ssl bs = Some (x, n) \<longrightarrow> 0 < n"
    and "keystore2_service sv = Some ks" and "CHR 0x00 \<notin> set a" "\<not> prefix keystore2_grant_id_prefix a"
    and "key = ''CACERT_'' @ a \<and> field = certificateChain \<or> key = ''USRCERT_'' @ a \<and> field = certificate"
  defines "entry \<equiv> getKeyEntry ks \<lparr>kd_domain = SELINUX, kd_nspace = 102, kd_alias = Some a, kd_blob = None\<rparr>"
  defines "source \<equiv> (case entry of Inr r \<Rightarrow> (case field r of Some c \<Rightarrow> Some c | None \<Rightarrow> getLegacyKeystoreBlob sv key)
      | Inl e \<Rightarrow> getLegacyKeystoreBlob sv key)"
  shows "getBlob StartsWith g1 g2 ssl sv key =
    (case source of None \<Rightarrow> Some (ERROR_UNKNOWN, [])
     | Some c \<Rightarrow> (case convertDerCertToPemOrPassthrough ssl c of
         Some (Some v) \<Rightarrow> Some (SUCCESS, v) | _ \<Rightarrow> Some (ERROR_UNKNOWN, [])))"
proof -
  have d: "mkKeyDescriptor StartsWith g1 a =
      \<lparr>kd_domain = SELINUX, kd_nspace = 102, kd_alias = Some a, kd_blob = None\<rparr>"
    using assms(1,5) by (simp add: mkKeyDescriptor_def KS2_NAMESPACE_WIFI_def)
  have "CHR 0x00 \<notin> set key" using assms(6) by (elim disjE conjE) (simp_all add: assms(4))
  then have key: "c_str key = key" by (rule c_str_id)
  have "keyStore2GetCert StartsWith g1 g2 sv key = (case entry of Inr r \<Rightarrow> field r | Inl e \<Rightarrow> None)"
    using assms(6)
  proof (elim disjE conjE)
    assume k: "key = ''CACERT_'' @ a" "field = certificateChain"
    then show ?thesis using assms(1,3,5) unfolding keyStore2GetCert_def Let_def key k(2)
      by (simp add: d entry_def option.case_eq_if split: sum.split)
  next
    assume k: "key = ''USRCERT_'' @ a" "field = certificate"
    then show ?thesis using assms(1,3,5) unfolding keyStore2GetCert_def Let_def key k(2)
      by (simp add: d entry_def option.case_eq_if split: sum.split)
  qed
  then have "(case keyStore2GetCert StartsWith g1 g2 sv key of Some ks2_cert \<Rightarrow> Some ks2_cert
      | None \<Rightarrow> getLegacyKeystoreBlob sv key) = source"
    by (auto simp: source_def split: sum.split option.split)
  moreover have "\<exists>r. convertDerCertToPemOrPassthrough ssl c = Some r" for c
    unfolding convertDerCertToPemOrPassthrough_def by (rule der_loop_ends) (use assms(2) in blast)
  then have "map_option (\<lambda>r. case r of Some v \<Rightarrow> (SUCCESS, v) | None \<Rightarrow> (ERROR_UNKNOWN, []))
      (convertDerCertToPemOrPassthrough ssl c) =
    (case convertDerCertToPemOrPassthrough ssl c of Some (Some v) \<Rightarrow> Some (SUCCESS, v) | _ \<Rightarrow> Some (ERROR_UNKNOWN, []))" for c
    by (metis (no_types, lifting) option.case_eq_if option.collapse option.simps(5) option.simps(9))
  ultimately show ?thesis unfolding getBlob_def Let_def by (simp only:)
qed

text \<open>A sample keystore with a client certificate under the alias \<open>home\<close>, whose key has the algorithm 5 and
  can be used with that algorithm only.\<close>

definition sample_entry :: "byte list \<Rightarrow> KeyEntryResponse" where
  "sample_entry cert = \<lparr>certificate = Some cert, certificateChain = None,
     authorizations = [\<lparr>kp_tag = ALGORITHM, kp_value = Algorithm 5\<rparr>], iSecurityLevel = Some 0\<rparr>"

definition sample_keystore :: "byte list \<Rightarrow> IKeystoreService" where
  "sample_keystore cert =
     \<lparr>getKeyEntry = (\<lambda>d. if kd_alias d = Some ''home'' then Inr (sample_entry cert) else Inl 7),
      createOperation = (\<lambda>l d ps forced.
        if \<lparr>kp_tag = ALGORITHM, kp_value = Algorithm 5\<rparr> \<in> set ps \<and> \<not> forced then Inr (Some 3) else Inl 8),
      finish = (\<lambda>op bs sig. Inr (map_option rev bs))\<rparr>"

definition sample_services :: "byte list \<Rightarrow> services" where
  "sample_services cert = \<lparr>keystore2_service = Some (sample_keystore cert), legacy_service = None\<rparr>"

theorem getBlob_source_witness:
  "getBlob (\<lambda>s p. prefix p s) 0 0 sample_ssl (sample_services [9, 9]) ''USRCERT_home'' = Some (SUCCESS, [9, 9]) \<and>
   getBlob (\<lambda>s p. prefix p s) 0 0 sample_ssl (sample_services [9, 9]) ''CACERT_home'' = Some (ERROR_UNKNOWN, [])"
proof -
  have sw: "\<forall>s p. (\<lambda>s p :: string. prefix p s) s p \<longleftrightarrow> prefix p s" by simp
  have k: "keystore2_service (sample_services [9, 9]) = Some (sample_keystore [9, 9])" by (simp add: sample_services_def)
  have a: "CHR 0x00 \<notin> set ''home''" "\<not> prefix keystore2_grant_id_prefix ''home''"
    by (simp_all add: keystore2_grant_id_prefix_def)
  have c: "convertDerCertToPemOrPassthrough sample_ssl [9, 9] = Some (Some [9, 9])"
    by (simp add: convertDerCertToPemOrPassthrough_def der_loop_other sample_ssl_def)
  from getBlob_source [OF sw sample_ssl_progress k a, of "''USRCERT_home''" certificate 0 0]
    getBlob_source [OF sw sample_ssl_progress k a, of "''CACERT_home''" certificateChain 0 0] c
  show ?thesis
    by (simp add: sample_keystore_def sample_entry_def sample_services_def getLegacyKeystoreBlob_def)
qed

text \<open>C35. \<open>sign\<close> succeeds with a signature exactly if the key has an entry in Keystore 2.0 that names an
  algorithm and a security level, that level creates an operation for the same key, not forced, with
  exactly the four parameters purpose sign, algorithm the last one the entry names, no padding and no digest, and
  finishing the operation with the data and no other signature gives that signature. It ends the process exactly
  if such an entry has a null security level, or the operation created is null; otherwise it reports an error with
  no data. Authorizations are assumed to hold the kind of value their tag says.\<close>

theorem sign_exact:
  fixes sv :: services and StartsWith :: starts_with and g :: u64 and keyId :: string and dataToSign :: "byte list"
  defines "d \<equiv> mkKeyDescriptor StartsWith g (usr_key_alias StartsWith keyId)"
  assumes "keystore2_service sv = Some ks"
    and "\<forall>r. getKeyEntry ks d = Inr r \<longrightarrow> typed_auths (authorizations r)"
  defines "created \<equiv> \<lambda>r l. createOperation ks l d
      [\<lparr>kp_tag = PURPOSE, kp_value = KeyPurpose SIGN\<rparr>,
       \<lparr>kp_tag = ALGORITHM, kp_value = Algorithm (last (algorithms (authorizations r)))\<rparr>,
       \<lparr>kp_tag = PADDING, kp_value = PaddingMode PaddingMode_NONE\<rparr>,
       \<lparr>kp_tag = DIGEST, kp_value = Digest Digest_NONE\<rparr>] False"
  defines "signature \<equiv> \<lambda>sg. \<exists>r l op. getKeyEntry ks d = Inr r \<and> algorithms (authorizations r) \<noteq> [] \<and>
        iSecurityLevel r = Some l \<and> created r l = Inr (Some op) \<and> finish ks op (Some dataToSign) None = Inr (Some sg)"
    and "null_call \<equiv> \<exists>r. getKeyEntry ks d = Inr r \<and> algorithms (authorizations r) \<noteq> [] \<and>
        (iSecurityLevel r = None \<or> (\<exists>l. iSecurityLevel r = Some l \<and> created r l = Inr None))"
  shows "(sign StartsWith g sv keyId dataToSign = Returns (SUCCESS, sg) \<longleftrightarrow> signature sg) \<and>
    (sign StartsWith g sv keyId dataToSign = Aborts \<longleftrightarrow> null_call) \<and>
    (sign StartsWith g sv keyId dataToSign = Returns (ERROR_UNKNOWN, []) \<longleftrightarrow> \<not> (\<exists>sg. signature sg) \<and> \<not> null_call)"
proof (cases "getKeyEntry ks d")
  case (Inl e)
  then show ?thesis
    by (simp add: sign_def keyStore2Sign_def assms(2) d_def [symmetric] signature_def null_call_def Let_def)
next
  case (Inr r)
  with assms(3) have f: "find_algorithm (authorizations r) None =
      Returns (if algorithms (authorizations r) = [] then None else Some (last (algorithms (authorizations r))))"
    by (simp add: find_algorithm_typed)
  show ?thesis
    using Inr
    by (auto simp: sign_def keyStore2Sign_def assms(2) d_def [symmetric] signature_def null_call_def created_def
        sign_params_def f Let_def split: sum.split option.split)
qed

theorem sign_exact_witness:
  "sign (\<lambda>s p. prefix p s) 0 (sample_services []) ''USRPKEY_home'' [1, 2] = Returns (SUCCESS, [2, 1])"
proof -
  let ?sv = "sample_services []" and ?sw = "\<lambda>s p :: string. prefix p s"
  have d: "mkKeyDescriptor ?sw 0 (usr_key_alias ?sw ''USRPKEY_home'') =
      \<lparr>kd_domain = SELINUX, kd_nspace = 102, kd_alias = Some ''home'', kd_blob = None\<rparr>"
    by (simp add: usr_key_alias_def c_str_def mkKeyDescriptor_def keystore2_grant_id_prefix_def KS2_NAMESPACE_WIFI_def)
  have k: "keystore2_service ?sv = Some (sample_keystore [])" by (simp add: sample_services_def)
  show ?thesis
    using sign_exact [of ?sv "sample_keystore []" ?sw 0 "''USRPKEY_home''" "[1, 2]" "[2, 1]"] k
    by (simp add: d sample_keystore_def sample_entry_def typed_auths_def algorithms_def)
qed

text \<open>\<open>getPublicKey\<close> reports success with an empty public key if the key has a certificate that is
  neither DER nor PEM: the failure of \<open>extractPubKey\<close> is an empty vector, which the optional result wraps
  as a value.\<close>

lemma public_key_empty_success:
  assumes "keystore2_service sv = Some ks"
    and "getKeyEntry ks (mkKeyDescriptor StartsWith g (usr_key_alias StartsWith keyId)) = Inr r"
    and "certificate r = Some cert" "d2i_X509 ssl cert = None" "PEM_read_X509 ssl cert = None"
  shows "getPublicKey StartsWith g ssl sv keyId = (SUCCESS, [])"
  using assms by (simp add: getPublicKey_def keyStore2GetPubKey_def extractPubKey_def Let_def)

lemma public_key_empty_success_witness:
  "getPublicKey (\<lambda>s p. prefix p s) 0 sample_ssl (sample_services [9]) ''home'' = (SUCCESS, [])"
proof -
  let ?sw = "\<lambda>s p :: string. prefix p s"
  have "mkKeyDescriptor ?sw 0 (usr_key_alias ?sw ''home'') =
      \<lparr>kd_domain = SELINUX, kd_nspace = 102, kd_alias = Some ''home'', kd_blob = None\<rparr>"
    by (simp add: usr_key_alias_def c_str_def mkKeyDescriptor_def keystore2_grant_id_prefix_def KS2_NAMESPACE_WIFI_def)
  then have e: "getKeyEntry (sample_keystore [9]) (mkKeyDescriptor ?sw 0 (usr_key_alias ?sw ''home'')) = Inr (sample_entry [9])"
    by (simp add: sample_keystore_def)
  have k: "keystore2_service (sample_services [9]) = Some (sample_keystore [9])" by (simp add: sample_services_def)
  have c: "certificate (sample_entry [9]) = Some [9]" by (simp add: sample_entry_def)
  have "d2i_X509 sample_ssl [9] = None" "PEM_read_X509 sample_ssl [9] = None" by (simp_all add: sample_ssl_def)
  then show ?thesis by (rule public_key_empty_success [OF k e c])
qed

end
