(* ===== verification/RegexSearch.thy ===== *)
theory RegexSearch
  imports Prelude
begin

text \<open>
  \<open>std::regex\<close> with the extended POSIX grammar and \<open>std::regex_search\<close>, as far as the netd test helpers use
  them: plain characters, the dot, bracket lists of characters and ranges, groups, alternatives, star and
  plus. \<open>parse_ere\<close> is the constructor; it gives \<^term>\<open>None\<close> where the library throws and for what is outside
  that part of the grammar (anchors, escapes, counted repetition, character classes, negated lists, empty
  branches). \<open>regex_search\<close> tries every start in the text and takes derivatives from there.

  Shown: the search finds a match exactly if some part of the text is in the language of the expression,
  which \<open>ere_matches\<close> defines by rules.
\<close>

datatype ere =
    ENone
  | EEmpty
  | EAny
  | EClass "(char \<times> char) list"
  | ESeq ere ere
  | EAlt ere ere
  | EStar ere

abbreviation ELit :: "char \<Rightarrow> ere" where
  "ELit c \<equiv> EClass [(c, c)]"

definition in_class :: "(char \<times> char) list \<Rightarrow> char \<Rightarrow> bool" where
  "in_class ranges c \<longleftrightarrow>
     list_ex (\<lambda>(lo, hi). of_char lo \<le> (of_char c :: nat) \<and> (of_char c :: nat) \<le> of_char hi) ranges"

lemma in_class_code [code]:
  "in_class [] c = False"
  "in_class ((lo, hi) # ranges) c =
     ((if lo = hi then c = lo else of_char lo \<le> (of_char c :: nat) \<and> (of_char c :: nat) \<le> of_char hi) \<or> in_class ranges c)"
  by (auto simp: in_class_def)

text \<open>The language of an expression.\<close>

inductive ere_matches :: "ere \<Rightarrow> string \<Rightarrow> bool" where
  m_empty: "ere_matches EEmpty []"
| m_any: "ere_matches EAny [c]"
| m_class: "in_class ranges c \<Longrightarrow> ere_matches (EClass ranges) [c]"
| m_seq: "ere_matches r s \<Longrightarrow> ere_matches q t \<Longrightarrow> ere_matches (ESeq r q) (s @ t)"
| m_left: "ere_matches r s \<Longrightarrow> ere_matches (EAlt r q) s"
| m_right: "ere_matches q s \<Longrightarrow> ere_matches (EAlt r q) s"
| m_stop: "ere_matches (EStar r) []"
| m_more: "ere_matches r s \<Longrightarrow> s \<noteq> [] \<Longrightarrow> ere_matches (EStar r) t \<Longrightarrow> ere_matches (EStar r) (s @ t)"

inductive_simps ere_matches_simps [simp]:
  "ere_matches ENone s"
  "ere_matches EEmpty s"
  "ere_matches EAny s"
  "ere_matches (EClass ranges) s"
  "ere_matches (ESeq r q) s"
  "ere_matches (EAlt r q) s"

inductive_cases ere_matches_StarE: "ere_matches (EStar r) s"

subsection \<open>The constructor\<close>

text \<open>Sequences and alternatives without the trivial ones.\<close>

fun eseq :: "ere \<Rightarrow> ere \<Rightarrow> ere" where
  "eseq ENone q = ENone"
| "eseq EEmpty q = q"
| "eseq r q = (if q = ENone then ENone else if q = EEmpty then r else ESeq r q)"

fun ealt :: "ere \<Rightarrow> ere \<Rightarrow> ere" where
  "ealt ENone q = q"
| "ealt r q = (if q = ENone then r else EAlt r q)"

text \<open>A frame is an open group: the branches before the last bar, and the current branch backwards.\<close>

type_synonym frame = "ere option \<times> ere list"

definition branch_of :: "ere list \<Rightarrow> ere" where
  "branch_of atoms = fold ESeq atoms EEmpty"

fun close_frame :: "frame \<Rightarrow> ere option" where
  "close_frame (alts, atoms) =
     (if atoms = [] then None
      else Some (case alts of None \<Rightarrow> branch_of atoms | Some r \<Rightarrow> EAlt r (branch_of atoms)))"

fun class_of :: "string \<Rightarrow> (char \<times> char) list" where
  "class_of (a # b # c # cs) =
     (if b = CHR ''-'' then (a, c) # class_of cs else (a, a) # class_of (b # c # cs))"
| "class_of cs = map (\<lambda>c. (c, c)) cs"

definition plain :: "char \<Rightarrow> bool" where
  "plain c \<longleftrightarrow> c \<notin> set ''()|*+.[]{}?^$'' \<and> c \<noteq> CHR 0x5C"

text \<open>\<open>bracket\<close> has the characters of an open bracket list, backwards.\<close>

fun parse_from :: "string option \<Rightarrow> frame list \<Rightarrow> string \<Rightarrow> ere option" where
  "parse_from None [f] [] = close_frame f"
| "parse_from bracket fs [] = None"
| "parse_from bracket [] (c # cs) = None"
| "parse_from (Some b) (f # fs) (c # cs) =
     (if c = CHR '']''
      then if b = [] \<or> last b = CHR ''^'' \<or> CHR ''['' \<in> set b then None
           else parse_from None ((fst f, EClass (class_of (rev b)) # snd f) # fs) cs
      else parse_from (Some (c # b)) (f # fs) cs)"
| "parse_from None (f # fs) (c # cs) =
     (if c = CHR ''('' then parse_from None ((None, []) # f # fs) cs
      else if c = CHR '')''
      then (case fs of [] \<Rightarrow> None
            | g # gs \<Rightarrow> (case close_frame f of None \<Rightarrow> None
                | Some r \<Rightarrow> parse_from None ((fst g, r # snd g) # gs) cs))
      else if c = CHR ''|''
      then (case close_frame f of None \<Rightarrow> None | Some r \<Rightarrow> parse_from None ((Some r, []) # fs) cs)
      else if c = CHR ''*''
      then (case snd f of [] \<Rightarrow> None | r # rs \<Rightarrow> parse_from None ((fst f, EStar r # rs) # fs) cs)
      else if c = CHR ''+''
      then (case snd f of [] \<Rightarrow> None | r # rs \<Rightarrow> parse_from None ((fst f, ESeq r (EStar r) # rs) # fs) cs)
      else if c = CHR ''.'' then parse_from None ((fst f, EAny # snd f) # fs) cs
      else if c = CHR ''['' then parse_from (Some []) (f # fs) cs
      else if plain c then parse_from None ((fst f, ELit c # snd f) # fs) cs
      else None)"

definition parse_ere :: "string \<Rightarrow> ere option" where
  "parse_ere pattern = parse_from None [(None, [])] pattern"

subsection \<open>The search\<close>

fun ere_nullable :: "ere \<Rightarrow> bool" where
  "ere_nullable ENone = False"
| "ere_nullable EEmpty = True"
| "ere_nullable EAny = False"
| "ere_nullable (EClass _) = False"
| "ere_nullable (ESeq r q) = (ere_nullable r \<and> ere_nullable q)"
| "ere_nullable (EAlt r q) = (ere_nullable r \<or> ere_nullable q)"
| "ere_nullable (EStar r) = True"

text \<open>What is left to match after one character.\<close>

fun ere_rest :: "char \<Rightarrow> ere \<Rightarrow> ere" where
  "ere_rest c ENone = ENone"
| "ere_rest c EEmpty = ENone"
| "ere_rest c EAny = EEmpty"
| "ere_rest c (EClass ranges) = (if in_class ranges c then EEmpty else ENone)"
| "ere_rest c (ESeq r q) =
     (if ere_nullable r then ealt (eseq (ere_rest c r) q) (ere_rest c q) else eseq (ere_rest c r) q)"
| "ere_rest c (EAlt r q) = ealt (ere_rest c r) (ere_rest c q)"
| "ere_rest c (EStar r) = eseq (ere_rest c r) (EStar r)"

fun matches_prefix :: "ere \<Rightarrow> string \<Rightarrow> bool" where
  "matches_prefix r [] = ere_nullable r"
| "matches_prefix r (c # cs) =
     (ere_nullable r \<or> (let q = ere_rest c r in q \<noteq> ENone \<and> matches_prefix q cs))"

fun regex_search :: "ere \<Rightarrow> string \<Rightarrow> bool" where
  "regex_search r [] = ere_nullable r"
| "regex_search r (c # cs) = (matches_prefix r (c # cs) \<or> regex_search r cs)"

subsection \<open>Correctness of the search\<close>

lemma ere_matches_eseq [simp]: "ere_matches (eseq r q) s \<longleftrightarrow> ere_matches (ESeq r q) s"
  by (cases r; cases q) auto

lemma ere_matches_ealt [simp]: "ere_matches (ealt r q) s \<longleftrightarrow> ere_matches (EAlt r q) s"
  by (cases r; cases q) auto

lemma ere_nullable_iff: "ere_nullable r \<longleftrightarrow> ere_matches r []"
  by (induction r) (auto intro: ere_matches.intros)

lemma ere_matches_Star_Cons:
  "ere_matches (EStar r) (c # cs) \<longleftrightarrow> (\<exists>s t. cs = s @ t \<and> ere_matches r (c # s) \<and> ere_matches (EStar r) t)"
proof
  assume "ere_matches (EStar r) (c # cs)"
  then show "\<exists>s t. cs = s @ t \<and> ere_matches r (c # s) \<and> ere_matches (EStar r) t"
    by (rule ere_matches_StarE) (auto simp: Cons_eq_append_conv)
next
  assume "\<exists>s t. cs = s @ t \<and> ere_matches r (c # s) \<and> ere_matches (EStar r) t"
  then obtain s t where "cs = s @ t" "ere_matches r (c # s)" "ere_matches (EStar r) t" by blast
  with m_more [of r "c # s" t] show "ere_matches (EStar r) (c # cs)" by simp
qed

lemma ere_rest_iff: "ere_matches (ere_rest c r) s \<longleftrightarrow> ere_matches r (c # s)"
proof (induction r arbitrary: s)
  case (ESeq r q)
  then show ?case
    by (auto simp: ere_nullable_iff Cons_eq_append_conv)
next
  case (EStar r)
  then show ?case by (auto simp: ere_matches_Star_Cons)
qed auto

lemma matches_prefix_iff: "matches_prefix r s \<longleftrightarrow> (\<exists>m b. s = m @ b \<and> ere_matches r m)"
proof (induction s arbitrary: r)
  case Nil
  then show ?case by (simp add: ere_nullable_iff)
next
  case (Cons c s)
  have "\<not> ere_matches r (c # m)" if "ere_rest c r = ENone" for m using that ere_rest_iff [of c r m] by simp
  with Cons show ?case
    by (auto simp: ere_nullable_iff Let_def Cons_eq_append_conv ere_rest_iff)
qed

lemma regex_search_iff:
  "regex_search r s \<longleftrightarrow> (\<exists>a m b. s = a @ m @ b \<and> ere_matches r m)"
proof (induction s)
  case Nil
  then show ?case by (simp add: ere_nullable_iff)
next
  case (Cons c s)
  have "(\<exists>a m b. c # s = a @ m @ b \<and> ere_matches r m) \<longleftrightarrow>
      (\<exists>m b. c # s = m @ b \<and> ere_matches r m) \<or> (\<exists>a m b. s = a @ m @ b \<and> ere_matches r m)"
    (is "?L \<longleftrightarrow> ?P \<or> ?S")
  proof
    assume ?L
    then obtain a m b where "c # s = a @ m @ b" "ere_matches r m" by blast
    then show "?P \<or> ?S" by (cases a) auto
  next
    assume "?P \<or> ?S"
    then show ?L
    proof
      assume ?P
      then show ?L by (metis append_Nil)
    next
      assume ?S
      then obtain a m b where "s = a @ m @ b" "ere_matches r m" by blast
      then have "c # s = (c # a) @ m @ b" by simp
      with \<open>ere_matches r m\<close> show ?L by blast
    qed
  qed
  with Cons show ?case by (simp add: matches_prefix_iff)
qed

subsection \<open>Expressions of a simple shape\<close>

lemma parse_plain:
  assumes "list_all plain cs"
  shows "parse_from None ((alts, atoms) # fs) (cs @ rest) = parse_from None ((alts, rev (map ELit cs) @ atoms) # fs) rest"
  using assms
proof (induction cs arbitrary: atoms)
  case (Cons c cs)
  from Cons.prems have "plain c" "c \<notin> set ''()|*+.[''" by (auto simp: plain_def)
  with Cons show ?case by simp
qed simp

lemma branch_of_snoc: "branch_of (atoms @ [r]) = ESeq r (branch_of atoms)"
  by (simp add: branch_of_def)

lemma branch_of_Nil: "branch_of [] = EEmpty"
  by (simp add: branch_of_def)

lemma in_class_single: "in_class [(c, c)] d \<longleftrightarrow> d = c"
  by (auto simp: in_class_def)

lemma matches_literals:
  "ere_matches (branch_of (atoms @ rev (map ELit cs))) s \<longleftrightarrow> (\<exists>t. s = cs @ t \<and> ere_matches (branch_of atoms) t)"
proof (induction cs arbitrary: s)
  case (Cons c cs)
  have "branch_of (atoms @ rev (map ELit (c # cs))) = ESeq (ELit c) (branch_of (atoms @ rev (map ELit cs)))"
    using branch_of_snoc [of "atoms @ rev (map ELit cs)" "ELit c"] by simp
  then show ?case using Cons by (auto simp: in_class_single)
qed simp

lemma matches_class_seq:
  "ere_matches (ESeq (EClass ranges) q) s \<longleftrightarrow> (\<exists>c t. s = c # t \<and> in_class ranges c \<and> ere_matches q t)"
proof -
  have "ere_matches (ESeq (EClass ranges) q) (c # t)" if "in_class ranges c" "ere_matches q t" for c t
    using m_seq [OF m_class [OF that(1)] that(2)] by simp
  then show ?thesis by auto
qed

lemma matches_Star_class:
  "ere_matches (EStar (EClass ranges)) s \<longleftrightarrow> (\<forall>c \<in> set s. in_class ranges c)"
proof (induction s)
  case (Cons c s)
  then show ?case by (auto simp: ere_matches_Star_Cons)
qed (simp add: m_stop)

lemma matches_Star_any: "ere_matches (EStar EAny) s"
proof (induction s)
  case (Cons c s)
  then show ?case by (auto simp: ere_matches_Star_Cons)
qed (rule m_stop)

end
