(* ===== verification/NetdTestUtils.thy ===== *)
theory NetdTestUtils
  imports HexInput RegexSearch "HOL-Library.Sublist" "HOL-Library.Code_Target_Nat"
begin

text \<open>
  The helpers of the netd HAL tests, \<open>net/netd/testutils/VtsHalNetNetdTestUtils.cpp\<close>: whether a network
  exists, whether an address can be reached through it, and how many routing rules match.

  System calls are inputs: \<open>net_calls\<close> has what each of them returns and the value of \<open>errno\<close> after it. A
  function returns its result and the resources it acquired and gave back, in order. What a command prints
  is the argument \<open>output\<close> (\<^term>\<open>None\<close> if it cannot be started). Counting rules gives \<^term>\<open>None\<close> if the
  pattern is none that \<open>RegexSearch\<close> has.

  Shown: success is reported exactly if every call succeeded, addresses are always freed, and the only
  socket that is ever left open is the one of \<open>checkReachability\<close> when selecting the network fails; the
  lines of a command are its output cut after every newline; and for a mark of 16 bits the pattern of
  \<open>countRulesForFwmark\<close> selects the rules that have these bits, whatever bits are above them.
\<close>

record net_calls =
  nc_getaddrinfo :: int
  nc_socket :: int
  nc_socket_errno :: int
  nc_setsocknetwork :: int
  nc_setsocknetwork_errno :: int
  nc_connect :: int
  nc_connect_errno :: int

datatype net_resource = OpenSocket int | CloseSocket int | AllocAddr | FreeAddr

definition ENOTSOCK :: int where
  "ENOTSOCK = 88"

definition EINVAL :: int where
  "EINVAL = 22"

definition checkNetworkExists :: "net_calls \<Rightarrow> int \<times> net_resource list" where
  "checkNetworkExists nc =
     (let sock = nc_socket nc in
      if sock = -1 then (- ENOTSOCK, [])
      else
        let ret = nc_setsocknetwork nc;
            ret' = (if ret \<noteq> 0 then - nc_setsocknetwork_errno nc else ret)
        in (ret', [OpenSocket sock, CloseSocket sock]))"

text \<open>\<open>errno\<close> is read after \<open>close\<close>, so it is the value then.\<close>

definition checkReachability :: "net_calls \<Rightarrow> int \<times> net_resource list" where
  "checkReachability nc =
     (if nc_getaddrinfo nc \<noteq> 0 then (- EINVAL, [])
      else
        let sock = nc_socket nc in
        if sock = -1 then (- nc_socket_errno nc, [AllocAddr, FreeAddr])
        else if nc_setsocknetwork nc = -1
        then (- nc_setsocknetwork_errno nc, [AllocAddr, OpenSocket sock, FreeAddr])
        else
          let ret = nc_connect nc;
              ret' = (if ret = -1 then - nc_connect_errno nc else ret)
          in (ret', [AllocAddr, OpenSocket sock, CloseSocket sock, FreeAddr]))"

text \<open>The lines \<open>getline\<close> of the C library gives, each with its newline.\<close>

function raw_lines :: "string \<Rightarrow> string list" where
  "raw_lines s =
     (if s = [] then []
      else (takeWhile (\<lambda>c. c \<noteq> newline) s @ take 1 (dropWhile (\<lambda>c. c \<noteq> newline) s)) #
        raw_lines (tl (dropWhile (\<lambda>c. c \<noteq> newline) s)))"
  by pat_completeness auto
termination
  by (relation "measure length") (auto simp only: in_measure intro: length_tl_dropWhile)

declare raw_lines.simps [simp del]

definition runCommand :: "(string \<Rightarrow> string option) \<Rightarrow> string \<Rightarrow> string list" where
  "runCommand output command = (case output command of None \<Rightarrow> [] | Some text \<Rightarrow> raw_lines text)"

definition IP_PATH :: string where
  "IP_PATH = ''/system/bin/ip''"

definition listIpRules :: "(string \<Rightarrow> string option) \<Rightarrow> string \<Rightarrow> string list" where
  "listIpRules output ipVersion = runCommand output (IP_PATH @ '' '' @ ipVersion @ '' rule list'')"

definition countMatchingIpRules :: "(string \<Rightarrow> string option) \<Rightarrow> string \<Rightarrow> i32 option" where
  "countMatchingIpRules output regexString = do {
     regex \<leftarrow> parse_ere regexString;
     Some (fold (\<lambda>version matches.
         fold (\<lambda>rule matches. if regex_search regex rule then matches + 1 else matches)
           (listIpRules output version) matches)
       [''-4'', ''-6''] 0)
   }"

text \<open>The pattern has the mark twice, printed with \<open>%x\<close> and with \<open>%04x\<close>.\<close>

definition hex4 :: "nat \<Rightarrow> string" where
  "hex4 n = replicate (4 - length (hex_nat n)) CHR ''0'' @ hex_nat n"

definition fwmark_pattern :: "u32 \<Rightarrow> string" where
  "fwmark_pattern fwmark =
     ''from all fwmark 0x('' @ hex_nat (unat fwmark) @ ''|[0-9a-f]+'' @ hex4 (unat fwmark) @ '')/.* lookup ''"

definition countRulesForFwmark :: "(string \<Rightarrow> string option) \<Rightarrow> u32 \<Rightarrow> i32 option" where
  "countRulesForFwmark output fwmark = countMatchingIpRules output (fwmark_pattern fwmark)"

subsection \<open>Lines and matches\<close>

lemma take1_tl: "take 1 xs @ tl xs = xs"
  by (cases xs) simp_all

lemma concat_raw_lines: "concat (raw_lines s) = s"
proof (induction s rule: raw_lines.induct)
  case (1 s)
  show ?case
  proof (cases "s = []")
    case True
    then show ?thesis by (simp only: raw_lines.simps [of "[]"] simp_thms if_True concat.simps)
  next
    case False
    then show ?thesis
      by (simp only: raw_lines.simps [of s] if_False concat.simps "1" [OF False] append_assoc take1_tl takeWhile_dropWhile_id)
  qed
qed

lemma fold_count:
  "fold (\<lambda>x n. if P x then n + 1 else n) xs n = n + (of_nat (length (filter P xs)) :: 'a :: semiring_1)"
  by (induction xs arbitrary: n) (simp_all add: ac_simps)

lemma countMatchingIpRules_eq:
  "countMatchingIpRules output p = map_option (\<lambda>regex.
     of_nat (length (filter (regex_search regex) (listIpRules output ''-4'' @ listIpRules output ''-6'')))) (parse_ere p)"
  by (simp add: countMatchingIpRules_def fold_count split: bind_split)

subsection \<open>Marks in hexadecimal\<close>

definition low_hex :: "char \<Rightarrow> bool" where
  "low_hex c \<longleftrightarrow> in_class [(CHR ''0'', CHR ''9''), (CHR ''a'', CHR ''f'')] c"

lemma hex_digit_low: "n < 16 \<Longrightarrow> low_hex (hex_digits ! n)"
proof -
  assume n: "n < 16"
  have "list_all (\<lambda>n. low_hex (hex_digits ! n)) [0..<16]" by code_simp
  with n show ?thesis by (simp add: list_all_iff del: upt_rec_numeral)
qed

lemma hex_nat_low: "list_all low_hex (hex_nat n)"
proof (induction n rule: hex_nat.induct)
  case (1 n)
  then show ?case by (subst hex_nat.simps) (simp add: hex_digit_low)
qed

lemma hex4_low: "list_all low_hex (hex4 n)"
  using hex_nat_low [of n] by (auto simp: hex4_def list_all_iff low_hex_def in_class_def)

lemma low_hex_plain: "low_hex c \<Longrightarrow> plain c \<and> c \<noteq> CHR ''/''"
  by (auto simp: low_hex_def plain_def in_class_def)

lemma low_hex_all_plain: "list_all low_hex cs \<Longrightarrow> list_all plain cs \<and> CHR ''/'' \<notin> set cs"
  using low_hex_plain by (auto simp: list_all_iff)

text \<open>Four digits at the end are the lower 16 bits.\<close>

lemma hex_nat_step: "16 \<le> n \<Longrightarrow> hex_nat n = hex_nat (n div 16) @ [hex_digits ! (n mod 16)]"
  by (subst hex_nat.simps) simp

lemma hex_nat_digit: "n < 16 \<Longrightarrow> hex_nat n = [hex_digits ! n]"
  by (subst hex_nat.simps) simp

definition digits4 :: "nat \<Rightarrow> string" where
  "digits4 n = [hex_digits ! (n div 4096 mod 16), hex_digits ! (n div 256 mod 16), hex_digits ! (n div 16 mod 16), hex_digits ! (n mod 16)]"

lemma hex_nat_high:
  assumes "2 ^ 16 \<le> n"
  shows "hex_nat n = hex_nat (n div 2 ^ 16) @ digits4 n"
proof -
  have ge: "16 \<le> n" "16 \<le> n div 16" "16 \<le> n div 256" "16 \<le> n div 4096" using assms by auto
  have "hex_nat n = hex_nat (n div 4096 div 16) @
      [hex_digits ! (n div 4096 mod 16), hex_digits ! (n div 256 mod 16), hex_digits ! (n div 16 mod 16), hex_digits ! (n mod 16)]"
    using hex_nat_step [OF ge(1)] hex_nat_step [OF ge(2)] hex_nat_step [OF ge(3)] hex_nat_step [OF ge(4)]
    by (simp add: div_mult2_eq [symmetric])
  then show ?thesis by (simp add: digits4_def div_mult2_eq [symmetric])
qed

lemma hex_digits_0: "hex_digits ! 0 = CHR ''0''"
  by (simp add: hex_digits_def)

lemma hex4_digits4:
  assumes "n < 2 ^ 16"
  shows "hex4 n = digits4 n"
proof -
  consider "n < 16" | "16 \<le> n" "n < 256" | "256 \<le> n" "n < 4096" | "4096 \<le> n" by linarith
  then show ?thesis
  proof cases
    case 1
    then show ?thesis by (simp add: hex4_def digits4_def hex_nat_digit hex_digits_0 numeral_3_eq_3)
  next
    case 2
    then have "n div 16 < 16" by auto
    with 2 show ?thesis
      by (simp add: hex4_def digits4_def hex_nat_step hex_nat_digit hex_digits_0 numeral_2_eq_2)
  next
    case 3
    then have "16 \<le> n div 16" "n div 256 < 16" by auto
    with 3 show ?thesis
      by (simp add: hex4_def digits4_def hex_nat_step hex_nat_digit hex_digits_0 div_mult2_eq [symmetric])
  next
    case 4
    with assms have "16 \<le> n div 16" "16 \<le> n div 256" "n div 4096 < 16" by auto
    with 4 show ?thesis
      by (simp add: hex4_def digits4_def hex_nat_step hex_nat_digit hex_digits_0 div_mult2_eq [symmetric])
  qed
qed

lemma digits4_mod: "digits4 (n mod 2 ^ 16) = digits4 n"
proof -
  have *: "(n mod (k * m)) div k mod 16 = n div k mod 16" if "16 dvd m" "0 < k" for k m :: nat
    using that by (simp add: mod_mult2_eq mod_mod_cancel)
  from * [of 16 4096]
  show ?thesis using * [of 4096 16] * [of 256 256] mod_mod_cancel [of 16 65536 n] by (simp add: digits4_def)
qed

lemma hex_number_append: "hex_number (a @ b) = hex_number a * 16 ^ length b + hex_number b"
proof (induction b rule: rev_induct)
  case (snoc c b)
  then show ?case using hex_number_snoc [of "a @ b" c] hex_number_snoc [of b c] by (simp add: algebra_simps)
qed (simp add: hex_number_def)

lemma hex_number_zeros: "hex_number (replicate k CHR ''0'') = 0"
  by (induction k) (simp_all add: hex_number_def hex_value_def)

lemma hex_number_hex4: "hex_number (hex4 n) = n"
  by (simp add: hex4_def hex_number_append hex_number_zeros)

lemma hex_mark_iff:
  assumes "f < 2 ^ 16"
  shows "hex_nat m = hex_nat f \<or> (\<exists>d. d \<noteq> [] \<and> list_all low_hex d \<and> hex_nat m = d @ hex4 f) \<longleftrightarrow> m mod 2 ^ 16 = f"
    (is "?L \<longleftrightarrow> ?R")
proof
  assume ?L
  then show ?R
  proof
    assume "hex_nat m = hex_nat f"
    then have "m = f" by (metis hex_number_hex_nat)
    with assms show ?R by simp
  next
    assume "\<exists>d. d \<noteq> [] \<and> list_all low_hex d \<and> hex_nat m = d @ hex4 f"
    then obtain d where "hex_nat m = d @ hex4 f" by blast
    then have "m = hex_number d * 16 ^ length (hex4 f) + f" by (metis hex_number_append hex_number_hex4 hex_number_hex_nat)
    moreover have "length (hex4 f) = 4" using assms by (simp add: hex4_digits4 digits4_def)
    ultimately show ?R using assms by simp
  qed
next
  assume R: ?R
  show ?L
  proof (cases "m < 2 ^ 16")
    case True
    with R show ?thesis by simp
  next
    case False
    with hex_nat_high [of m] digits4_mod [of m] R hex4_digits4 [OF assms]
    have "hex_nat m = hex_nat (m div 2 ^ 16) @ hex4 f" by simp
    with hex_nat_low hex_nat_ne show ?thesis by blast
  qed
qed

subsection \<open>The pattern\<close>

definition mark_text :: string where
  "mark_text = ''from all fwmark 0x''"

definition mark_ere :: "nat \<Rightarrow> ere" where
  "mark_ere f =
     (let digit = EClass [(CHR ''0'', CHR ''9''), (CHR ''a'', CHR ''f'')];
          mark = EAlt (branch_of (rev (map ELit (hex_nat f)))) (branch_of (rev (map ELit (hex4 f)) @ [ESeq digit (EStar digit)]))
      in branch_of ((rev (map ELit '' lookup '') @ [EStar EAny, ELit (CHR ''/''), mark]) @ rev (map ELit mark_text)))"

lemma parse_fwmark: "parse_ere (fwmark_pattern f) = Some (mark_ere (unat f))"
proof -
  have h: "list_all plain (hex_nat n)" "list_all plain (hex4 n)" "hex4 n \<noteq> []" for n
    using low_hex_all_plain hex_nat_low hex4_low by (auto simp: hex4_def)
  show ?thesis
    by (simp add: parse_ere_def fwmark_pattern_def parse_plain h plain_def mark_ere_def mark_text_def Let_def)
qed

lemma matches_literals_only: "ere_matches (branch_of (rev (map ELit cs))) s \<longleftrightarrow> s = cs"
  using matches_literals [of "[]" cs s] by (simp add: branch_of_Nil)

lemma mark_ere_iff:
  "ere_matches (mark_ere f) s \<longleftrightarrow>
     (\<exists>h t. s = mark_text @ h @ ''/'' @ t @ '' lookup '' \<and>
        (h = hex_nat f \<or> (\<exists>d. d \<noteq> [] \<and> list_all low_hex d \<and> h = d @ hex4 f)))"
proof -
  let ?digit = "EClass [(CHR ''0'', CHR ''9''), (CHR ''a'', CHR ''f'')]"
  define digits where "digits = ESeq ?digit (EStar ?digit)"
  let ?mark = "EAlt (branch_of (rev (map ELit (hex_nat f)))) (branch_of (rev (map ELit (hex4 f)) @ [digits]))"
  have "ere_matches digits d \<longleftrightarrow> d \<noteq> [] \<and> list_all low_hex d" for d
    unfolding digits_def by (cases d) (simp_all add: matches_class_seq matches_Star_class list_all_iff low_hex_def
        del: ere_matches_simps)
  then have mark: "ere_matches ?mark h \<longleftrightarrow> h = hex_nat f \<or> (\<exists>d. d \<noteq> [] \<and> list_all low_hex d \<and> h = d @ hex4 f)" for h
    by (auto simp: branch_of_snoc matches_literals_only)
  have tail: "ere_matches (branch_of (rev (map ELit '' lookup '') @ [EStar EAny, ELit (CHR ''/''), ?mark])) s \<longleftrightarrow>
      (\<exists>h t. s = h @ ''/'' @ t @ '' lookup '' \<and> ere_matches ?mark h)" for s
  proof -
    have "branch_of (rev (map ELit '' lookup '') @ [EStar EAny, ELit (CHR ''/''), ?mark]) =
        ESeq ?mark (ESeq (ELit (CHR ''/'')) (ESeq (EStar EAny) (branch_of (rev (map ELit '' lookup '')))))"
      by (simp add: branch_of_def)
    then show ?thesis
      by (auto simp only: ere_matches_simps(4,5) matches_literals_only matches_Star_any in_class_single) auto
  qed
  show ?thesis
    unfolding mark_ere_def Let_def digits_def [symmetric] matches_literals tail mark by blast
qed

lemma search_mark_iff:
  "regex_search (mark_ere f) s \<longleftrightarrow>
     (\<exists>a h t b. s = a @ mark_text @ h @ ''/'' @ t @ '' lookup '' @ b \<and>
        (h = hex_nat f \<or> (\<exists>d. d \<noteq> [] \<and> list_all low_hex d \<and> h = d @ hex4 f)))"
  (is "?L \<longleftrightarrow> (\<exists>a h t b. s = ?text a h t b \<and> ?mark h)")
proof
  assume ?L
  then obtain a m b where "s = a @ m @ b" "ere_matches (mark_ere f) m" unfolding regex_search_iff by blast
  moreover from this(2) obtain h t where "m = mark_text @ h @ ''/'' @ t @ '' lookup ''" "?mark h"
    unfolding mark_ere_iff by blast
  ultimately have "s = ?text a h t b \<and> ?mark h" by simp
  then show "\<exists>a h t b. s = ?text a h t b \<and> ?mark h" by blast
next
  assume "\<exists>a h t b. s = ?text a h t b \<and> ?mark h"
  then obtain a h t b where "s = ?text a h t b" "?mark h" by blast
  then have "s = a @ (mark_text @ h @ ''/'' @ t @ '' lookup '') @ b" "ere_matches (mark_ere f) (mark_text @ h @ ''/'' @ t @ '' lookup '')"
    unfolding mark_ere_iff by (simp, blast)
  then show ?L unfolding regex_search_iff by blast
qed

lemma mark_text_once:
  assumes "CHR ''f'' \<notin> set pre" "\<not> sublist ''from all'' rest" "pre @ mark_text @ rest = a @ mark_text @ t"
  shows "a = pre \<and> t = rest"
proof -
  have no: "rest \<noteq> v @ mark_text @ w" for v w
    using assms(2) by (auto simp: sublist_def mark_text_def)
  from assms(3) consider us where "pre = a @ us" "us @ mark_text @ rest = mark_text @ t"
    | us where "a = pre @ us" "mark_text @ rest = us @ mark_text @ t"
    using append_eq_append_conv2 [THEN iffD1, OF assms(3)] by fastforce
  then show ?thesis
  proof cases
    case 1
    with assms(1) show ?thesis by (cases us) (auto simp: mark_text_def)
  next
    case 2
    from 2(2) consider vs where "mark_text = us @ vs" "vs @ rest = mark_text @ t"
      | vs where "rest = vs @ mark_text @ t"
      using append_eq_append_conv2 [THEN iffD1, OF 2(2)] by fastforce
    then show ?thesis
    proof cases
      case 1
      then have "us = []"
        using no [of "[]" t] by (auto simp: mark_text_def Cons_eq_append_conv)
      with 2 show ?thesis by simp
    qed (use no in blast)
  qed
qed

text \<open>The rules \<open>ip rule list\<close> prints, one to a line: those for a mark, and others.\<close>

datatype ip_rule = MarkRule string nat string | OtherRule string

fun rule_line :: "ip_rule \<Rightarrow> string" where
  "rule_line (MarkRule pre m post) = pre @ mark_text @ hex_nat m @ ''/'' @ post"
| "rule_line (OtherRule line) = line"

fun rule_ok :: "ip_rule \<Rightarrow> bool" where
  "rule_ok (MarkRule pre m post) \<longleftrightarrow> CHR ''f'' \<notin> set pre \<and> \<not> sublist ''from all'' (hex_nat m @ ''/'' @ post)"
| "rule_ok (OtherRule line) \<longleftrightarrow> \<not> sublist mark_text line"

fun rule_selects :: "nat \<Rightarrow> ip_rule \<Rightarrow> bool" where
  "rule_selects f (MarkRule pre m post) \<longleftrightarrow> m mod 2 ^ 16 = f \<and> sublist '' lookup '' post"
| "rule_selects f (OtherRule line) \<longleftrightarrow> False"

lemma slash_unique:
  assumes "CHR ''/'' \<notin> set a" "CHR ''/'' \<notin> set b" "a @ ''/'' @ s = b @ ''/'' @ t"
  shows "a = b \<and> s = t"
  using assms by (auto simp: append_eq_append_conv2 Cons_eq_append_conv append_eq_Cons_conv)

lemma mark_ere_rule:
  assumes "f < 2 ^ 16" "rule_ok r"
  shows "regex_search (mark_ere f) (rule_line r) \<longleftrightarrow> rule_selects f r"
proof (cases r)
  case (OtherRule line)
  have "sublist mark_text line" if "regex_search (mark_ere f) line"
    using that unfolding search_mark_iff sublist_def by blast
  with OtherRule assms(2) show ?thesis by auto
next
  case (MarkRule pre m post)
  let ?h = "\<lambda>h. h = hex_nat f \<or> (\<exists>d. d \<noteq> [] \<and> list_all low_hex d \<and> h = d @ hex4 f)"
  have noslash: "CHR ''/'' \<notin> set h" if "?h h" for h
    using that low_hex_all_plain hex_nat_low hex4_low by auto
  have "regex_search (mark_ere f) (rule_line r) \<longleftrightarrow>
      (\<exists>a h t b. pre @ mark_text @ hex_nat m @ ''/'' @ post = a @ mark_text @ h @ ''/'' @ t @ '' lookup '' @ b \<and> ?h h)"
    unfolding search_mark_iff MarkRule rule_line.simps ..
  also have "\<dots> \<longleftrightarrow> (\<exists>t b. post = t @ '' lookup '' @ b) \<and> ?h (hex_nat m)" (is "?L \<longleftrightarrow> ?R")
  proof
    assume ?L
    then obtain a h t b where eq: "pre @ mark_text @ hex_nat m @ ''/'' @ post = a @ mark_text @ h @ ''/'' @ t @ '' lookup '' @ b"
      and h: "?h h" by blast
    from assms(2) MarkRule have ok: "CHR ''f'' \<notin> set pre" "\<not> sublist ''from all'' (hex_nat m @ ''/'' @ post)" by simp_all
    from mark_text_once [OF ok eq] have "h @ ''/'' @ t @ '' lookup '' @ b = hex_nat m @ ''/'' @ post" by (rule conjunct2)
    then have hp: "h = hex_nat m \<and> t @ '' lookup '' @ b = post"
      by (rule slash_unique [OF noslash [OF h] conjunct2 [OF low_hex_all_plain [OF hex_nat_low]]])
    show ?R using h unfolding conjunct1 [OF hp] conjunct2 [OF hp, symmetric] by blast
  qed blast
  finally show ?thesis using hex_mark_iff [OF assms(1), of m] MarkRule by (auto simp: sublist_def)
qed

subsection \<open>Properties\<close>

text \<open>The sockets a function opened and did not close.\<close>

definition leaked_sockets :: "net_resource list \<Rightarrow> int list" where
  "leaked_sockets rs = filter (\<lambda>s. CloseSocket s \<notin> set rs) (concat (map (\<lambda>r. case r of OpenSocket s \<Rightarrow> [s] | _ \<Rightarrow> []) rs))"

text \<open>Provided \<open>errno\<close> is set when a call fails, the two checks report success exactly if every
  system call succeeded; addresses that were allocated are freed; and no socket is left open except
  by \<open>checkReachability\<close> when the network cannot be selected for its socket.\<close>

lemma net_checks_resources:
  assumes "0 < nc_socket_errno nc" "0 < nc_setsocknetwork_errno nc" "0 < nc_connect_errno nc"
    and "nc_setsocknetwork nc \<in> {0, -1}" "nc_connect nc \<in> {0, -1}"
  shows "(fst (checkNetworkExists nc) = 0 \<longleftrightarrow> nc_socket nc \<noteq> -1 \<and> nc_setsocknetwork nc = 0) \<and>
    (fst (checkReachability nc) = 0 \<longleftrightarrow>
       nc_getaddrinfo nc = 0 \<and> nc_socket nc \<noteq> -1 \<and> nc_setsocknetwork nc = 0 \<and> nc_connect nc = 0) \<and>
    count_list (snd (checkReachability nc)) FreeAddr = count_list (snd (checkReachability nc)) AllocAddr \<and>
    leaked_sockets (snd (checkNetworkExists nc)) = [] \<and>
    leaked_sockets (snd (checkReachability nc)) =
      (if nc_getaddrinfo nc = 0 \<and> nc_socket nc \<noteq> -1 \<and> nc_setsocknetwork nc = -1 then [nc_socket nc] else [])"
  using assms
  by (auto simp: checkNetworkExists_def checkReachability_def leaked_sockets_def ENOTSOCK_def EINVAL_def Let_def)

lemma net_checks_resources_witness:
  "leaked_sockets (snd (checkReachability \<lparr>nc_getaddrinfo = 0, nc_socket = 4, nc_socket_errno = 1,
     nc_setsocknetwork = -1, nc_setsocknetwork_errno = 64, nc_connect = 0, nc_connect_errno = 1\<rparr>)) = [4]"
  using net_checks_resources [of "\<lparr>nc_getaddrinfo = 0, nc_socket = 4, nc_socket_errno = 1,
     nc_setsocknetwork = -1, nc_setsocknetwork_errno = 64, nc_connect = 0, nc_connect_errno = 1\<rparr>"] by simp

text \<open>C37. For a mark of 16 bits, \<open>countRulesForFwmark\<close> is the number of rules, of both IP versions,
  that look up a table for packets whose mark has these lower 16 bits, whatever the bits above are, and
  none that is for no mark; the regular expression it builds is one that \<open>std::regex\<close> takes.\<close>

theorem fwmark_rules_counted:
  assumes "unat fwmark < 2 ^ 16" "\<forall>r \<in> set rules. rule_ok r"
    and "listIpRules output ''-4'' @ listIpRules output ''-6'' = map rule_line rules"
  shows "countRulesForFwmark output fwmark = Some (of_nat (length (filter (rule_selects (unat fwmark)) rules)))"
proof -
  have "filter (regex_search (mark_ere (unat fwmark))) (map rule_line rules) = map rule_line (filter (rule_selects (unat fwmark)) rules)"
    using assms(1,2) by (induction rules) (simp_all add: mark_ere_rule)
  then show ?thesis
    by (simp only: countRulesForFwmark_def countMatchingIpRules_eq parse_fwmark assms(3) option.map length_map)
qed

definition sample_rules :: "ip_rule list" where
  "sample_rules =
     [OtherRule (''0: from all lookup local'' @ [newline]), MarkRule ''1: '' 65636 (''0x1ffff lookup tun0'' @ [newline]),
      MarkRule ''2: '' 101 (''0x1ffff lookup tun1'' @ [newline])]"

definition sample_output :: "string \<Rightarrow> string option" where
  "sample_output cmd = (if cmd = ''/system/bin/ip -4 rule list'' then Some (concat (map rule_line sample_rules)) else None)"

theorem fwmark_rules_counted_witness: "countRulesForFwmark sample_output 100 = Some 1"
proof -
  have "unat (100 :: u32) < 2 ^ 16" by simp
  moreover have "\<forall>r \<in> set sample_rules. rule_ok r" by code_simp
  moreover have "listIpRules sample_output ''-4'' @ listIpRules sample_output ''-6'' = map rule_line sample_rules"
    by code_simp
  ultimately have "countRulesForFwmark sample_output 100 =
      Some (of_nat (length (filter (rule_selects (unat (100 :: u32))) sample_rules)))" by (rule fwmark_rules_counted)
  moreover have "length (filter (rule_selects 100) sample_rules) = 1" by code_simp
  ultimately show ?thesis by simp
qed

text \<open>A mark that is not cut to 16 bits, as in the test of netd 1.0, is compared with all its digits: rules
  for the same network with other permission bits are missed.\<close>

lemma fwmark_not_masked:
  "countRulesForFwmark sample_output 0x30064 = Some 0 \<and> countRulesForFwmark sample_output (take_bit 16 0x30064) = Some 1"
  by code_simp

end
