(* ===== verification/NetdTests.thy ===== *)
theory NetdTests
  imports NetdTestUtils "HOL-Library.State_Monad"
begin

text \<open>
  The VTS tests of the netd HAL, \<open>VtsHalNetNetdV1_0TargetTest.cpp\<close> and \<open>VtsHalNetNetdV1_1TargetTest.cpp\<close>. The
  HAL service, the kernel behind the socket calls and the \<open>ip\<close> command are not in the repository: they are
  the argument \<open>env\<close>, operations on a state of any type. A test is a computation in the state monad; its
  state is that of \<open>env\<close>, the number of failed expectations, and whether the test process has ended. A call that
  fails in transport gives \<^term>\<open>None\<close>; variables that are then not written keep \<open>env_uninit\<close>. A failed
  \<open>EXPECT\<close> counts and the test goes on, a failed \<open>ASSERT\<close> ends it. Reading the value of a \<open>Return\<close> that failed in
  transport, or a call of a null service, ends the process: nothing has an effect after that, and
  \<open>TearDown\<close> does not run.

  Shown: whatever the service answers, a test of version 1.1 destroys every network it creates or its
  process ends, which does not happen if the service is there and no call fails in transport; a transport
  failure does leave the network behind. The tests pass with a small service written down here, and do not
  pass or fail for the right reason with others.
\<close>

unbundle bit_operations_syntax

datatype StatusCode = OK | INVALID_ARGUMENTS | NO_NETWORK | ALREADY_EXISTS | PERMISSION_DENIED | UNKNOWN_ERROR

record 'w netd_env =
  createOemNetwork :: "'w \<Rightarrow> (u64 \<times> u32 \<times> StatusCode) option \<times> 'w"
  destroyOemNetwork :: "u64 \<Rightarrow> 'w \<Rightarrow> StatusCode option \<times> 'w"
  addRouteToOemNetwork :: "u64 \<Rightarrow> string \<Rightarrow> string \<Rightarrow> string \<Rightarrow> 'w \<Rightarrow> StatusCode option \<times> 'w"
  removeRouteFromOemNetwork :: "u64 \<Rightarrow> string \<Rightarrow> string \<Rightarrow> string \<Rightarrow> 'w \<Rightarrow> StatusCode option \<times> 'w"
  addInterfaceToOemNetwork :: "u64 \<Rightarrow> string \<Rightarrow> 'w \<Rightarrow> StatusCode option \<times> 'w"
  removeInterfaceFromOemNetwork :: "u64 \<Rightarrow> string \<Rightarrow> 'w \<Rightarrow> StatusCode option \<times> 'w"
  setForwardingBetweenInterfaces :: "string \<Rightarrow> string \<Rightarrow> bool \<Rightarrow> 'w \<Rightarrow> StatusCode option \<times> 'w"
  env_calls :: "'w \<Rightarrow> u64 \<Rightarrow> string \<Rightarrow> net_calls"
  env_output :: "'w \<Rightarrow> string \<Rightarrow> string option"
  env_uninit :: "u64 \<times> u32"
  env_service :: "'w \<Rightarrow> bool"

type_synonym 'w test_state = "'w \<times> nat \<times> bool"

type_synonym ('w, 'a) test = "('w test_state, 'a) state"

definition call :: "('w \<Rightarrow> 'a option \<times> 'w) \<Rightarrow> ('w, 'a option) test" where
  "call f = State (\<lambda>(w, failed, ended).
     if ended then (None, w, failed, ended) else case f w of (x, w') \<Rightarrow> (x, w', failed, ended))"

definition look :: "('w \<Rightarrow> 'a) \<Rightarrow> ('w, 'a) test" where
  "look f = State (\<lambda>(w, failed, ended). (f w, w, failed, ended))"

definition expect :: "bool \<Rightarrow> ('w, unit) test" where
  "expect b = State (\<lambda>(w, failed, ended). ((), w, if b \<or> ended then failed else failed + 1, ended))"

definition end_process :: "('w, unit) test" where
  "end_process = State (\<lambda>(w, failed, ended). ((), w, failed, True))"

definition assert_then :: "bool \<Rightarrow> ('w, unit) test \<Rightarrow> ('w, unit) test" where
  "assert_then b rest = (if b then rest else expect False)"

text \<open>\<open>EXPECT_STATUS\<close>: the second line reads the status.\<close>

definition EXPECT_STATUS :: "StatusCode \<Rightarrow> StatusCode option \<Rightarrow> ('w, unit) test" where
  "EXPECT_STATUS expectedStatus ret = do {
     expect (ret \<noteq> None);
     case ret of None \<Rightarrow> end_process | Some status \<Rightarrow> expect (expectedStatus = status)
   }"

text \<open>\<open>ASSERT_EQ\<close> on a status reads it too.\<close>

definition assert_status :: "StatusCode \<Rightarrow> StatusCode option \<Rightarrow> ('w, unit) test \<Rightarrow> ('w, unit) test" where
  "assert_status expectedStatus ret rest =
     (case ret of None \<Rightarrow> end_process | Some status \<Rightarrow> assert_then (expectedStatus = status) rest)"

text \<open>The helpers of the theory \<open>NetdTestUtils\<close>, in a test.\<close>

definition expect_network :: "'w netd_env \<Rightarrow> int \<Rightarrow> u64 \<Rightarrow> ('w, unit) test" where
  "expect_network env expected h = do {
     ret \<leftarrow> look (\<lambda>w. fst (checkNetworkExists (env_calls env w h [])));
     expect (ret = expected)
   }"

definition expect_rules :: "'w netd_env \<Rightarrow> i32 \<Rightarrow> u32 \<Rightarrow> ('w, unit) test" where
  "expect_rules env expected mark = do {
     n \<leftarrow> look (\<lambda>w. countRulesForFwmark (env_output env w) mark);
     expect (n = Some expected)
   }"

definition expect_matching :: "'w netd_env \<Rightarrow> i32 \<Rightarrow> string \<Rightarrow> ('w, unit) test" where
  "expect_matching env expected regex = do {
     n \<leftarrow> look (\<lambda>w. countMatchingIpRules (env_output env w) regex);
     expect (n = Some expected)
   }"

definition expect_reachability :: "'w netd_env \<Rightarrow> u64 \<Rightarrow> int \<Rightarrow> string \<Rightarrow> ('w, unit) test" where
  "expect_reachability env h expected dst = do {
     ret \<leftarrow> look (\<lambda>w. fst (checkReachability (env_calls env w h dst)));
     expect (ret = expected)
   }"

definition ENONET :: int where
  "ENONET = 64"

definition ENETUNREACH :: int where
  "ENETUNREACH = 101"

definition INVALID_NET_HANDLE :: u64 where
  "INVALID_NET_HANDLE = 0x6600FACADE"

subsection \<open>Version 1.0\<close>

text \<open>\<open>SetUp\<close> asserts that there is a service; there is no \<open>TearDown\<close>.\<close>

definition netd_1_0_test :: "'w netd_env \<Rightarrow> ('w, unit) test \<Rightarrow> ('w, unit) test" where
  "netd_1_0_test env body = do {
     netd \<leftarrow> look (env_service env);
     assert_then netd body
   }"

definition TestCreateAndDestroyOemNetworkOk :: "'w netd_env \<Rightarrow> ('w, unit) test" where
  "TestCreateAndDestroyOemNetworkOk env = do {
     ret \<leftarrow> call (createOemNetwork env);
     case ret of None \<Rightarrow> expect False
     | Some (netHandle, packetMark, status) \<Rightarrow>
         assert_then (status = OK) (assert_then (netHandle \<noteq> 0) (assert_then (packetMark \<noteq> 0) (do {
           exists \<leftarrow> look (\<lambda>w. fst (checkNetworkExists (env_calls env w netHandle [])));
           assert_then (exists = 0) (do {
             rules \<leftarrow> look (\<lambda>w. countRulesForFwmark (env_output env w) packetMark);
             assert_then (rules = Some 0) (do {
               retStatus \<leftarrow> call (destroyOemNetwork env netHandle);
               assert_status OK retStatus (expect_network env (- ENONET) netHandle)
             })
           })
         })))
   }"

definition TestDestroyOemNetworkInvalid :: "'w netd_env \<Rightarrow> ('w, unit) test" where
  "TestDestroyOemNetworkInvalid env = do {
     retStatus \<leftarrow> call (destroyOemNetwork env 0x6600FACADE);
     assert_status INVALID_ARGUMENTS retStatus (State_Monad.return ())
   }"

subsection \<open>Version 1.1: the fixture\<close>

text \<open>What \<open>SetUp\<close> leaves in the fixture: whether \<open>netd\<close> is not null, the network, and whether the assertions held.\<close>

definition netd_SetUp :: "'w netd_env \<Rightarrow> ('w, bool \<times> (u64 \<times> u32) \<times> bool) test" where
  "netd_SetUp env = do {
     netd \<leftarrow> look (env_service env);
     if netd then do {
       ret \<leftarrow> call (createOemNetwork env);
       let (mNetHandle, mPacketMark, ok) = (case ret of
           None \<Rightarrow> (fst (env_uninit env), snd (env_uninit env), False)
         | Some (n, p, status) \<Rightarrow> (n, p, status = OK \<and> n \<noteq> 0 \<and> p \<noteq> 0));
       expect ok;
       State_Monad.return (netd, (mNetHandle, mPacketMark), ok)
     } else do {
       expect False;
       State_Monad.return (netd, env_uninit env, False)
     }
   }"

definition netd_TearDown :: "'w netd_env \<Rightarrow> bool \<Rightarrow> u64 \<Rightarrow> ('w, unit) test" where
  "netd_TearDown env netd mNetHandle =
     (if netd then do { _ \<leftarrow> call (destroyOemNetwork env mNetHandle); State_Monad.return () } else end_process)"

text \<open>The body is left out if \<open>SetUp\<close> fails; \<open>TearDown\<close> is run in any case.\<close>

definition netd_test :: "'w netd_env \<Rightarrow> (u64 \<Rightarrow> u32 \<Rightarrow> ('w, unit) test) \<Rightarrow> ('w, unit) test" where
  "netd_test env body = do {
     (netd, (mNetHandle, mPacketMark), ok) \<leftarrow> netd_SetUp env;
     (if ok then body mNetHandle mPacketMark else State_Monad.return ());
     netd_TearDown env netd mNetHandle
   }"

definition expectAddRoute :: "'w netd_env \<Rightarrow> StatusCode \<Rightarrow> u64 \<Rightarrow> string \<Rightarrow> string \<Rightarrow> string \<Rightarrow> ('w, unit) test" where
  "expectAddRoute env expectedStatus handle iface destination nexthop = do {
     retStatus \<leftarrow> call (addRouteToOemNetwork env handle iface destination nexthop);
     EXPECT_STATUS expectedStatus retStatus
   }"

definition expectRemoveRoute :: "'w netd_env \<Rightarrow> StatusCode \<Rightarrow> u64 \<Rightarrow> string \<Rightarrow> string \<Rightarrow> string \<Rightarrow> ('w, unit) test" where
  "expectRemoveRoute env expectedStatus handle iface destination nexthop = do {
     retStatus \<leftarrow> call (removeRouteFromOemNetwork env handle iface destination nexthop);
     EXPECT_STATUS expectedStatus retStatus
   }"

definition IPV4_ROUTER :: string where "IPV4_ROUTER = ''192.0.2.1''"

definition IPV4_CONNECTED :: string where "IPV4_CONNECTED = ''192.0.2.0/25''"

definition IPV4_SUBNET_1 :: string where "IPV4_SUBNET_1 = ''192.0.2.192/28''"

definition IPV4_HOST_1 :: string where "IPV4_HOST_1 = ''192.0.2.195''"

definition IPV4_SUBNET_2 :: string where "IPV4_SUBNET_2 = ''192.0.2.240/28''"

definition IPV4_HOST_2 :: string where "IPV4_HOST_2 = ''192.0.2.245''"

definition IPV4_UNREACHABLE :: string where "IPV4_UNREACHABLE = ''192.0.2.239''"

definition IPV6_ROUTER :: string where "IPV6_ROUTER = ''2001:db8::cafe''"

definition IPV6_CONNECTED :: string where "IPV6_CONNECTED = ''2001:db8::/64''"

definition IPV6_SUBNET_1 :: string where "IPV6_SUBNET_1 = ''2001:db8:babe::/48''"

definition IPV6_HOST_1 :: string where "IPV6_HOST_1 = ''2001:db8:babe::1''"

definition IPV6_SUBNET_2 :: string where "IPV6_SUBNET_2 = ''2001:db8:d00d::/48''"

definition IPV6_HOST_2 :: string where "IPV6_HOST_2 = ''2001:db8:d00d::1''"

definition IPV6_UNREACHABLE :: string where "IPV6_UNREACHABLE = ''2001:db8:d0a::''"

definition REACHABLE :: "string list" where
  "REACHABLE = [IPV4_ROUTER, IPV4_HOST_1, IPV4_HOST_2, IPV6_ROUTER, IPV6_HOST_1, IPV6_HOST_2]"

definition for_each :: "('a \<Rightarrow> ('w, unit) test) \<Rightarrow> 'a list \<Rightarrow> ('w, unit) test" where
  "for_each f xs = foldr (\<lambda>x m. do { f x; m }) xs (State_Monad.return ())"

definition checkAllReachable :: "'w netd_env \<Rightarrow> u64 \<Rightarrow> ('w, unit) test" where
  "checkAllReachable env handle = do {
     for_each (expect_reachability env handle 0) REACHABLE;
     for_each (expect_reachability env handle (- ENETUNREACH)) [IPV4_UNREACHABLE, IPV6_UNREACHABLE]
   }"

definition checkAllUnreachable :: "'w netd_env \<Rightarrow> u64 \<Rightarrow> ('w, unit) test" where
  "checkAllUnreachable env handle = do {
     for_each (expect_reachability env handle (- ENETUNREACH)) REACHABLE;
     for_each (expect_reachability env handle (- ENETUNREACH)) [IPV4_UNREACHABLE, IPV6_UNREACHABLE]
   }"

subsection \<open>Version 1.1: the tests\<close>

definition TestAddRemoveInterfaces :: "'w netd_env \<Rightarrow> string \<Rightarrow> u64 \<Rightarrow> u32 \<Rightarrow> ('w, unit) test" where
  "TestAddRemoveInterfaces env sIfaceName mNetHandle mPacketMark = do {
     let packetMark = mPacketMark AND 0xffff;
     expect_network env 0 mNetHandle;
     expect_rules env 0 packetMark;
     retStatus \<leftarrow> call (addInterfaceToOemNetwork env mNetHandle sIfaceName);
     expect (retStatus \<noteq> None);
     expect_network env 0 mNetHandle;
     expect_rules env 2 packetMark;
     retStatus \<leftarrow> call (addInterfaceToOemNetwork env mNetHandle sIfaceName);
     expect (retStatus \<noteq> None);
     expect_network env 0 mNetHandle;
     expect_rules env 2 packetMark;
     ret \<leftarrow> call (createOemNetwork env);
     let (netHandle2, packetMark2) = (case ret of None \<Rightarrow> env_uninit env | Some (n, p, _) \<Rightarrow> (n, p AND 0xffff));
     expect (ret \<noteq> None);
     expect (mNetHandle \<noteq> netHandle2);
     expect (packetMark \<noteq> packetMark2);
     expect_network env 0 netHandle2;
     expect_rules env 0 packetMark2;
     retStatus \<leftarrow> call (addInterfaceToOemNetwork env netHandle2 sIfaceName);
     EXPECT_STATUS UNKNOWN_ERROR retStatus;
     retStatus \<leftarrow> call (removeInterfaceFromOemNetwork env mNetHandle sIfaceName);
     EXPECT_STATUS OK retStatus;
     expect_rules env 0 packetMark;
     retStatus \<leftarrow> call (addInterfaceToOemNetwork env netHandle2 sIfaceName);
     EXPECT_STATUS OK retStatus;
     expect_rules env 2 packetMark2;
     retStatus \<leftarrow> call (destroyOemNetwork env netHandle2);
     EXPECT_STATUS OK retStatus;
     expect_network env (- ENONET) netHandle2;
     expect_rules env 0 packetMark2;
     retStatus \<leftarrow> call (addInterfaceToOemNetwork env INVALID_NET_HANDLE sIfaceName);
     EXPECT_STATUS INVALID_ARGUMENTS retStatus;
     retStatus \<leftarrow> call (removeInterfaceFromOemNetwork env INVALID_NET_HANDLE sIfaceName);
     EXPECT_STATUS INVALID_ARGUMENTS retStatus
   }"

definition TestAddRemoveRoutes :: "'w netd_env \<Rightarrow> string \<Rightarrow> u64 \<Rightarrow> u32 \<Rightarrow> ('w, unit) test" where
  "TestAddRemoveRoutes env sIfaceName mNetHandle mPacketMark = do {
     retStatus \<leftarrow> call (addInterfaceToOemNetwork env mNetHandle sIfaceName);
     assert_then (retStatus \<noteq> None) (do {
       expect_network env 0 mNetHandle;
       checkAllUnreachable env mNetHandle;
       expectAddRoute env OK mNetHandle sIfaceName IPV4_CONNECTED [];
       expectAddRoute env OK mNetHandle sIfaceName IPV4_SUBNET_1 IPV4_ROUTER;
       expectAddRoute env OK mNetHandle sIfaceName IPV4_SUBNET_2 IPV4_ROUTER;
       expectAddRoute env OK mNetHandle sIfaceName IPV6_CONNECTED [];
       expectAddRoute env OK mNetHandle sIfaceName IPV6_SUBNET_1 IPV6_ROUTER;
       expectAddRoute env OK mNetHandle sIfaceName IPV6_SUBNET_2 IPV6_ROUTER;
       checkAllReachable env mNetHandle;
       expectRemoveRoute env OK mNetHandle sIfaceName IPV4_CONNECTED [];
       expectRemoveRoute env OK mNetHandle sIfaceName IPV6_CONNECTED [];
       expectRemoveRoute env OK mNetHandle sIfaceName IPV4_SUBNET_1 IPV4_ROUTER;
       expectRemoveRoute env OK mNetHandle sIfaceName IPV4_SUBNET_2 IPV4_ROUTER;
       expectRemoveRoute env OK mNetHandle sIfaceName IPV6_SUBNET_1 IPV6_ROUTER;
       expectRemoveRoute env OK mNetHandle sIfaceName IPV6_SUBNET_2 IPV6_ROUTER;
       checkAllUnreachable env mNetHandle;
       expectRemoveRoute env UNKNOWN_ERROR mNetHandle sIfaceName IPV4_CONNECTED [];
       expectAddRoute env INVALID_ARGUMENTS mNetHandle sIfaceName IPV4_HOST_1 [];
       expectAddRoute env INVALID_ARGUMENTS mNetHandle sIfaceName IPV6_HOST_1 [];
       expectAddRoute env UNKNOWN_ERROR mNetHandle [] IPV4_SUBNET_1 [];
       expectAddRoute env UNKNOWN_ERROR mNetHandle [] IPV6_SUBNET_1 []
     })
   }"

text \<open>The tunnel interfaces of the fixture.\<close>

record tun =
  tun_name :: string
  tun_ifindex :: i32

text \<open>Both table numbers are computed from the first interface.\<close>

definition forwarding_regex :: "string \<Rightarrow> string \<Rightarrow> u32 \<Rightarrow> string" where
  "forwarding_regex iif oif table = ''from all iif '' @ iif @ '' .*lookup ('' @ oif @ ''|'' @ dec_int (sint table) @ '')''"

definition expect_forwarding ::
  "'w netd_env \<Rightarrow> StatusCode \<Rightarrow> string \<Rightarrow> string \<Rightarrow> bool \<Rightarrow> ('w, unit) test" where
  "expect_forwarding env expectedStatus inputIf outputIf enable = do {
     retStatus \<leftarrow> call (setForwardingBetweenInterfaces env inputIf outputIf enable);
     EXPECT_STATUS expectedStatus retStatus
   }"

definition TestForwarding :: "'w netd_env \<Rightarrow> tun \<Rightarrow> tun \<Rightarrow> u64 \<Rightarrow> u32 \<Rightarrow> ('w, unit) test" where
  "TestForwarding env sTun1 sTun2 mNetHandle mPacketMark = do {
     retStatus \<leftarrow> call (addInterfaceToOemNetwork env mNetHandle (tun_name sTun1));
     EXPECT_STATUS OK retStatus;
     retStatus \<leftarrow> call (addInterfaceToOemNetwork env mNetHandle (tun_name sTun2));
     EXPECT_STATUS OK retStatus;
     let table1 = 1000 + tun_ifindex sTun1;
     let table2 = 1000 + tun_ifindex sTun1;
     let regex1 = forwarding_regex (tun_name sTun1) (tun_name sTun2) table2;
     let regex2 = forwarding_regex (tun_name sTun2) (tun_name sTun1) table1;
     expect_matching env 0 regex1;
     expect_matching env 0 regex2;
     expect_forwarding env OK (tun_name sTun1) (tun_name sTun2) True;
     expect_matching env 2 regex1;
     expect_matching env 0 regex2;
     expect_forwarding env OK (tun_name sTun1) (tun_name sTun2) True;
     expect_matching env 4 regex1;
     expect_forwarding env OK (tun_name sTun1) (tun_name sTun2) False;
     expect_matching env 2 regex1;
     expect_forwarding env OK (tun_name sTun2) (tun_name sTun1) True;
     expect_matching env 2 regex1;
     expect_matching env 2 regex2;
     expect_forwarding env OK (tun_name sTun1) (tun_name sTun2) False;
     expect_matching env 0 regex1;
     expect_matching env 2 regex2;
     expect_forwarding env OK (tun_name sTun2) (tun_name sTun1) False;
     expect_matching env 0 regex1;
     expect_matching env 0 regex2;
     expect_forwarding env UNKNOWN_ERROR (tun_name sTun1) (tun_name sTun2) False;
     expect_matching env 0 regex1;
     expect_matching env 0 regex2
   }"

subsection \<open>A small service\<close>

text \<open>
  Networks with their marks and interfaces, routes, and forwarding rules, and what the kernel and \<open>ip\<close> show of
  them; enough to run the tests. \<open>again\<close> is the answer to an interface that is added again, \<open>table\<close> the
  name of the routing table of an interface.
\<close>

record fake_netd =
  fn_next :: nat
  fn_nets :: "(u64 \<times> nat \<times> string list) list"
  fn_routes :: "(u64 \<times> string \<times> string \<times> string) list"
  fn_forward :: "(string \<times> string) list"

definition fn_start :: fake_netd where
  "fn_start = \<lparr>fn_next = 100, fn_nets = [], fn_routes = [], fn_forward = []\<rparr>"

definition fn_create :: "fake_netd \<Rightarrow> (u64 \<times> u32 \<times> StatusCode) option \<times> fake_netd" where
  "fn_create w =
     (let n = fn_next w in
      (Some (of_nat n, of_nat (n + 0x30000), OK), w\<lparr>fn_next := n + 1, fn_nets := (of_nat n, n + 0x10000, []) # fn_nets w\<rparr>))"

definition fn_destroy :: "u64 \<Rightarrow> fake_netd \<Rightarrow> StatusCode option \<times> fake_netd" where
  "fn_destroy h w =
     (if map_of (fn_nets w) h = None then (Some INVALID_ARGUMENTS, w)
      else (Some OK, w\<lparr>fn_nets := filter (\<lambda>x. fst x \<noteq> h) (fn_nets w), fn_routes := filter (\<lambda>x. fst x \<noteq> h) (fn_routes w)\<rparr>))"

definition fn_change :: "u64 \<Rightarrow> (string list \<Rightarrow> string list) \<Rightarrow> fake_netd \<Rightarrow> fake_netd" where
  "fn_change h f w = w\<lparr>fn_nets := map (\<lambda>(n, m, is). (n, m, if n = h then f is else is)) (fn_nets w)\<rparr>"

definition fn_add_interface :: "StatusCode \<Rightarrow> u64 \<Rightarrow> string \<Rightarrow> fake_netd \<Rightarrow> StatusCode option \<times> fake_netd" where
  "fn_add_interface again h i w =
     (case map_of (fn_nets w) h of None \<Rightarrow> (Some INVALID_ARGUMENTS, w)
      | Some (_, is) \<Rightarrow>
          if i \<in> set is then (Some again, w)
          else if list_ex (\<lambda>(_, _, js). i \<in> set js) (fn_nets w) then (Some UNKNOWN_ERROR, w)
          else (Some OK, fn_change h (\<lambda>is. i # is) w))"

definition fn_remove_interface :: "u64 \<Rightarrow> string \<Rightarrow> fake_netd \<Rightarrow> StatusCode option \<times> fake_netd" where
  "fn_remove_interface h i w =
     (case map_of (fn_nets w) h of None \<Rightarrow> (Some INVALID_ARGUMENTS, w)
      | Some (_, is) \<Rightarrow> if i \<in> set is then (Some OK, fn_change h (removeAll i) w) else (Some UNKNOWN_ERROR, w))"

definition fn_add_route :: "u64 \<Rightarrow> string \<Rightarrow> string \<Rightarrow> string \<Rightarrow> fake_netd \<Rightarrow> StatusCode option \<times> fake_netd" where
  "fn_add_route h i d n w =
     (if map_of (fn_nets w) h = None \<or> CHR ''/'' \<notin> set d then (Some INVALID_ARGUMENTS, w)
      else if i = [] \<and> n = [] then (Some UNKNOWN_ERROR, w)
      else (Some OK, w\<lparr>fn_routes := (h, i, d, n) # fn_routes w\<rparr>))"

definition fn_remove_route :: "u64 \<Rightarrow> string \<Rightarrow> string \<Rightarrow> string \<Rightarrow> fake_netd \<Rightarrow> StatusCode option \<times> fake_netd" where
  "fn_remove_route h i d n w =
     (if (h, i, d, n) \<in> set (fn_routes w) then (Some OK, w\<lparr>fn_routes := remove1 (h, i, d, n) (fn_routes w)\<rparr>)
      else (Some UNKNOWN_ERROR, w))"

definition fn_forwarding :: "string \<Rightarrow> string \<Rightarrow> bool \<Rightarrow> fake_netd \<Rightarrow> StatusCode option \<times> fake_netd" where
  "fn_forwarding i out enable w =
     (if enable then (Some OK, w\<lparr>fn_forward := (i, out) # fn_forward w\<rparr>)
      else if (i, out) \<in> set (fn_forward w) then (Some OK, w\<lparr>fn_forward := remove1 (i, out) (fn_forward w)\<rparr>)
      else (Some UNKNOWN_ERROR, w))"

text \<open>The destinations of the tests and the prefix they are in.\<close>

definition fn_prefix :: "string \<Rightarrow> string option" where
  "fn_prefix = map_of
     [(IPV4_ROUTER, IPV4_CONNECTED), (IPV4_HOST_1, IPV4_SUBNET_1), (IPV4_HOST_2, IPV4_SUBNET_2),
      (IPV6_ROUTER, IPV6_CONNECTED), (IPV6_HOST_1, IPV6_SUBNET_1), (IPV6_HOST_2, IPV6_SUBNET_2)]"

definition fn_reaches :: "fake_netd \<Rightarrow> u64 \<Rightarrow> string \<Rightarrow> bool" where
  "fn_reaches w h dst = list_ex (\<lambda>(n, _, d, _). n = h \<and> fn_prefix dst = Some d) (fn_routes w)"

definition fn_calls :: "fake_netd \<Rightarrow> u64 \<Rightarrow> string \<Rightarrow> net_calls" where
  "fn_calls w h dst =
     \<lparr>nc_getaddrinfo = 0, nc_socket = 3, nc_socket_errno = 1,
      nc_setsocknetwork = (if map_of (fn_nets w) h = None then -1 else 0), nc_setsocknetwork_errno = ENONET,
      nc_connect = (if fn_reaches w h dst then 0 else -1), nc_connect_errno = ENETUNREACH\<rparr>"

definition fn_rules :: "(string \<Rightarrow> string) \<Rightarrow> fake_netd \<Rightarrow> string" where
  "fn_rules table w =
     concat (map (\<lambda>(_, m, is). concat (map (\<lambda>i.
         rule_line (MarkRule ''16000: '' m (''0x1ffff lookup '' @ table i @ [newline]))) is)) (fn_nets w)) @
     concat (map (\<lambda>(i, out). ''18000: from all iif '' @ i @ '' lookup '' @ table out @ [newline]) (fn_forward w))"

definition fake_env :: "StatusCode \<Rightarrow> (string \<Rightarrow> string) \<Rightarrow> fake_netd netd_env" where
  "fake_env again table =
     \<lparr>createOemNetwork = fn_create, destroyOemNetwork = fn_destroy, addRouteToOemNetwork = fn_add_route,
      removeRouteFromOemNetwork = fn_remove_route, addInterfaceToOemNetwork = fn_add_interface again,
      removeInterfaceFromOemNetwork = fn_remove_interface, setForwardingBetweenInterfaces = fn_forwarding,
      env_calls = fn_calls, env_output = \<lambda>w _. Some (fn_rules table w), env_uninit = (0, 0),
      env_service = \<lambda>_. True\<rparr>"

definition netd_test_passes :: "(fake_netd, unit) test \<Rightarrow> bool" where
  "netd_test_passes m \<longleftrightarrow> (case snd (run_state m (fn_start, 0, False)) of (_, failed, ended) \<Rightarrow> failed = 0 \<and> \<not> ended)"

definition tun1 :: tun where
  "tun1 = \<lparr>tun_name = ''tun1'', tun_ifindex = 5\<rparr>"

definition tun2 :: tun where
  "tun2 = \<lparr>tun_name = ''tun2'', tun_ifindex = 6\<rparr>"

subsection \<open>Results\<close>

lemma netd_1_0_tests:
  "netd_test_passes (netd_1_0_test (fake_env OK id) (TestCreateAndDestroyOemNetworkOk (fake_env OK id))) \<and>
   netd_test_passes (netd_1_0_test (fake_env OK id) (TestDestroyOemNetworkInvalid (fake_env OK id)))"
  by code_simp

lemma netd_interface_test:
  "netd_test_passes (netd_test (fake_env OK id) (TestAddRemoveInterfaces (fake_env OK id) ''tun1''))"
  by code_simp

lemma netd_route_test:
  "netd_test_passes (netd_test (fake_env OK id) (TestAddRemoveRoutes (fake_env OK id) ''tun1''))"
  by code_simp

lemma netd_forwarding_test:
  "netd_test_passes (netd_test (fake_env OK id) (TestForwarding (fake_env OK id) tun1 tun2))"
  by code_simp

text \<open>The comment of \<open>TestAddRemoveInterfaces\<close> says that adding an interface again silently succeeds; only the
  transport is checked, so a service that answers with an error passes.\<close>

lemma repeated_add_not_checked:
  "netd_test_passes (netd_test (fake_env UNKNOWN_ERROR id) (TestAddRemoveInterfaces (fake_env UNKNOWN_ERROR id) ''tun1''))"
  by code_simp

text \<open>Where tables have no names, the first pattern of \<open>TestForwarding\<close> has the number of the wrong table: it does
  not match the rules for forwarding to the second interface, which the number of that interface would.\<close>

definition table_number :: "string \<Rightarrow> string" where
  "table_number i = (if i = ''tun1'' then ''1005'' else ''1006'')"

lemma forwarding_wrong_table:
  "let rules = (\<lambda>_. Some (fn_rules table_number (fn_start\<lparr>fn_forward := [(''tun1'', ''tun2'')]\<rparr>))) in
   countMatchingIpRules rules (forwarding_regex ''tun1'' ''tun2'' (1000 + tun_ifindex tun1)) = Some 0 \<and>
   countMatchingIpRules rules (forwarding_regex ''tun1'' ''tun2'' (1000 + tun_ifindex tun2)) = Some 2"
  by code_simp

subsection \<open>Networks are destroyed\<close>

text \<open>A service that keeps a log of the networks it creates and is told to destroy.\<close>

datatype net_log = Created u64 | Destroyed u64

definition logged :: "'w netd_env \<Rightarrow> ('w \<times> net_log list) netd_env" where
  "logged env =
     \<lparr>createOemNetwork = \<lambda>(w, l). (case createOemNetwork env w of (r, w') \<Rightarrow>
        (r, w', l @ (case r of None \<Rightarrow> [] | Some (h, _) \<Rightarrow> [Created h]))),
      destroyOemNetwork = \<lambda>h (w, l). (case destroyOemNetwork env h w of (r, w') \<Rightarrow> (r, w', l @ [Destroyed h])),
      addRouteToOemNetwork = \<lambda>h i d n (w, l). (case addRouteToOemNetwork env h i d n w of (r, w') \<Rightarrow> (r, w', l)),
      removeRouteFromOemNetwork = \<lambda>h i d n (w, l). (case removeRouteFromOemNetwork env h i d n w of (r, w') \<Rightarrow> (r, w', l)),
      addInterfaceToOemNetwork = \<lambda>h i (w, l). (case addInterfaceToOemNetwork env h i w of (r, w') \<Rightarrow> (r, w', l)),
      removeInterfaceFromOemNetwork = \<lambda>h i (w, l). (case removeInterfaceFromOemNetwork env h i w of (r, w') \<Rightarrow> (r, w', l)),
      setForwardingBetweenInterfaces = \<lambda>i out en (w, l).
        (case setForwardingBetweenInterfaces env i out en w of (r, w') \<Rightarrow> (r, w', l)),
      env_calls = \<lambda>(w, l). env_calls env w, env_output = \<lambda>(w, l). env_output env w, env_uninit = env_uninit env,
      env_service = \<lambda>(w, l). env_service env w\<rparr>"

text \<open>A part of a test that destroys what it creates or ends the process, and one that moreover destroys the
  network \<open>h\<close>.\<close>

definition destroyed :: "net_log list \<Rightarrow> bool" where
  "destroyed es \<longleftrightarrow> (\<forall>h. Created h \<in> set es \<longrightarrow> Destroyed h \<in> set es)"

abbreviation net_log_of :: "('w \<times> net_log list) test_state \<Rightarrow> net_log list" where
  "net_log_of s \<equiv> snd (fst s)"

abbreviation process_ended :: "'w test_state \<Rightarrow> bool" where
  "process_ended s \<equiv> snd (snd s)"

definition grows ::
  "(net_log list \<Rightarrow> bool) \<Rightarrow> ('w \<times> net_log list) test_state \<Rightarrow> ('w \<times> net_log list) test_state \<Rightarrow> bool" where
  "grows P s t \<longleftrightarrow> (\<exists>es. net_log_of t = net_log_of s @ es \<and> (process_ended t \<or> \<not> process_ended s \<and> P es))"

definition tidy :: "('w \<times> net_log list, 'a) test \<Rightarrow> bool" where
  "tidy = state_io_rel (grows destroyed)"

definition destroys :: "u64 \<Rightarrow> ('w \<times> net_log list, 'a) test \<Rightarrow> bool" where
  "destroys h = state_io_rel (grows (\<lambda>es. destroyed es \<and> Destroyed h \<in> set es))"

named_theorems tidy_intros

lemma grows_bind:
  assumes "state_io_rel (grows P) m" "\<And>x. state_io_rel (grows Q) (f x)" "\<And>es fs. P es \<Longrightarrow> Q fs \<Longrightarrow> R (es @ fs)"
  shows "state_io_rel (grows R) (State_Monad.bind m f)"
  unfolding state_io_rel_def
proof
  fix s
  obtain x s' where m: "run_state m s = (x, s')" by (cases "run_state m s")
  obtain y t where f: "run_state (f x) s' = (y, t)" by (cases "run_state (f x) s'")
  from assms(1) m obtain es where "net_log_of s' = net_log_of s @ es"
    "process_ended s' \<or> \<not> process_ended s \<and> P es" unfolding state_io_rel_def grows_def by (metis snd_conv)
  moreover from assms(2) [of x] f obtain fs where "net_log_of t = net_log_of s' @ fs"
    "process_ended t \<or> \<not> process_ended s' \<and> Q fs" unfolding state_io_rel_def grows_def by (metis snd_conv)
  ultimately show "grows R s (snd (run_state (State_Monad.bind m f) s))"
    using assms(3) m f by (auto simp: grows_def)
qed

lemma destroyed_append: "destroyed es \<Longrightarrow> destroyed fs \<Longrightarrow> destroyed (es @ fs)"
  by (auto simp: destroyed_def)

lemma tidy_bind [tidy_intros]: "tidy m \<Longrightarrow> (\<And>x. tidy (f x)) \<Longrightarrow> tidy (State_Monad.bind m f)"
  unfolding tidy_def by (rule grows_bind [of destroyed _ destroyed]) (auto intro: destroyed_append)

lemma destroys_later: "tidy m \<Longrightarrow> (\<And>x. destroys h (f x)) \<Longrightarrow> destroys h (State_Monad.bind m f)"
  unfolding tidy_def destroys_def
  by (rule grows_bind [of destroyed _ "\<lambda>es. destroyed es \<and> Destroyed h \<in> set es"]) (auto intro: destroyed_append)

lemma destroys_now: "destroys h m \<Longrightarrow> (\<And>x. tidy (f x)) \<Longrightarrow> destroys h (State_Monad.bind m f)"
  unfolding tidy_def destroys_def
  by (rule grows_bind [of "\<lambda>es. destroyed es \<and> Destroyed h \<in> set es" _ destroyed]) (auto intro: destroyed_append)

lemma tidy_return [tidy_intros]: "tidy (State_Monad.return x)"
  by (auto simp: tidy_def state_io_rel_def grows_def destroyed_def)

lemma tidy_quiet [tidy_intros]: "tidy (look f)" "tidy (expect b)" "tidy end_process"
  by (auto simp: tidy_def state_io_rel_def grows_def destroyed_def look_def expect_def end_process_def)

lemma tidy_assert [tidy_intros]: "tidy m \<Longrightarrow> tidy (assert_then b m)"
  by (simp add: assert_then_def tidy_quiet)

lemma tidy_calls [tidy_intros]:
  "tidy (call (addRouteToOemNetwork (logged env) h i d n))"
  "tidy (call (removeRouteFromOemNetwork (logged env) h i d n))"
  "tidy (call (addInterfaceToOemNetwork (logged env) h i))"
  "tidy (call (removeInterfaceFromOemNetwork (logged env) h i))"
  "tidy (call (setForwardingBetweenInterfaces (logged env) i out en))"
  by (auto simp: tidy_def state_io_rel_def grows_def destroyed_def call_def logged_def split: prod.splits)

lemma destroys_call: "destroys h (call (destroyOemNetwork (logged env) h))"
  by (auto simp: destroys_def state_io_rel_def grows_def destroyed_def call_def logged_def split: prod.splits)

lemma destroys_tidy: "destroys h m \<Longrightarrow> tidy m"
  unfolding destroys_def tidy_def state_io_rel_def grows_def by blast

text \<open>A network is created, and what follows destroys it.\<close>

lemma tidy_create:
  assumes "\<And>h p st. destroys h (f (Some (h, p, st)))" "tidy (f None)"
  shows "tidy (State_Monad.bind (call (createOemNetwork (logged env))) f)"
  unfolding tidy_def state_io_rel_def
proof
  fix s :: "('a \<times> net_log list) test_state"
  obtain w l k e where s: "s = ((w, l), k, e)" by (metis prod.exhaust)
  obtain r w' where c: "createOemNetwork env w = (r, w')" by fastforce
  let ?s' = "((w', l @ (case r of None \<Rightarrow> [] | Some (h, _) \<Rightarrow> [Created h])), k, e)"
  let ?m = "State_Monad.bind (call (createOemNetwork (logged env))) f"
  have none: "grows destroyed t (snd (run_state (f None) t))" for t
    using assms(2) unfolding tidy_def state_io_rel_def by blast
  show "grows destroyed s (snd (run_state ?m s))"
  proof (cases e)
    case True
    then have "run_state ?m s = run_state (f None) s" by (simp add: s call_def)
    with none show ?thesis by simp
  next
    case False
    then have run: "run_state ?m s = run_state (f r) ?s'" by (simp add: s c call_def logged_def)
    show ?thesis
    proof (cases r)
      case None
      with none [of "((w', l), k, e)"] show ?thesis unfolding run by (simp add: s grows_def)
    next
      case (Some q)
      then obtain h p st where q: "r = Some (h, p, st)" by (cases q) auto
      have "grows (\<lambda>es. destroyed es \<and> Destroyed h \<in> set es) ?s' (snd (run_state (f r) ?s'))"
        using assms(1) [of h p st] q unfolding destroys_def state_io_rel_def by blast
      with q show ?thesis unfolding run by (auto simp: s grows_def destroyed_def)
    qed
  qed
qed

lemma tidy_destroy [tidy_intros]: "tidy (call (destroyOemNetwork (logged env) h))"
  by (rule destroys_tidy [OF destroys_call])

lemma tidy_for_each [tidy_intros]: "(\<And>x. tidy (f x)) \<Longrightarrow> tidy (for_each f xs)"
  by (induction xs) (auto simp: for_each_def intro: tidy_intros)

lemma tidy_status [tidy_intros]: "tidy (EXPECT_STATUS st ret)"
  unfolding EXPECT_STATUS_def by (cases ret) (auto intro: tidy_intros)

lemma tidy_helpers [tidy_intros]:
  "tidy (expect_network e k h)" "tidy (expect_rules e n mark)"
  "tidy (expect_matching e n regex)" "tidy (expect_reachability e h k dst)"
  unfolding expect_network_def expect_rules_def expect_matching_def expect_reachability_def
  by (intro tidy_intros)+

lemma tidy_route_helpers [tidy_intros]:
  "tidy (expectAddRoute (logged env) st h i d n)" "tidy (expectRemoveRoute (logged env) st h i d n)"
  "tidy (expect_forwarding (logged env) st i out en)"
  "tidy (checkAllReachable e h)" "tidy (checkAllUnreachable e h)"
  unfolding expectAddRoute_def expectRemoveRoute_def expect_forwarding_def checkAllReachable_def checkAllUnreachable_def
  by (intro tidy_intros)+

lemma tidy_interfaces: "tidy (TestAddRemoveInterfaces (logged env) i h mark)"
  unfolding TestAddRemoveInterfaces_def Let_def
proof (intro tidy_create tidy_intros, goal_cases)
  case 1
  show ?case
    by (simp only: option.case prod.case) (rule destroys_now [OF destroys_call] tidy_intros destroys_later)+
next
  case 2
  show ?case by (simp only: option.case case_prod_beta) (intro tidy_intros)
qed

lemma tidy_routes: "tidy (TestAddRemoveRoutes (logged env) i h mark)"
  unfolding TestAddRemoveRoutes_def by (intro tidy_intros)

lemma tidy_forwarding: "tidy (TestForwarding (logged env) t1 t2 h mark)"
  unfolding TestForwarding_def Let_def by (intro tidy_intros)

lemma tidy_test:
  assumes "\<And>h mark. tidy (body h mark)"
  shows "tidy (netd_test (logged env) body)"
proof -
  have body: "tidy (if ok then body h mark else State_Monad.return ())" for ok h mark
    using assms by (simp add: tidy_return)
  have down: "destroys h (netd_TearDown (logged env) True h)" "tidy (netd_TearDown (logged env) netd h)" for netd h
    unfolding netd_TearDown_def by (auto intro!: tidy_intros destroys_now [OF destroys_call])
  show ?thesis
    unfolding netd_test_def netd_SetUp_def Let_def State_Monad.bind_assoc
  proof (rule tidy_bind [OF tidy_quiet(1)], goal_cases)
    case (1 netd)
    show ?case
    proof (cases netd)
      case netd: True
      show ?thesis
      proof (simp only: netd if_True State_Monad.bind_assoc case_prod_beta, intro tidy_create, goal_cases)
        case 1
        show ?case
          by (simp only: option.case prod.case prod.sel bind_left_identity)
            (rule down tidy_intros body destroys_later)+
      next
        case 2
        show ?case by (simp only: option.case prod.case prod.sel bind_left_identity) (intro tidy_intros body down)
      qed
    next
      case False
      then show ?thesis
        by (simp only: if_False State_Monad.bind_assoc case_prod_beta bind_left_identity) (intro tidy_intros body down)
    qed
  qed
qed

subsection \<open>The process stays alive\<close>

text \<open>An environment with a service whose calls never fail in transport, and a part of a test that does not end
  the process.\<close>

definition reliable :: "'w netd_env \<Rightarrow> bool" where
  "reliable env \<longleftrightarrow> (\<forall>w. env_service env w) \<and> (\<forall>w. fst (createOemNetwork env w) \<noteq> None) \<and>
     (\<forall>h w. fst (destroyOemNetwork env h w) \<noteq> None) \<and>
     (\<forall>h i d n w. fst (addRouteToOemNetwork env h i d n w) \<noteq> None) \<and>
     (\<forall>h i d n w. fst (removeRouteFromOemNetwork env h i d n w) \<noteq> None) \<and>
     (\<forall>h i w. fst (addInterfaceToOemNetwork env h i w) \<noteq> None) \<and>
     (\<forall>h i w. fst (removeInterfaceFromOemNetwork env h i w) \<noteq> None) \<and>
     (\<forall>i out en w. fst (setForwardingBetweenInterfaces env i out en w) \<noteq> None)"

lemma reliable_logged: "reliable env \<Longrightarrow> reliable (logged env)"
  unfolding reliable_def logged_def by (simp add: case_prod_beta)

lemma reliable_fake: "reliable (fake_env again table)"
  by (auto simp: reliable_def fake_env_def fn_create_def fn_destroy_def fn_add_route_def fn_remove_route_def
      fn_add_interface_def fn_remove_interface_def fn_forwarding_def Let_def split: option.splits)

definition alive :: "('w, 'a) test \<Rightarrow> bool" where
  "alive = state_io_rel (\<lambda>s t. process_ended s \<or> \<not> process_ended t)"

named_theorems alive_intros
named_theorems alive_calls

lemma alive_bind: "alive m \<Longrightarrow> (\<And>x. alive (f x)) \<Longrightarrow> alive (State_Monad.bind m f)"
  unfolding alive_def state_io_rel_def run_state_bind case_prod_beta by meson

lemma alive_call:
  fixes op :: "'w \<Rightarrow> 'a option \<times> 'w"
  assumes "\<And>w. fst (op w) \<noteq> None" "\<And>x. alive (f (Some x))"
  shows "alive (State_Monad.bind (call op) f)"
  unfolding alive_def state_io_rel_def
proof
  fix s :: "'w test_state"
  obtain w k e where s: "s = (w, k, e)" by (metis prod.exhaust)
  obtain x w' where "op w = (Some x, w')" using assms(1) [of w] by (cases "op w") auto
  with assms(2) [of x] show "process_ended s \<or> \<not> process_ended (snd (run_state (State_Monad.bind (call op) f) s))"
    by (cases e) (auto simp: s call_def alive_def state_io_rel_def)
qed

lemma alive_service_calls [alive_calls]:
  assumes "reliable env" "\<And>x. alive (f (Some x))"
  shows "alive (State_Monad.bind (call (destroyOemNetwork env h)) f)"
    "alive (State_Monad.bind (call (addRouteToOemNetwork env h i d n)) f)"
    "alive (State_Monad.bind (call (removeRouteFromOemNetwork env h i d n)) f)"
    "alive (State_Monad.bind (call (addInterfaceToOemNetwork env h i)) f)"
    "alive (State_Monad.bind (call (removeInterfaceFromOemNetwork env h i)) f)"
    "alive (State_Monad.bind (call (setForwardingBetweenInterfaces env i out en)) f)"
  using assms by (auto simp: reliable_def intro: alive_call)

lemma alive_create_call [alive_calls]:
  assumes "reliable env" "\<And>x. alive (f (Some x))"
  shows "alive (State_Monad.bind (call (createOemNetwork env)) f)"
  using assms by (auto simp: reliable_def intro: alive_call)

lemma alive_quiet [alive_intros]: "alive (State_Monad.return x)" "alive (look f)" "alive (expect b)"
  by (auto simp: alive_def state_io_rel_def look_def expect_def)

lemma alive_assert [alive_intros]: "alive m \<Longrightarrow> alive (assert_then b m)"
  by (simp add: assert_then_def alive_quiet)

lemma alive_for_each [alive_intros]: "(\<And>x. alive (f x)) \<Longrightarrow> alive (for_each f xs)"
  by (induction xs) (auto simp: for_each_def intro: alive_intros alive_bind)

lemma alive_status [alive_intros]: "alive (EXPECT_STATUS st (Some x))"
  unfolding EXPECT_STATUS_def by (simp add: alive_bind alive_quiet)

lemma alive_looks [alive_intros]:
  "alive (expect_network e k h)" "alive (expect_rules e n mark)"
  "alive (expect_matching e n regex)" "alive (expect_reachability e h k dst)"
  unfolding expect_network_def expect_rules_def expect_matching_def expect_reachability_def
  by (intro alive_bind alive_intros)+

lemma alive_helpers [alive_intros]:
  "reliable env \<Longrightarrow> alive (expectAddRoute env st h i d n)" "reliable env \<Longrightarrow> alive (expectRemoveRoute env st h i d n)"
  "reliable env \<Longrightarrow> alive (expect_forwarding env st i out en)"
  "alive (checkAllReachable e h)" "alive (checkAllUnreachable e h)"
  unfolding expectAddRoute_def expectRemoveRoute_def expect_forwarding_def checkAllReachable_def checkAllUnreachable_def
  by (intro alive_calls alive_bind alive_intros; assumption)+

lemma alive_tests:
  assumes "reliable env"
  shows "alive (TestAddRemoveInterfaces env iface h mark)" "alive (TestAddRemoveRoutes env iface h mark)"
    "alive (TestForwarding env t1 t2 h mark)"
  unfolding TestAddRemoveInterfaces_def TestAddRemoveRoutes_def TestForwarding_def Let_def case_prod_beta
  by (rule assms alive_calls alive_intros alive_bind)+

lemma alive_test:
  assumes "reliable env" "\<And>h mark. alive (body h mark)"
  shows "alive (netd_test env body)"
proof -
  have "env_service env w" for w using assms(1) by (simp add: reliable_def)
  then have look: "State_Monad.bind (look (env_service env)) f = f True" for f :: "bool \<Rightarrow> ('a, unit) test"
    by (auto simp: look_def State_Monad.bind_def State_Monad.state.expand fun_eq_iff intro!: state.expand)
  have "alive (netd_TearDown env True h)" for h
    unfolding netd_TearDown_def by (simp add: alive_calls [OF assms(1)] alive_quiet)
  moreover have "alive (if ok then body h mark else State_Monad.return ())" for ok h mark
    using assms(2) by (simp add: alive_quiet)
  ultimately show ?thesis
    unfolding netd_test_def netd_SetUp_def Let_def State_Monad.bind_assoc look if_True case_prod_beta
      bind_left_identity prod.sel
    by (intro alive_calls [OF assms(1)] alive_bind alive_quiet)
qed

text \<open>C38. Whatever the netd service and the kernel answer, and whichever expectations fail, a test of
  version 1.1 destroys every network that the service reported to have created for it, unless its process ends:
  the one of \<open>SetUp\<close> in \<open>TearDown\<close>, even if an assertion of \<open>SetUp\<close> or of the test ends it early, and the second one
  of \<open>TestAddRemoveInterfaces\<close> in the test. If there is a service and no call fails in transport, the process does
  not end. (A status read from a call that failed in transport does end it, and the network stays.)\<close>

theorem netd_tests_clean_up:
  fixes env :: "'w netd_env"
  defines "final \<equiv> \<lambda>body w. snd (run_state (netd_test (logged env) body) ((w, []), 0, False))"
  defines "clean \<equiv> \<lambda>s. (process_ended s \<or> destroyed (net_log_of s)) \<and> (reliable env \<longrightarrow> \<not> process_ended s)"
  shows "clean (final (TestAddRemoveInterfaces (logged env) iface) w) \<and>
    clean (final (TestAddRemoveRoutes (logged env) iface) w) \<and>
    clean (final (TestForwarding (logged env) t1 t2) w)"
proof -
  have all_clean: "clean (final body w)" if t: "\<And>h mark. tidy (body h mark)"
    and a: "\<And>h mark. reliable (logged env) \<Longrightarrow> alive (body h mark)" for body
  proof -
    have "tidy (netd_test (logged env) body)" by (rule tidy_test) (rule t)
    then have "grows destroyed ((w, []), 0, False) (final body w)"
      by (simp add: tidy_def state_io_rel_def final_def)
    moreover have "\<not> process_ended (final body w)" if "reliable env"
    proof -
      note rel = reliable_logged [OF that]
      have "alive (netd_test (logged env) body)" using rel a [OF rel] by (rule alive_test)
      then show ?thesis
        unfolding alive_def state_io_rel_def final_def by (drule_tac x = "((w, []), 0, False)" in spec) simp
    qed
    ultimately show ?thesis by (auto simp: clean_def grows_def)
  qed
  show ?thesis by (intro conjI all_clean tidy_interfaces tidy_routes tidy_forwarding alive_tests)
qed

theorem netd_tests_clean_up_witness:
  "destroyed (net_log_of (snd (run_state
     (netd_test (logged (fake_env OK id)) (TestAddRemoveInterfaces (logged (fake_env OK id)) ''tun1''))
     ((fn_start, []), 0, False))))"
  using netd_tests_clean_up [of "fake_env OK id" "''tun1''" fn_start] reliable_fake by blast

text \<open>A service that dies after the network was created: the first \<open>EXPECT_STATUS\<close> ends the process and the network
  stays.\<close>

lemma netd_transport_failure_leaks:
  "let env = (fake_env OK id)\<lparr>addInterfaceToOemNetwork := \<lambda>_ _ w. (None, w)\<rparr>;
       s = snd (run_state (netd_test (logged env) (TestForwarding (logged env) tun1 tun2)) ((fn_start, []), 0, False))
   in process_ended s \<and> net_log_of s = [Created 100]"
  by code_simp

text \<open>Without a service \<open>SetUp\<close> fails, and \<open>TearDown\<close> calls it all the same.\<close>

lemma netd_no_service_ends:
  "let env = (fake_env OK id)\<lparr>env_service := \<lambda>_. False\<rparr> in
   process_ended (snd (run_state (netd_test env (TestForwarding env tun1 tun2)) (fn_start, 0, False)))"
  by code_simp

text \<open>The test of version 1.0 has no \<open>TearDown\<close>: if an assertion between the two calls fails, its network stays.\<close>

lemma netd_1_0_leaks:
  "net_log_of (snd (run_state (TestCreateAndDestroyOemNetworkOk (logged ((fake_env OK id)\<lparr>env_output := \<lambda>_ _. Some
     (rule_line (MarkRule ''1: '' 0x30064 ''0x1ffff lookup tun1''))\<rparr>))) ((fn_start, []), 0, False))) = [Created 100]"
  by code_simp

end
