(* ===== verification/TestHarness.thy ===== *)
theory TestHarness
  imports ControlInternal "HOL-Library.Code_Target_Nat"
begin

text \<open>
  The fixtures of \<open>suspend/1.0/default/SystemSuspendUnitTest.cpp\<close>: a service whose kernel files are
  played by sockets and temporary files of the test, and the helpers with which a test drives it.

  A fixture has the service, as the transition system of the theory \<open>SuspendSystem\<close>, the text the test
  has written to the wakeup count socket and the service has not read yet, how much of what the service
  wrote to its two sockets the test has read, the contents of the two temporary files, and the clock.
  Where a test sleeps, or blocks in a read, the autosuspend thread runs until it blocks (\<open>settle\<close>): its
  own sleep times out, it gets the locks, a read of the wakeup count gives what the test wrote, and
  writes to the sockets succeed. A test is a chain of such helpers and assertions in the option monad,
  \<^term>\<open>None\<close> if an assertion fails.

  Shown: the thread comes to a halt within the fuel of \<open>settle\<close>, and all a fixture does to the service
  are steps of the system, so that a test that passes is a run of it.
\<close>

text \<open>\<open>Trim\<close> and \<open>Join\<close> of the base library, for evaluation.\<close>

definition trim_spaces :: "string \<Rightarrow> string" where
  "trim_spaces s = rev (dropWhile isspace (rev (dropWhile isspace s)))"

fun join_with :: "string list \<Rightarrow> string \<Rightarrow> string" where
  "join_with [] sep = []"
| "join_with [r] sep = r"
| "join_with (r # rs) sep = r @ sep @ join_with rs sep"

definition test_libs :: libs where
  "test_libs = \<lparr>lib_trim = trim_spaces, lib_join = join_with, lib_strtod_other = \<lambda>_. None\<rparr>"

text \<open>Callbacks of the test's own process are not remote; those of a forked process have binders from
  100 on.\<close>

definition test_remote :: "ibinder \<Rightarrow> bool" where
  "test_remote b \<longleftrightarrow> 100 \<le> b"

definition test_pid :: i32 where
  "test_pid = 4711"

record fixture =
  fx_sys :: system
  fx_counts :: string
  fx_count_seen :: nat
  fx_state_seen :: nat
  fx_time_file :: string
  fx_reasons_file :: string
  fx_clock :: timespec

text \<open>The \<open>double\<close> nearest to 1.9.\<close>

definition test_factor :: rat where
  "test_factor = dbl_round (19 / 10)"

definition test_config :: SleepTimeConfig where
  "test_config =
     \<lparr>baseSleepTime = 100, maxSleepTime = 400, sleepTimeScaleFactor = test_factor, backoffThreshold = 1,
      shortSuspendThreshold = 100, failedSuspendBackoffEnabled = True, shortSuspendBackoffEnabled = True\<rparr>"

definition fixture_new :: "nat \<Rightarrow> fixture" where
  "fixture_new maxStatsEntries =
     \<lparr>fx_sys = sys_new maxStatsEntries test_config True 9 (\<lambda>_. 5), fx_counts = [], fx_count_seen = 0,
      fx_state_seen = 0, fx_time_file = [], fx_reasons_file = [], fx_clock = \<lparr>tv_sec = 1, tv_nsec = 0\<rparr>\<rparr>"

definition assert_that :: "bool \<Rightarrow> unit option" where
  "assert_that b = (if b then Some () else None)"

definition event :: "sys_event \<Rightarrow> fixture \<Rightarrow> fixture option" where
  "event e fx =
     (case sys_apply test_libs test_remote e (fx_sys fx) of Done y \<Rightarrow> Some (fx\<lparr>fx_sys := y\<rparr>) | _ \<Rightarrow> None)"

subsection \<open>The autosuspend thread in a test\<close>

text \<open>What happens to the thread where it is; \<^term>\<open>None\<close> if it blocks until the test does something.\<close>

fun next_event :: "fixture \<Rightarrow> autosuspend_pc \<Rightarrow> thread_event option" where
  "next_event fx Starting = Some GetLock"
| "next_event fx (Sleeping _) = Some (WaitEnds True)"
| "next_event fx (ReadingCount _) = (if fx_counts fx = [] then None else Some (CountIs (fx_counts fx)))"
| "next_event fx (CountRead _ _) = Some GetLock"
| "next_event fx (WaitingCounter _ notified) = (if notified then Some (WaitEnds False) else None)"
| "next_event fx (LockingTokens _) = Some (Attempt True True)"
| "next_event fx (Attempted _) = Some (TimeIs (Some (fx_time_file fx)))"
| "next_event fx (TimeUpdated _) = Some (ReasonsAre (Some (fx_reasons_file fx)) (\<lambda>_. -1))"
| "next_event fx (ReasonsRead _ _) = Some CallsMade"
| "next_event fx Notified = Some GetLock"

fun reads_count :: "autosuspend_pc \<Rightarrow> bool" where
  "reads_count (ReadingCount _) = True"
| "reads_count _ = False"

definition thread_turn :: "fixture \<Rightarrow> fixture option" where
  "thread_turn fx =
     (case threads (sys_suspend (fx_sys fx)) of [] \<Rightarrow> None
      | pc # _ \<Rightarrow> do {
          ev \<leftarrow> next_event fx pc;
          fx' \<leftarrow> event (ThreadStep 0 ev) fx;
          Some (if reads_count pc then fx'\<lparr>fx_counts := []\<rparr> else fx')
        })"

fun settle_for :: "nat \<Rightarrow> fixture \<Rightarrow> fixture" where
  "settle_for 0 fx = fx"
| "settle_for (Suc n) fx = (case thread_turn fx of None \<Rightarrow> fx | Some fx' \<Rightarrow> settle_for n fx')"

definition settle :: "fixture \<Rightarrow> fixture" where
  "settle = settle_for 20"

subsection \<open>Helpers of the tests\<close>

text \<open>What the service wrote to a socket, and the part the test has not read.\<close>

definition written :: "kernel_file \<Rightarrow> fixture \<Rightarrow> string list" where
  "written f fx = map (fst \<circ> snd) (filter (\<lambda>w. fst w = f) (kernel_log (sys_suspend (fx_sys fx))))"

definition isReadBlocked_count :: "fixture \<Rightarrow> bool" where
  "isReadBlocked_count fx \<longleftrightarrow> length (written wakeup_count fx) \<le> fx_count_seen fx"

definition isReadBlocked_state :: "fixture \<Rightarrow> bool" where
  "isReadBlocked_state fx \<longleftrightarrow> length (written power_state fx) \<le> fx_state_seen fx"

text \<open>\<open>readFd\<close> blocks until there is something to read; a test that would block for ever fails.\<close>

definition read_count :: "fixture \<Rightarrow> (string \<times> fixture) option" where
  "read_count fx =
     (let fx1 = settle fx in
      if isReadBlocked_count fx1 then None
      else Some (concat (drop (fx_count_seen fx1) (written wakeup_count fx1)),
                 fx1\<lparr>fx_count_seen := length (written wakeup_count fx1)\<rparr>))"

definition read_state :: "fixture \<Rightarrow> (string \<times> fixture) option" where
  "read_state fx =
     (let fx1 = settle fx in
      if isReadBlocked_state fx1 then None
      else Some (concat (drop (fx_state_seen fx1) (written power_state fx1)),
                 fx1\<lparr>fx_state_seen := length (written power_state fx1)\<rparr>))"

definition write_count :: "string \<Rightarrow> fixture \<Rightarrow> fixture" where
  "write_count t fx = fx\<lparr>fx_counts := fx_counts fx @ t\<rparr>"

definition unblockSystemSuspendFromWakeupCount :: "fixture \<Rightarrow> fixture" where
  "unblockSystemSuspendFromWakeupCount fx = write_count ''1804289383'' fx"

definition isSystemSuspendBlocked :: "fixture \<Rightarrow> bool \<times> fixture" where
  "isSystemSuspendBlocked fx = (let fx1 = settle fx in (isReadBlocked_state fx1, fx1))"

text \<open>\<open>ASSERT_TRUE\<close> or \<open>ASSERT_FALSE\<close> of it.\<close>

definition assert_blocked :: "bool \<Rightarrow> fixture \<Rightarrow> fixture option" where
  "assert_blocked expected fx =
     (case isSystemSuspendBlocked fx of (blocked, fx1) \<Rightarrow> if blocked = expected then Some fx1 else None)"

definition check_once :: "fixture \<Rightarrow> fixture option" where
  "check_once fx = do {
     (c, fx1) \<leftarrow> read_count (write_count ''846930886'' fx);
     _ \<leftarrow> assert_that (c = ''846930886'');
     (st, fx2) \<leftarrow> read_state fx1;
     _ \<leftarrow> assert_that (st = ''mem'');
     Some fx2
   }"

fun checkLoop :: "nat \<Rightarrow> fixture \<Rightarrow> fixture option" where
  "checkLoop 0 fx = Some fx"
| "checkLoop (Suc n) fx = Option.bind (check_once fx) (checkLoop n)"

definition lock_input :: "fixture \<Rightarrow> action_input" where
  "lock_input fx = \<lparr>in_ok = True, in_pick = 0, in_time = fx_clock fx\<rparr>"

text \<open>The index of the new lock stands for the reference to it.\<close>

definition acquireWakeLock :: "string \<Rightarrow> fixture \<Rightarrow> (nat \<times> fixture) option" where
  "acquireWakeLock name fx = do {
     let i = length (sys_locks (fx_sys fx));
     fx1 \<leftarrow> event (AidlAcquire False name test_pid) fx;
     fx2 \<leftarrow> event (LockAction i (lock_input fx)) fx1;
     fx3 \<leftarrow> event (LockAction i (lock_input fx)) fx2;
     Some (i, fx3)
   }"

text \<open>\<open>release\<close>, or the end of the last reference.\<close>

definition release_lock :: "nat \<Rightarrow> fixture \<Rightarrow> fixture option" where
  "release_lock i fx = do {
     fx1 \<leftarrow> event (ReleaseLock i) fx;
     fx2 \<leftarrow> event (LockAction i (lock_input fx)) fx1;
     event (LockAction i (lock_input fx)) fx2
   }"

definition wakelock_once :: "string \<Rightarrow> fixture \<Rightarrow> fixture option" where
  "wakelock_once name fx = do {
     (testLock, fx1) \<leftarrow> acquireWakeLock name fx;
     release_lock testLock fx1
   }"

fun checkWakelockLoop :: "nat \<Rightarrow> string \<Rightarrow> fixture \<Rightarrow> fixture option" where
  "checkWakelockLoop 0 name fx = Some fx"
| "checkWakelockLoop (Suc n) name fx = Option.bind (wakelock_once name fx) (checkWakelockLoop n name)"

text \<open>A call of \<open>enableAutosuspend\<close>, with its result.\<close>

definition call_enable :: "ibinder \<Rightarrow> fixture \<Rightarrow> (bool \<times> fixture) option" where
  "call_enable token fx = do {
     fx' \<leftarrow> event (EnableAutosuspend True token) fx;
     Some (fst (enableAutosuspend True token (sys_suspend (fx_sys fx))), fx')
   }"

definition call_registerCallback :: "callback option \<Rightarrow> fixture \<Rightarrow> (bool \<times> fixture) option" where
  "call_registerCallback cb fx = do {
     fx' \<leftarrow> event (ControlCall (RegisterCallback True cb)) fx;
     Some (fst (registerCallback test_remote True cb (mControlService (sys_suspend (fx_sys fx)))), fx')
   }"

definition call_registerWakelockCallback ::
  "callback option \<Rightarrow> string \<Rightarrow> fixture \<Rightarrow> (bool \<times> fixture) option" where
  "call_registerWakelockCallback cb name fx = do {
     fx' \<leftarrow> event (ControlCall (RegisterWakelockCallback True cb name)) fx;
     Some (fst (registerWakelockCallback test_remote True cb name (mControlService (sys_suspend (fx_sys fx)))), fx')
   }"

text \<open>\<open>std::to_string\<close> of a duration in seconds that is a whole number of milliseconds: six decimals.\<close>

definition seconds_text :: "nat \<Rightarrow> string" where
  "seconds_text ms =
     dec_nat (ms div 1000) @ ''.'' @ dec_nat (ms mod 1000 div 100) @ dec_nat (ms mod 100 div 10) @ dec_nat (ms mod 10) @ ''000''"

text \<open>A new time file, then suspends.\<close>

definition suspendFor :: "string \<Rightarrow> nat \<Rightarrow> nat \<Rightarrow> fixture \<Rightarrow> fixture option" where
  "suspendFor overheadText suspendMillis numberOfSuspends fx =
     checkLoop numberOfSuspends (fx\<lparr>fx_time_file := overheadText @ '' '' @ seconds_text suspendMillis\<rparr>)"

definition checkSleepTime :: "int \<Rightarrow> fixture \<Rightarrow> fixture option" where
  "checkSleepTime expected fx = do {
     let fx1 = settle fx;
     _ \<leftarrow> assert_that (getSleepTime (sys_suspend (fx_sys fx1)) = expected);
     Some fx1
   }"

subsection \<open>Tests are runs of the system\<close>

definition fx_reach :: "fixture \<Rightarrow> bool" where
  "fx_reach fx \<longleftrightarrow> reach sys_init (sys_step test_libs test_remote) (fx_sys fx)"

lemma fx_reach_new: "0 < n \<Longrightarrow> fx_reach (fixture_new n)"
  unfolding fx_reach_def fixture_new_def by (rule reach_init) (simp add: sys_init_def, blast)

lemma fx_reach_event: "fx_reach fx \<Longrightarrow> event e fx = Some fx' \<Longrightarrow> fx_reach fx'"
  unfolding fx_reach_def event_def by (auto split: outcome.splits) (meson reach_step sys_stepI)

lemma fx_reach_turn: "fx_reach fx \<Longrightarrow> thread_turn fx = Some fx' \<Longrightarrow> fx_reach fx'"
proof -
  assume fx: "fx_reach fx" and t: "thread_turn fx = Some fx'"
  from t obtain e fx1 where e: "event e fx = Some fx1" and "fx_sys fx' = fx_sys fx1"
    by (auto simp: thread_turn_def split: list.splits bind_splits if_splits)
  with fx_reach_event [OF fx e] show ?thesis by (simp add: fx_reach_def)
qed

lemma fx_reach_settle_for: "fx_reach fx \<Longrightarrow> fx_reach (settle_for n fx)"
  by (induction n arbitrary: fx) (auto intro: fx_reach_turn split: option.splits)

text \<open>How many turns the thread can take at most before it blocks.\<close>

fun pc_rank :: "autosuspend_pc \<Rightarrow> nat" where
  "pc_rank (ReadingCount _) = 0"
| "pc_rank (Sleeping _) = 1"
| "pc_rank Starting = 2"
| "pc_rank Notified = 2"
| "pc_rank (ReasonsRead _ _) = 3"
| "pc_rank (TimeUpdated _) = 4"
| "pc_rank (Attempted _) = 5"
| "pc_rank (LockingTokens _) = 6"
| "pc_rank (WaitingCounter _ notified) = (if notified then 8 else 7)"
| "pc_rank (CountRead _ _) = 9"

definition turns_left :: "fixture \<Rightarrow> nat" where
  "turns_left fx =
     (case threads (sys_suspend (fx_sys fx)) of [] \<Rightarrow> 0
      | pc # _ \<Rightarrow> pc_rank pc + (if fx_counts fx = [] then 0 else 10))"

lemma loop_top_rank: "loop_top sh s = (Some p, s') \<Longrightarrow> mAutosuspendEnabled s \<and> pc_rank p \<le> 1"
  by (auto simp: loop_top_def split: if_splits)

lemma counter_wait_rank: "counter_wait w s = (Some p, s') \<Longrightarrow> pc_rank p \<le> 7"
  by (auto simp: counter_wait_def split: if_splits dest: loop_top_rank)

lemma thread_step_rank:
  assumes "next_event fx pc = Some ev" "thread_step lib ev pc s = Done (Some p, s')"
  shows "pc_rank p < (if reads_count pc then 10 else pc_rank pc)"
  using assms
  by (cases pc) (auto simp: sleep_wakes_def count_read_def suspend_attempt_def record_suspend_time_def
      record_reasons_def call_wakeup_callbacks_def Let_def split: if_splits option.splits bind_splits prod.splits
      dest!: loop_top_rank counter_wait_rank)

lemma thread_turn_rank:
  assumes "fx_reach fx" "thread_turn fx = Some fx'"
  shows "threads (sys_suspend (fx_sys fx')) = [] \<or> turns_left fx' < turns_left fx"
proof -
  let ?s = "sys_suspend (fx_sys fx)"
  from assms(1) have "sys_inv (fx_sys fx)" unfolding fx_reach_def by (rule sys.reach_inv)
  then have one: "length (threads ?s) \<le> 1" by (simp add: sys_inv_def ss_inv_def)
  from assms(2) obtain pc pcs ev s where pc: "threads ?s = pc # pcs" and ev: "next_event fx pc = Some ev"
    and s: "run_thread test_libs 0 ev ?s = Done s" and fx': "sys_suspend (fx_sys fx') = s"
    "fx_counts fx' = (if reads_count pc then [] else fx_counts fx)"
    by (auto simp: thread_turn_def event_def split: list.splits bind_splits if_splits outcome.splits)
  from s pc obtain p s' where step: "thread_step test_libs ev pc ?s = Done (p, s')"
    and thr: "threads s = (case p of None \<Rightarrow> drop 1 (threads s') | Some q \<Rightarrow> (threads s')[0 := q])"
    by (auto simp: run_thread_def split: outcome.splits option.splits)
  from thread_step_length [OF step] one pc have len: "length (threads s') = 1" by simp
  show ?thesis
  proof (cases p)
    case None
    with thr len fx' show ?thesis by simp
  next
    case (Some q)
    with thread_step_rank [OF ev, of test_libs ?s q s'] step
    have "pc_rank q < (if reads_count pc then 10 else pc_rank pc)" by simp
    moreover from Some thr len fx' have "threads (sys_suspend (fx_sys fx')) = [q]"
      by (cases "threads s'") auto
    moreover have "reads_count pc \<Longrightarrow> fx_counts fx \<noteq> []" using ev by (cases pc) (auto split: if_splits)
    ultimately show ?thesis using pc fx'(2) by (auto simp: turns_left_def split: if_splits)
  qed
qed

lemma thread_turn_none: "threads (sys_suspend (fx_sys fx)) = [] \<Longrightarrow> thread_turn fx = None"
  by (simp add: thread_turn_def)

lemma settle_for_halts: "fx_reach fx \<Longrightarrow> turns_left fx < n \<Longrightarrow> thread_turn (settle_for n fx) = None"
proof (induction n arbitrary: fx)
  case (Suc n)
  show ?case
  proof (cases "thread_turn fx")
    case (Some fx')
    with thread_turn_rank [OF Suc.prems(1)] have "threads (sys_suspend (fx_sys fx')) = [] \<or> turns_left fx' < n"
      using Suc.prems(2) by fastforce
    moreover have "settle_for n fx' = fx'" if "threads (sys_suspend (fx_sys fx')) = []"
      using thread_turn_none [OF that] by (cases n) simp_all
    ultimately show ?thesis
      using Some Suc.IH [OF fx_reach_turn [OF Suc.prems(1) Some]] thread_turn_none by auto
  qed simp
qed simp

lemma pc_rank_bound: "pc_rank pc < 10"
  by (cases pc) simp_all

lemma turns_left_bound: "turns_left fx < 20"
proof (cases "threads (sys_suspend (fx_sys fx))")
  case (Cons pc pcs)
  then show ?thesis using pc_rank_bound [of pc] by (simp add: turns_left_def)
qed (simp add: turns_left_def)

text \<open>Where \<open>settle\<close> stops the thread cannot move until the test does something.\<close>

lemma settle_halts: "fx_reach fx \<Longrightarrow> thread_turn (settle fx) = None \<and> fx_reach (settle fx)"
  using settle_for_halts [OF _ turns_left_bound] fx_reach_settle_for by (simp add: settle_def)

subsection \<open>Evaluation\<close>

text \<open>
  Kernel evaluation of double arithmetic is slow. The values the tests meet are computed once, by
  simplification, and the following code equations look them up.
\<close>

lemma quotient_of_test_factor [code abstract]:
  "quotient_of test_factor = (4278419646001971, 2251799813685248)"
  by code_simp

lemma ms_scaled_test:
  "ms_scaled 100 test_factor = 190" "ms_scaled 190 test_factor = 361" "ms_scaled 361 test_factor = 686"
  "ms_scaled 400 test_factor = 760"
  by code_simp+

lemma ms_scaled_code [code]:
  "ms_scaled t factor =
     (if factor = test_factor \<and> t \<in> {100, 190, 361, 400}
      then if t = 100 then 190 else if t = 190 then 361 else if t = 361 then 686 else 760
      else half_even (dbl_round (dbl_round (of_int t) * factor)))"
  using ms_scaled_test by (auto simp: ms_scaled_def)

lemma readSuspendTime_test:
  "readSuspendTime other (Some ''0.001 0.010000'') = \<lparr>suspendOverhead = 1000000, suspendTime = 10000000\<rparr>"
  "readSuspendTime other (Some ''0.001 10.000000'') = \<lparr>suspendOverhead = 1000000, suspendTime = 10000000000\<rparr>"
  "readSuspendTime other (Some ''0.020000 0.010000'') = \<lparr>suspendOverhead = 20000000, suspendTime = 10000000\<rparr>"
  "readSuspendTime other (Some ''0.020000 10.000000'') = \<lparr>suspendOverhead = 20000000, suspendTime = 10000000000\<rparr>"
  by code_simp+

lemma readSuspendTime_code [code]:
  "readSuspendTime other content =
     (let failed = \<lparr>suspendOverhead = 0, suspendTime = 0\<rparr> in
      case content of None \<Rightarrow> failed
      | Some ss \<Rightarrow>
          if ss = ''0.001 0.010000'' then \<lparr>suspendOverhead = 1000000, suspendTime = 10000000\<rparr>
          else if ss = ''0.001 10.000000'' then \<lparr>suspendOverhead = 1000000, suspendTime = 10000000000\<rparr>
          else if ss = ''0.020000 0.010000'' then \<lparr>suspendOverhead = 20000000, suspendTime = 10000000\<rparr>
          else if ss = ''0.020000 10.000000'' then \<lparr>suspendOverhead = 20000000, suspendTime = 10000000000\<rparr>
          else
            (case extract_double other ss of None \<Rightarrow> failed
             | Some (overhead, ss1) \<Rightarrow>
                 (case extract_double other ss1 of None \<Rightarrow> failed
                  | Some (time, ss2) \<Rightarrow>
                      \<lparr>suspendOverhead = seconds_to_ns overhead, suspendTime = seconds_to_ns time\<rparr>)))"
proof (cases "content \<in> Some ` {''0.001 0.010000'', ''0.001 10.000000'', ''0.020000 0.010000'', ''0.020000 10.000000''}")
  case True
  then show ?thesis by (elim imageE insertE) (simp_all add: readSuspendTime_test)
next
  case False
  then show ?thesis unfolding readSuspendTime_def by (cases content) simp_all
qed

end
