(* ===== verification/WakeLockActivity.thy ===== *)
theory WakeLockActivity
  imports SuspendSystem
begin

text \<open>
  The wake lock statistics in the running service: an entry that \<open>getWakeLockStats\<close> reports as active
  belongs to a wake lock whose acquisition has been recorded and whose release has not. The lists of
  the theory \<open>WakeLockEntryList\<close> know of single calls only; here the calls come from wake locks of many
  clients, whose actions interleave in any order.

  Shown, as an invariant of the transition system of \<open>SuspendSystem\<close>: the keys of active entries are
  keys of such locks. Once all locks are released no native entry is active and the counter is zero,
  which is what the stress test of \<open>SystemSuspendUnitTest.cpp\<close> looks at.
\<close>

definition lock_key :: "WakeLock \<Rightarrow> wl_key" where
  "lock_key lk = (mName lk, mPid lk)"

definition recorded :: "WakeLock \<Rightarrow> bool" where
  "recorded lk \<longleftrightarrow> StatOnAcquire (mName lk) (mPid lk) \<in> set (lk_done lk) \<and>
     StatOnRelease (mName lk) (mPid lk) \<notin> set (lk_done lk)"

definition recorded_keys :: "WakeLock list \<Rightarrow> wl_key set" where
  "recorded_keys lks = lock_key ` {lk \<in> set lks. recorded lk}"

definition active_keys :: "WakeLockEntryList \<Rightarrow> wl_key set" where
  "active_keys s = wl_key_of ` {e \<in> set (wl_entries s). isActive e}"

definition all_released :: "system \<Rightarrow> bool" where
  "all_released y \<longleftrightarrow> list_all (\<lambda>lk. mReleased lk \<and> lk_todo lk = []) (sys_locks y)"

definition activity_inv :: "system \<Rightarrow> bool" where
  "activity_inv y \<longleftrightarrow> sys_inv y \<and> active_keys (mStatsList (sys_suspend y)) \<subseteq> recorded_keys (sys_locks y)"

subsection \<open>The list\<close>

lemma active_keys_acquire:
  assumes "wl_inv s" "updateOnAcquire ts name pid s = Some t"
  shows "active_keys t \<subseteq> insert (name, pid) (active_keys s)"
proof -
  from updateOnAcquire_ok [OF assms(1), of ts name pid] assms(2)
  have "wl_entries t = lru_touch wl_key_of (mCapacity s) (name, pid)
      (entry_on_acquire (getTimeNow ts)) (createNativeEntry name pid (getTimeNow ts)) (wl_entries s)" by auto
  moreover have "wl_key_of e = (name, pid)" if "find (\<lambda>x. wl_key_of x = (name, pid)) (wl_entries s) = Some e" for e
    using that by (auto simp: find_Some_iff)
  ultimately have "wl_key_of x = (name, pid) \<or> x \<in> set (wl_entries s)" if "x \<in> set (wl_entries t)" for x
    using that by (auto simp: lru_touch_def split: option.splits dest!: in_set_takeD)
  then show ?thesis by (fastforce simp: active_keys_def)
qed

lemma active_keys_release:
  assumes "wl_inv s" "updateOnRelease ts name pid s = Some t"
  shows "active_keys t = active_keys s - {(name, pid)}"
proof (cases "wl_lookup s (name, pid)")
  case None
  with updateOnRelease_ok [OF assms(1), of ts name pid] assms(2) have "wl_entries t = wl_entries s" by auto
  moreover have "(name, pid) \<notin> active_keys s"
    using None by (auto simp: wl_lookup_def active_keys_def find_None_iff)
  ultimately show ?thesis by (auto simp: active_keys_def)
next
  case (Some e)
  with updateOnRelease_ok [OF assms(1), of ts name pid] assms(2)
  have "wl_entries t = entry_on_release (getTimeNow ts) e # filter (\<lambda>x. wl_key_of x \<noteq> (name, pid)) (wl_entries s)"
    by auto
  then show ?thesis by (auto simp: active_keys_def entry_on_release_fields)
qed

lemma active_keys_now:
  assumes "wl_inv s"
  shows "active_keys (updateNow ts s) = active_keys s"
proof -
  have "isActive (entry_now t e) = isActive e" for t e by (simp add: entry_now_def Let_def)
  then have "{e \<in> set (wl_entries (updateNow ts s)). isActive e} =
      entry_now (getTimeNow ts) ` {e \<in> set (wl_entries s). isActive e}"
    using updateNow_ok(3) [OF assms, of ts] by auto
  then show ?thesis by (simp add: active_keys_def image_image)
qed

subsection \<open>The locks\<close>

text \<open>An action of a lock is one of four, on its own name and pid, and sets what is recorded.\<close>

lemma actions_eq:
  "acquire_actions f name pid = [IncSuspendCounter name, StatOnAcquire name pid]"
  "release_actions f name pid = [DecSuspendCounter name, StatOnRelease name pid]"
  by (cases f; simp add: acquire_actions_def release_actions_def aidl_acquire_def aidl_WakeLock_def
      aidl_releaseOnce_def hidl_acquire_def hidl_WakeLock_def hidl_releaseOnce_def)+

lemma lock_action_cases:
  assumes "lock_inv lk" "lk_todo lk = a # as"
  defines "lk' \<equiv> lk\<lparr>lk_done := lk_done lk @ [a], lk_todo := as\<rparr>"
  obtains "a = IncSuspendCounter (mName lk)" "recorded lk' = recorded lk"
  | "a = DecSuspendCounter (mName lk)" "recorded lk' = recorded lk"
  | "a = StatOnAcquire (mName lk) (mPid lk)" "recorded lk'"
  | "a = StatOnRelease (mName lk) (mPid lk)" "\<not> recorded lk'"
proof -
  have "a = IncSuspendCounter (mName lk) \<or> a = DecSuspendCounter (mName lk) \<or>
      (a = StatOnAcquire (mName lk) (mPid lk) \<and> StatOnRelease (mName lk) (mPid lk) \<notin> set (lk_done lk)) \<or>
      a = StatOnRelease (mName lk) (mPid lk)"
    using assms(1,2) by (auto simp: lock_inv_def actions_eq Let_def append_eq_Cons_conv Cons_eq_append_conv split: if_splits)
  then show thesis using that by (auto simp: lk'_def recorded_def)
qed

lemma recorded_keys_update:
  assumes "i < length lks" "lock_key lk = lock_key (lks ! i)"
  shows "recorded_keys lks - {lock_key lk} \<subseteq> recorded_keys (lks[i := lk])"
    and "recorded lk \<Longrightarrow> recorded_keys lks \<subseteq> recorded_keys (lks[i := lk])"
    and "recorded lk \<Longrightarrow> lock_key lk \<in> recorded_keys (lks[i := lk])"
    and "recorded lk = recorded (lks ! i) \<Longrightarrow> recorded_keys lks \<subseteq> recorded_keys (lks[i := lk])"
proof -
  have other: "x \<in> set (lks[i := lk])" if "x \<in> set lks" "x \<noteq> lks ! i" for x
    using that by (metis in_set_conv_nth length_list_update nth_list_update_neq)
  have new: "lk \<in> set (lks[i := lk])" using assms(1) by (simp add: set_update_memI)
  show *: "recorded_keys lks - {lock_key lk} \<subseteq> recorded_keys (lks[i := lk])"
    using other assms(2) by (auto simp: recorded_keys_def)
  show mem: "lock_key lk \<in> recorded_keys (lks[i := lk])" if "recorded lk"
    using new that by (auto simp: recorded_keys_def)
  show "recorded_keys lks \<subseteq> recorded_keys (lks[i := lk])" if "recorded lk"
    using * mem [OF that] by auto
  show "recorded_keys lks \<subseteq> recorded_keys (lks[i := lk])" if "recorded lk = recorded (lks ! i)"
  proof (cases "recorded lk")
    case True
    with * mem show ?thesis by auto
  next
    case False
    with that other show ?thesis by (auto simp: recorded_keys_def)
  qed
qed

subsection \<open>The system\<close>

lemma do_action_stats:
  assumes "ss_inv s" "do_action inp a s = Some t"
  shows "case a of StatOnAcquire n p \<Rightarrow> active_keys (mStatsList t) \<subseteq> insert (n, p) (active_keys (mStatsList s))
    | StatOnRelease n p \<Rightarrow> active_keys (mStatsList t) = active_keys (mStatsList s) - {(n, p)}
    | _ \<Rightarrow> mStatsList t = mStatsList s"
proof -
  have i: "wl_inv (mStatsList s)" using assms(1) by (simp add: ss_inv_def)
  show ?thesis
  proof (cases a)
    case (StatOnAcquire n p)
    with assms(2) obtain l where "updateOnAcquire (in_time inp) n p (mStatsList s) = Some l" "mStatsList t = l"
      by (auto simp: updateWakeLockStatOnAcquire_def split: bind_splits prod.splits)
    with active_keys_acquire [OF i] StatOnAcquire show ?thesis by simp
  next
    case (StatOnRelease n p)
    with assms(2) obtain l where "updateOnRelease (in_time inp) n p (mStatsList s) = Some l" "mStatsList t = l"
      by (auto simp: updateWakeLockStatOnRelease_def split: bind_splits prod.splits)
    with active_keys_release [OF i] StatOnRelease show ?thesis by simp
  qed (use assms(2) in \<open>auto simp: incSuspendCounter_def decSuspendCounter_def notify_one_def field_defs Let_def split: if_splits\<close>)
qed

lemma thread_step_stats:
  assumes "thread_step lib ev p s = Done r"
  shows "mStatsList (snd r) = mStatsList s"
  using assms
  by (cases p; cases ev)
    (auto simp: loop_top_def sleep_wakes_def count_read_def counter_wait_def record_suspend_time_def
      record_reasons_def call_wakeup_callbacks_def suspend_attempt_def field_defs Let_def
      split: if_splits option.splits bind_splits prod.splits)

lemma run_thread_stats:
  assumes "ss_inv s" "run_thread lib i ev s = Done t"
  shows "mStatsList t = mStatsList s"
proof -
  from assms obtain p pc s' where "thread_step lib ev p s = Done (pc, s')"
    "t = s'\<lparr>threads := (case pc of None \<Rightarrow> [] | Some q \<Rightarrow> [q])\<rparr>" by (rule run_thread_Done)
  with thread_step_stats show ?thesis by fastforce
qed

lemma calls_stats:
  "mStatsList (snd (enableAutosuspend ok token s)) = mStatsList s"
  "mStatsList (disableAutosuspend s) = mStatsList s"
  "mStatsList (snd (forceSuspend ok s)) = mStatsList s"
  by (simp_all add: enableAutosuspend_def initAutosuspendLocked_def forceSuspend_def field_defs Let_def)

lemma lock_step_activity:
  assumes "activity_inv y" "lock_step i inp y = Done y'"
  shows "active_keys (mStatsList (sys_suspend y')) \<subseteq> recorded_keys (sys_locks y')"
proof -
  let ?lk = "sys_locks y ! i"
  from assms(2) obtain a as s where i: "i < length (sys_locks y)" "lk_todo ?lk = a # as"
    and s: "do_action inp a (sys_suspend y) = Some s"
    and y': "y' = y\<lparr>sys_suspend := s,
      sys_locks := (sys_locks y)[i := ?lk\<lparr>lk_done := lk_done ?lk @ [a], lk_todo := as\<rparr>]\<rparr>"
    by (auto simp: lock_step_def Let_def split: if_splits list.splits option.splits)
  let ?lk' = "?lk\<lparr>lk_done := lk_done ?lk @ [a], lk_todo := as\<rparr>"
  from assms(1) have inv: "ss_inv (sys_suspend y)" "lock_inv ?lk"
    and old: "active_keys (mStatsList (sys_suspend y)) \<subseteq> recorded_keys (sys_locks y)"
    using i(1) by (simp_all add: activity_inv_def sys_inv_def list_all_length)
  have k: "lock_key ?lk' = lock_key ?lk" "lock_key ?lk = (mName ?lk, mPid ?lk)" by (simp_all add: lock_key_def)
  note upd = recorded_keys_update [OF i(1) k(1)]
  note st = do_action_stats [OF inv(1) s]
  from inv(2) i(2) show ?thesis
  proof (cases rule: lock_action_cases)
    case 3
    from 3(1) st have "active_keys (mStatsList s) \<subseteq> insert (lock_key ?lk') (active_keys (mStatsList (sys_suspend y)))"
      using k by simp
    also have "\<dots> \<subseteq> recorded_keys ((sys_locks y)[i := ?lk'])"
      using upd(3) [OF 3(2)] subset_trans [OF old upd(2) [OF 3(2)]] by (rule insert_subsetI)
    finally show ?thesis by (simp add: y')
  next
    case 4
    from 4(1) st have "active_keys (mStatsList s) = active_keys (mStatsList (sys_suspend y)) - {lock_key ?lk'}"
      using k by simp
    also have "\<dots> \<subseteq> recorded_keys ((sys_locks y)[i := ?lk'])"
      using Diff_mono [OF old subset_refl] upd(1) by (rule subset_trans)
    finally show ?thesis by (simp add: y')
  qed (use st upd(4) old in \<open>simp_all add: y'\<close>)
qed

lemma sys_apply_activity:
  assumes "activity_inv y" "sys_apply lib remote e y = Done y'"
  shows "activity_inv y'"
proof -
  from assms(1) have inv: "sys_inv y" "ss_inv (sys_suspend y)" "wl_inv (mStatsList (sys_suspend y))"
    and old: "active_keys (mStatsList (sys_suspend y)) \<subseteq> recorded_keys (sys_locks y)"
    by (simp_all add: activity_inv_def sys_inv_def ss_inv_def)
  have "active_keys (mStatsList (sys_suspend y')) \<subseteq> recorded_keys (sys_locks y')"
  proof (cases e)
    case (LockAction i inp)
    with lock_step_activity [OF assms(1)] assms(2) show ?thesis by simp
  next
    case (ReleaseLock i)
    with assms(2) have i: "i < length (sys_locks y)"
      and y': "y' = y\<lparr>sys_locks := (sys_locks y)[i := releaseOnce (sys_locks y ! i)]\<rparr>"
      by (simp_all add: release_step_def split: if_splits)
    have "lock_key (releaseOnce lk) = lock_key lk" "recorded (releaseOnce lk) = recorded lk" for lk
      by (simp_all add: releaseOnce_def recorded_def lock_key_def)
    with recorded_keys_update(4) [OF i] have "recorded_keys (sys_locks y) \<subseteq> recorded_keys (sys_locks y')"
      by (simp add: y')
    with old show ?thesis by (simp add: y')
  next
    case (UpdateStatsNow t)
    with assms(2) old active_keys_now [OF inv(3)] show ?thesis
      by (auto simp: map_suspend_def updateStatsNow_def)
  next
    case (ThreadStep i ev)
    with assms(2) old run_thread_stats [OF inv(2)] show ?thesis by (auto split: outcome.splits)
  qed (use assms(2) old in \<open>auto simp: map_suspend_def calls_stats recorded_keys_def split: sum.splits\<close>)
  with inv(1) assms(2) sys_apply_ok [of y lib remote e] show ?thesis by (simp add: activity_inv_def)
qed

interpretation activity: invariant_system sys_init "sys_step lib remote" activity_inv for lib remote
proof unfold_locales
  show "activity_inv y" if "sys_init y" for y
    using that sys_inv_init [OF that]
    by (auto simp: activity_inv_def active_keys_def sys_init_def sys_new_def SystemSuspend_new_def
        WakeLockEntryList_new_def nl_simps)
  show "activity_inv y'" if "activity_inv y" "sys_step lib remote y e y'" for y y' e
    using sys_apply_activity that by (simp add: sys_step_iff)
qed

lemma released_not_recorded:
  assumes "lock_inv lk" "mReleased lk" "lk_todo lk = []"
  shows "\<not> recorded lk" "\<not> counted lk"
  using assms by (auto simp: lock_inv_def actions_eq Let_def recorded_def counted_def net_def)

subsection \<open>Properties\<close>

lemma sample_released_stats:
  "case sys_run sample_libs (\<lambda>_. True) sample_released sample_start of
     Done y \<Rightarrow> all_released y \<and> map wl_key_of (wl_entries (mStatsList (sys_suspend y))) = [(''a'', 7)]
   | _ \<Rightarrow> False"
  by code_simp

text \<open>C8. In any interleaving, a native entry that the statistics report as active belongs to a wake
  lock of the same name and process whose acquisition has been recorded and whose release has not been
  yet. When every wake lock has been released, the suspend counter is zero and no native entry is active:
  no schedule of clients leaves a wake lock behind, as the stress test of the unit tests expects.\<close>

theorem active_entries_have_locks:
  assumes "reach sys_init (sys_step lib remote) y"
  shows "(\<forall>e \<in> set (wl_entries (mStatsList (sys_suspend y))). isActive e \<longrightarrow>
      (\<exists>lk \<in> set (sys_locks y). lock_key lk = wl_key_of e \<and> recorded lk)) \<and>
    (all_released y \<longrightarrow> mSuspendCounter (sys_suspend y) = 0 \<and>
      (\<forall>e \<in> set (wl_entries (mStatsList (sys_suspend y))). \<not> isActive e))"
proof -
  from assms have inv: "activity_inv y" by (rule activity.reach_inv)
  then have sub: "active_keys (mStatsList (sys_suspend y)) \<subseteq> recorded_keys (sys_locks y)"
    by (simp add: activity_inv_def)
  have locks: "\<exists>lk \<in> set (sys_locks y). lock_key lk = wl_key_of e \<and> recorded lk"
    if "e \<in> set (wl_entries (mStatsList (sys_suspend y)))" "isActive e" for e
  proof -
    from that have "wl_key_of e \<in> active_keys (mStatsList (sys_suspend y))" by (simp add: active_keys_def)
    with sub show ?thesis by (force simp: recorded_keys_def)
  qed
  have none: "\<not> recorded lk \<and> \<not> counted lk" if "all_released y" "lk \<in> set (sys_locks y)" for lk
    using that inv released_not_recorded by (auto simp: all_released_def activity_inv_def sys_inv_def list_all_iff)
  then have "counted_locks y = 0" if "all_released y"
    using that by (auto simp: counted_locks_def filter_empty_conv)
  with inv have "mSuspendCounter (sys_suspend y) = 0" if "all_released y"
    using that by (auto simp: activity_inv_def sys_inv_def counter_ok_def)
  with locks none show ?thesis by blast
qed

theorem active_entries_have_locks_witness:
  "\<exists>y. reach sys_init (sys_step sample_libs (\<lambda>_. True)) y \<and> wl_entries (mStatsList (sys_suspend y)) \<noteq> [] \<and>
     mSuspendCounter (sys_suspend y) = 0 \<and> (\<forall>e \<in> set (wl_entries (mStatsList (sys_suspend y))). \<not> isActive e)"
proof -
  obtain y where y: "sys_run sample_libs (\<lambda>_. True) sample_released sample_start = Done y" "all_released y"
    "map wl_key_of (wl_entries (mStatsList (sys_suspend y))) = [(''a'', 7)]"
    using sample_released_stats unfolding outcome_case_Done by (elim exE conjE) (rule that)
  have r: "reach sys_init (sys_step sample_libs (\<lambda>_. True)) y" by (rule reach_run [OF sample_start_reach y(1)])
  from active_entries_have_locks [OF r] y(2,3) r show ?thesis by (metis list.map(1) list.distinct(1))
qed

end
