(* ===== verification/UnitTests.thy ===== *)
theory UnitTests
  imports TestHarness WakeLockActivity
begin

text \<open>
  The tests of \<open>suspend/1.0/default/SystemSuspendUnitTest.cpp\<close> and \<open>SystemSuspendAidlTest.cpp\<close> as runs of the
  model, one definition per test. A test of the fixture \<open>SystemSuspendTest\<close> runs
  between \<open>SetUp\<close> and \<open>TearDown\<close>. What a callback does to the service when it is called is run after the
  notification, which is the same by \<open>call_all_fold\<close> of \<open>SuspendControl\<close>. Left out are two tests that are
  commented out in the source.

  Shown: every one of them passes, so the model behaves as the authors of the program expect on their
  own examples; the assertion of the stress test holds for every schedule of its threads.
\<close>

definition passes :: "'a option \<Rightarrow> bool" where
  "passes t = (case t of None \<Rightarrow> False | Some _ \<Rightarrow> True)"

subsection \<open>\<open>SystemSuspendTest\<close>\<close>

definition SetUpTestSuite :: "fixture option" where
  "SetUpTestSuite = do {
     (enabled, fx) \<leftarrow> call_enable 1 (fixture_new 1);
     _ \<leftarrow> assert_that enabled;
     Some fx
   }"

definition SetUp :: "fixture \<Rightarrow> fixture option" where
  "SetUp fx = do {
     (_, fx1) \<leftarrow> call_enable 2 fx;
     _ \<leftarrow> assert_that (isReadBlocked_count fx1);
     _ \<leftarrow> assert_that (isReadBlocked_state fx1);
     Some fx1
   }"

definition TearDown :: "fixture \<Rightarrow> fixture option" where
  "TearDown fx = do {
     let fx1 = settle fx;
     (_, fx2) \<leftarrow> (if \<not> isReadBlocked_count fx1 then read_count fx1 else Some ([], fx1));
     (_, fx3) \<leftarrow> (if \<not> isReadBlocked_state fx2 then read_state fx2 else Some ([], fx2));
     _ \<leftarrow> assert_that (isReadBlocked_count fx3);
     _ \<leftarrow> assert_that (isReadBlocked_state fx3);
     Some fx3
   }"

definition test_passes :: "(fixture \<Rightarrow> fixture option) \<Rightarrow> bool" where
  "test_passes body = passes (do {
     fx1 \<leftarrow> SetUpTestSuite;
     fx2 \<leftarrow> SetUp fx1;
     fx3 \<leftarrow> body fx2;
     TearDown fx3
   })"

definition OnlyOneEnableAutosuspend :: "fixture \<Rightarrow> fixture option" where
  "OnlyOneEnableAutosuspend fx = do {
     (enabled, fx1) \<leftarrow> call_enable 3 fx;
     _ \<leftarrow> assert_that (\<not> enabled);
     Some fx1
   }"

definition EnableAutosuspendAfterDisableAutosuspend :: "fixture \<Rightarrow> fixture option" where
  "EnableAutosuspendAfterDisableAutosuspend fx = do {
     fx1 \<leftarrow> checkLoop 1 fx;
     (enabled, fx2) \<leftarrow> call_enable 3 fx1;
     _ \<leftarrow> assert_that (\<not> enabled);
     fx3 \<leftarrow> event DisableAutosuspend fx2;
     let fx4 = unblockSystemSuspendFromWakeupCount fx3;
     (enabled, fx5) \<leftarrow> call_enable 4 fx4;
     _ \<leftarrow> assert_that enabled;
     Some fx5
   }"

definition DisableAutosuspendBlocksSuspend :: "fixture \<Rightarrow> fixture option" where
  "DisableAutosuspendBlocksSuspend fx = do {
     fx1 \<leftarrow> checkLoop 1 fx;
     fx2 \<leftarrow> event DisableAutosuspend fx1;
     fx3 \<leftarrow> assert_blocked True (unblockSystemSuspendFromWakeupCount fx2);
     (enabled, fx4) \<leftarrow> call_enable 3 fx3;
     _ \<leftarrow> assert_that enabled;
     Some fx4
   }"

definition AutosuspendLoop :: "fixture \<Rightarrow> fixture option" where
  "AutosuspendLoop fx = checkLoop 5 fx"

text \<open>The reference to the lock ends with its block.\<close>

definition WakeLockDestructor :: "fixture \<Rightarrow> fixture option" where
  "WakeLockDestructor fx = do {
     (wl, fx1) \<leftarrow> acquireWakeLock ''TestLock'' fx;
     fx2 \<leftarrow> assert_blocked True (unblockSystemSuspendFromWakeupCount fx1);
     fx3 \<leftarrow> release_lock wl fx2;
     assert_blocked False fx3
   }"

text \<open>The reference also ends, without effect, after the explicit release.\<close>

definition WakeLockRelease :: "fixture \<Rightarrow> fixture option" where
  "WakeLockRelease fx = do {
     (wl, fx1) \<leftarrow> acquireWakeLock ''TestLock'' fx;
     fx2 \<leftarrow> assert_blocked True (unblockSystemSuspendFromWakeupCount fx1);
     fx3 \<leftarrow> release_lock wl fx2;
     fx4 \<leftarrow> assert_blocked False fx3;
     event (ReleaseLock wl) fx4
   }"

definition MultipleWakeLocks :: "fixture \<Rightarrow> fixture option" where
  "MultipleWakeLocks fx = do {
     (wl1, fx1) \<leftarrow> acquireWakeLock ''TestLock'' fx;
     fx2 \<leftarrow> assert_blocked True fx1;
     (wl2, fx3) \<leftarrow> acquireWakeLock ''TestLock'' fx2;
     fx4 \<leftarrow> assert_blocked True (unblockSystemSuspendFromWakeupCount fx3);
     fx5 \<leftarrow> release_lock wl2 fx4;
     fx6 \<leftarrow> assert_blocked True fx5;
     fx7 \<leftarrow> release_lock wl1 fx6;
     assert_blocked False fx7
   }"

text \<open>The client is another thread, which ends.\<close>

definition ThreadCleanup :: "fixture \<Rightarrow> fixture option" where
  "ThreadCleanup fx = do {
     fx1 \<leftarrow> do {
       (wl, fx1) \<leftarrow> acquireWakeLock ''TestLock'' fx;
       fx2 \<leftarrow> assert_blocked True (unblockSystemSuspendFromWakeupCount fx1);
       release_lock wl fx2
     };
     assert_blocked False fx1
   }"

text \<open>The client is another process, which aborts: the driver drops its reference.\<close>

definition CleanupOnAbort :: "fixture \<Rightarrow> fixture option" where
  "CleanupOnAbort fx = do {
     (wl, fx1) \<leftarrow> acquireWakeLock ''TestLock'' fx;
     fx2 \<leftarrow> release_lock wl fx1;
     fx3 \<leftarrow> assert_blocked True fx2;
     assert_blocked False (unblockSystemSuspendFromWakeupCount fx3)
   }"

definition SuspendBackoffLongSuspendTest :: "fixture \<Rightarrow> fixture option" where
  "SuspendBackoffLongSuspendTest fx = do {
     fx1 \<leftarrow> suspendFor ''0.001'' 10000 1 fx;
     checkSleepTime (baseSleepTime test_config) fx1
   }"

definition BackoffThresholdTest :: "fixture \<Rightarrow> fixture option" where
  "BackoffThresholdTest fx = do {
     fx1 \<leftarrow> suspendFor ''0.001'' 10000 1 fx;
     fx2 \<leftarrow> checkSleepTime (baseSleepTime test_config) fx1;
     let expectedSleepTime = ms_scaled (baseSleepTime test_config) (sleepTimeScaleFactor test_config);
     fx3 \<leftarrow> suspendFor ''0.001'' 10 (unat (backoffThreshold test_config)) fx2;
     fx4 \<leftarrow> checkSleepTime (baseSleepTime test_config) fx3;
     fx5 \<leftarrow> suspendFor ''0.001'' 10 1 fx4;
     fx6 \<leftarrow> checkSleepTime expectedSleepTime fx5;
     fx7 \<leftarrow> suspendFor ''0.001'' 10000 1 fx6;
     checkSleepTime (baseSleepTime test_config) fx7
   }"

definition SuspendBackoffMaxTest :: "fixture \<Rightarrow> fixture option" where
  "SuspendBackoffMaxTest fx = do {
     fx1 \<leftarrow> suspendFor ''0.001'' 10000 1 fx;
     fx2 \<leftarrow> checkSleepTime (baseSleepTime test_config) fx1;
     fx3 \<leftarrow> suspendFor ''0.001'' 10 (3 + unat (backoffThreshold test_config)) fx2;
     fx4 \<leftarrow> checkSleepTime (maxSleepTime test_config) fx3;
     fx5 \<leftarrow> suspendFor ''0.001'' 10000 1 fx4;
     checkSleepTime (baseSleepTime test_config) fx5
   }"

subsection \<open>Callbacks\<close>

definition cb1 :: callback where
  "cb1 = \<lparr>cb_object = 1, cb_binder = 11\<rparr>"

definition cb2 :: callback where
  "cb2 = \<lparr>cb_object = 2, cb_binder = 12\<rparr>"

definition dead_cb :: callback where
  "dead_cb = \<lparr>cb_object = 3, cb_binder = 100\<rparr>"

text \<open>What \<open>MockCallbackImpl\<close> has counted and kept: calls of the first callback.\<close>

definition mWakeupReasons :: "fixture \<Rightarrow> string list" where
  "mWakeupReasons fx =
     (case rev (filter (\<lambda>w. cb_object (fst w) = cb_object cb1) (wakeup_calls (sys_suspend (fx_sys fx)))) of
        [] \<Rightarrow> [] | (_, _, reasons) # _ \<Rightarrow> reasons)"

definition mNumWakeups :: "fixture \<Rightarrow> nat" where
  "mNumWakeups fx =
     length (filter (\<lambda>w. cb_object (fst w) = cb_object cb1) (wakeup_calls (sys_suspend (fx_sys fx))))"

definition RegisterInvalidCallback :: "fixture \<Rightarrow> fixture option" where
  "RegisterInvalidCallback fx = do {
     (retval, fx1) \<leftarrow> call_registerCallback None fx;
     _ \<leftarrow> assert_that (\<not> retval);
     Some fx1
   }"

definition CallbackNotifyWakeup :: "fixture \<Rightarrow> fixture option" where
  "CallbackNotifyWakeup fx = do {
     let numWakeups = 5;
     (retval, fx1) \<leftarrow> call_registerCallback (Some cb1) fx;
     _ \<leftarrow> assert_that retval;
     fx2 \<leftarrow> checkLoop (numWakeups + 1) fx1;
     _ \<leftarrow> assert_that (numWakeups \<le> mNumWakeups fx2);
     Some fx2
   }"

text \<open>\<open>lseek\<close> to the start of the reason file and \<open>WriteStringToFd\<close>, then three suspends.\<close>

definition reason_round :: "string \<Rightarrow> string list \<Rightarrow> fixture \<Rightarrow> fixture option" where
  "reason_round text expected fx = do {
     fx1 \<leftarrow> checkLoop 3 (fx\<lparr>fx_reasons_file := text @ drop (length text) (fx_reasons_file fx)\<rparr>);
     _ \<leftarrow> assert_that (mWakeupReasons fx1 = expected);
     Some fx1
   }"

definition CallbackNotifyWakeupReason :: "fixture \<Rightarrow> fixture option" where
  "CallbackNotifyWakeupReason fx = do {
     (retval, fx1) \<leftarrow> call_registerCallback (Some cb1) fx;
     _ \<leftarrow> assert_that retval;
     fx2 \<leftarrow> reason_round '''' [''unknown''] fx1;
     fx3 \<leftarrow> reason_round '' '' [''unknown''] fx2;
     fx4 \<leftarrow> reason_round [newline, newline] [''unknown''] fx3;
     fx5 \<leftarrow> reason_round ''100 :android,wakeup-reason-1'' [''100 :android,wakeup-reason-1''] fx4;
     fx6 \<leftarrow> reason_round (''Abort: android,wakeup-reason-2'' @ [newline]) [''Abort: android,wakeup-reason-2''] fx5;
     reason_round (''999 :android,wakeup-reason-3'' @ [newline] @ ''Abort: android,wakeup-reason-3'' @ [newline])
       [''999 :android,wakeup-reason-3'', ''Abort: android,wakeup-reason-3''] fx6
   }"

text \<open>The process that registered the callback exits.\<close>

definition DeadCallback :: "fixture \<Rightarrow> fixture option" where
  "DeadCallback fx = do {
     (retval, fx1) \<leftarrow> call_registerCallback (Some dead_cb) fx;
     _ \<leftarrow> assert_that retval;
     fx2 \<leftarrow> event (ControlCall (BinderDied (cb_binder dead_cb))) fx1;
     checkLoop 3 fx2
   }"

definition RegisterInvalidWakelockCallback :: "fixture \<Rightarrow> fixture option" where
  "RegisterInvalidWakelockCallback fx = do {
     (retval, fx1) \<leftarrow> call_registerWakelockCallback None ''testLock'' fx;
     _ \<leftarrow> assert_that (\<not> retval);
     Some fx1
   }"

definition RegisterCallbackTwice :: "fixture \<Rightarrow> fixture option" where
  "RegisterCallbackTwice fx = do {
     (retval, fx1) \<leftarrow> call_registerWakelockCallback (Some cb1) ''testLock'' fx;
     _ \<leftarrow> assert_that retval;
     (retval, fx2) \<leftarrow> call_registerWakelockCallback (Some cb1) ''testLock'' fx1;
     _ \<leftarrow> assert_that (\<not> retval);
     Some fx2
   }"

definition RegisterSameCallbackForTwoWakelocks :: "fixture \<Rightarrow> fixture option" where
  "RegisterSameCallbackForTwoWakelocks fx = do {
     (retval, fx1) \<leftarrow> call_registerWakelockCallback (Some cb1) ''testLock1'' fx;
     _ \<leftarrow> assert_that retval;
     (retval, fx2) \<leftarrow> call_registerWakelockCallback (Some cb1) ''testLock2'' fx1;
     _ \<leftarrow> assert_that retval;
     Some fx2
   }"

definition RegisterTwoCallbacksForSameWakelock :: "fixture \<Rightarrow> fixture option" where
  "RegisterTwoCallbacksForSameWakelock fx = do {
     (retval, fx1) \<leftarrow> call_registerWakelockCallback (Some cb1) ''testLock'' fx;
     _ \<leftarrow> assert_that retval;
     (retval, fx2) \<leftarrow> call_registerWakelockCallback (Some cb2) ''testLock'' fx1;
     _ \<leftarrow> assert_that retval;
     Some fx2
   }"

definition DeadWakelockCallback :: "fixture \<Rightarrow> fixture option" where
  "DeadWakelockCallback fx = do {
     (retval, fx1) \<leftarrow> call_registerWakelockCallback (Some dead_cb) ''testLock'' fx;
     _ \<leftarrow> assert_that retval;
     fx2 \<leftarrow> event (ControlCall (BinderDied (cb_binder dead_cb))) fx1;
     (testLock, fx3) \<leftarrow> acquireWakeLock ''testLock'' fx2;
     release_lock testLock fx3
   }"

definition wakelock_calls_of :: "callback \<Rightarrow> wl_event \<Rightarrow> fixture \<Rightarrow> nat" where
  "wakelock_calls_of c ev fx =
     length (filter (\<lambda>w. cb_object (fst w) = cb_object c \<and> snd w = ev) (wakelock_calls (sys_suspend (fx_sys fx))))"

definition CallbackNotifyWakelock :: "fixture \<Rightarrow> fixture option" where
  "CallbackNotifyWakelock fx = do {
     (retval, fx1) \<leftarrow> call_registerWakelockCallback (Some cb1) ''testLock1'' fx;
     _ \<leftarrow> assert_that retval;
     (retval, fx2) \<leftarrow> call_registerWakelockCallback (Some cb2) ''testLock2'' fx1;
     _ \<leftarrow> assert_that retval;
     fx3 \<leftarrow> checkWakelockLoop 4 ''testLock1'' fx2;
     fx4 \<leftarrow> checkWakelockLoop 3 ''testLock2'' fx3;
     _ \<leftarrow> assert_that (wakelock_calls_of cb1 notifyAcquired fx4 = 4);
     _ \<leftarrow> assert_that (wakelock_calls_of cb1 notifyReleased fx4 = 4);
     _ \<leftarrow> assert_that (wakelock_calls_of cb2 notifyAcquired fx4 = 3);
     _ \<leftarrow> assert_that (wakelock_calls_of cb2 notifyReleased fx4 = 3);
     Some fx4
   }"

text \<open>\<open>CbRegisteringCb\<close> and \<open>WakelockCbRegisteringCb\<close> register a new callback for every call they get.\<close>

fun repeat_test :: "nat \<Rightarrow> (fixture \<Rightarrow> fixture option) \<Rightarrow> fixture \<Rightarrow> fixture option" where
  "repeat_test 0 f fx = Some fx"
| "repeat_test (Suc n) f fx = Option.bind (f fx) (repeat_test n f)"

definition CbRegisteringCb :: "fixture \<Rightarrow> fixture option" where
  "CbRegisteringCb fx = do {
     let n = length (mCallbacks (mControlService (sys_suspend (fx_sys fx))));
     (retval, fx1) \<leftarrow> call_registerCallback (Some \<lparr>cb_object = 50 + n, cb_binder = 50 + n\<rparr>) fx;
     Some fx1
   }"

definition CallbackRegisterCallbackNoDeadlock :: "fixture \<Rightarrow> fixture option" where
  "CallbackRegisterCallbackNoDeadlock fx = do {
     (retval, fx1) \<leftarrow> call_registerCallback (Some cb1) fx;
     _ \<leftarrow> assert_that retval;
     repeat_test 3 (\<lambda>fx. do {
       fx' \<leftarrow> check_once fx;
       repeat_test (mNumWakeups fx' - mNumWakeups fx) CbRegisteringCb fx'
     }) fx1
   }"

definition WakelockCbRegisteringCb :: "fixture \<Rightarrow> fixture option" where
  "WakelockCbRegisteringCb fx = do {
     let n = length (wakelock_cbs (mControlService (sys_suspend (fx_sys fx))) ''testLock'');
     (retval, fx1) \<leftarrow> call_registerWakelockCallback (Some \<lparr>cb_object = 50 + n, cb_binder = 50 + n\<rparr>) ''testLock'' fx;
     Some fx1
   }"

text \<open>An acquisition or a release, with what the registering callback does at it.\<close>

definition with_reactions :: "wl_event \<Rightarrow> fixture \<Rightarrow> fixture \<Rightarrow> fixture option" where
  "with_reactions ev fx fx' =
     repeat_test (wakelock_calls_of cb1 ev fx' - wakelock_calls_of cb1 ev fx) WakelockCbRegisteringCb fx'"

definition WakelockCallbackRegisterCallbackNoDeadlock :: "fixture \<Rightarrow> fixture option" where
  "WakelockCallbackRegisterCallbackNoDeadlock fx = do {
     (retval, fx1) \<leftarrow> call_registerWakelockCallback (Some cb1) ''testLock'' fx;
     _ \<leftarrow> assert_that retval;
     repeat_test 3 (\<lambda>fx. do {
       (testLock, fxa) \<leftarrow> acquireWakeLock ''testLock'' fx;
       fxb \<leftarrow> with_reactions notifyAcquired fx fxa;
       fxc \<leftarrow> release_lock testLock fxb;
       with_reactions notifyReleased fxb fxc
     }) fx1
   }"

text \<open>The fixture has no kernel wakelocks.\<close>

definition getActiveWakeLockCount :: "fixture \<Rightarrow> nat" where
  "getActiveWakeLockCount fx =
     (case fst (internal_getWakeLockStats (\<lambda>_. None) None (fx_clock fx) (Some (sys_suspend (fx_sys fx)))) of
        Inl _ \<Rightarrow> 0 | Inr wlStats \<Rightarrow> length (filter isActive wlStats))"

subsection \<open>\<open>SystemSuspendSameThreadTest\<close>\<close>

text \<open>\<open>ParseInt\<close> of the base library on the decimal numbers the tests write.\<close>

definition parse_decimal :: "string \<Rightarrow> i64 option" where
  "parse_decimal t = (if t \<noteq> [] \<and> list_all isdigit t then Some (of_nat (digits_value t)) else None)"

definition findWakeLockInfoByName :: "WakeLockInfo list \<Rightarrow> string \<Rightarrow> WakeLockInfo option" where
  "findWakeLockInfoByName wlStats name = find (\<lambda>x. wl_name x = name) wlStats"

text \<open>The directory of a kernel wakelock: all statistics are 42 but the active count.\<close>

definition kernel_wakelock :: "string \<Rightarrow> string \<Rightarrow> nat \<Rightarrow> string \<times> stat_dir option" where
  "kernel_wakelock kwlId name active =
     (kwlId, Some [(''name'', Some name), (''active_count'', Some (dec_nat active)),
        (''active_time_ms'', Some ''42''), (''event_count'', Some ''42''), (''expire_count'', Some ''42''),
        (''last_change_ms'', Some ''42''), (''max_time_ms'', Some ''42''),
        (''prevent_suspend_time_ms'', Some ''42''), (''total_time_ms'', Some ''42''), (''wakeup_count'', Some ''42'')])"

definition suspend_stats_dir :: "stats_file list" where
  "suspend_stats_dir =
     map (\<lambda>n. (n, Some (Some ''42'')))
       [''success'', ''fail'', ''failed_freeze'', ''failed_prepare'', ''failed_suspend'', ''failed_suspend_late'',
        ''failed_suspend_noirq'', ''failed_resume'', ''failed_resume_early'', ''failed_resume_noirq''] @
     [(''last_failed_dev'', Some (Some ''fakeDev'')), (''last_failed_errno'', Some (Some ''42'')),
      (''last_failed_step'', Some (Some ''fakeStep''))]"

definition dot_entries :: "(string \<times> 'a option) list" where
  "dot_entries = [(''.'', None), (''..'', None)]"

definition getWakelockStats ::
  "(string \<times> stat_dir option) list \<Rightarrow> fixture \<Rightarrow> (WakeLockInfo list \<times> fixture) option" where
  "getWakelockStats kwls fx = do {
     fx1 \<leftarrow> event (UpdateStatsNow (fx_clock fx)) fx;
     case fst (internal_getWakeLockStats parse_decimal (Some (dot_entries @ kwls)) (fx_clock fx)
                 (Some (sys_suspend (fx_sys fx)))) of
       Inl _ \<Rightarrow> None
     | Inr wlStats \<Rightarrow> Some (wlStats, fx1)
   }"

definition sleep_1s :: "fixture \<Rightarrow> fixture" where
  "sleep_1s fx = fx\<lparr>fx_clock := \<lparr>tv_sec = tv_sec (fx_clock fx) + 1, tv_nsec = tv_nsec (fx_clock fx)\<rparr>\<rparr>"

text \<open>The assertions about a native wake lock that is held, one that was released a second later, and
  a kernel wakelock.\<close>

definition native_fields_ok :: "string \<Rightarrow> WakeLockInfo \<Rightarrow> bool" where
  "native_fields_ok name i \<longleftrightarrow>
     wl_name i = name \<and> activeCount i = 1 \<and> \<not> isKernelWakelock i \<and> wl_pid i = test_pid \<and>
     eventCount i = 0 \<and> expireCount i = 0 \<and> preventSuspendTime i = 0 \<and> wakeupCount i = 0"

definition native_held_ok :: "string \<Rightarrow> WakeLockInfo list \<Rightarrow> bool" where
  "native_held_ok name wlStats =
     (case findWakeLockInfoByName wlStats name of None \<Rightarrow> False
      | Some i \<Rightarrow> native_fields_ok name i \<and> isActive i)"

definition native_released_ok :: "string \<Rightarrow> WakeLockInfo list \<Rightarrow> bool" where
  "native_released_ok name wlStats =
     (case findWakeLockInfoByName wlStats name of None \<Rightarrow> False
      | Some i \<Rightarrow> native_fields_ok name i \<and> 1000 \<le> sint (maxTime i) \<and> 1000 \<le> sint (totalTime i) \<and>
          \<not> isActive i \<and> activeTime i = 0)"

definition kernel_ok :: "string \<Rightarrow> i64 \<Rightarrow> WakeLockInfo list \<Rightarrow> bool" where
  "kernel_ok name active wlStats =
     (case findWakeLockInfoByName wlStats name of None \<Rightarrow> False
      | Some i \<Rightarrow> wl_name i = name \<and> activeCount i = active \<and> lastChange i = 42 \<and> maxTime i = 42 \<and>
          totalTime i = 42 \<and> isActive i \<and> activeTime i = 42 \<and> isKernelWakelock i \<and> wl_pid i = -1 \<and>
          eventCount i = 42 \<and> expireCount i = 42 \<and> preventSuspendTime i = 42 \<and> wakeupCount i = 42)"

definition GetNativeWakeLockStats :: "fixture option" where
  "GetNativeWakeLockStats = do {
     (fakeLock, fx1) \<leftarrow> acquireWakeLock ''FakeLock'' (fixture_new 1);
     (wlStats, fx2) \<leftarrow> getWakelockStats [] fx1;
     _ \<leftarrow> assert_that (length wlStats = 1);
     _ \<leftarrow> assert_that (native_held_ok ''FakeLock'' wlStats);
     fx3 \<leftarrow> release_lock fakeLock (sleep_1s fx2);
     (wlStats, fx4) \<leftarrow> getWakelockStats [] fx3;
     _ \<leftarrow> assert_that (length wlStats = 1);
     _ \<leftarrow> assert_that (native_released_ok ''FakeLock'' wlStats);
     event DisableAutosuspend fx4
   }"

definition GetKernelWakeLockStats :: "fixture option" where
  "GetKernelWakeLockStats = do {
     (wlStats, fx1) \<leftarrow> getWakelockStats
       [kernel_wakelock ''wakeup0'' ''fakeKwl1'' 42, kernel_wakelock ''wakeup1'' ''fakeKwl2'' 10] (fixture_new 1);
     _ \<leftarrow> assert_that (length wlStats = 2);
     _ \<leftarrow> assert_that (kernel_ok ''fakeKwl1'' 42 wlStats);
     _ \<leftarrow> assert_that (kernel_ok ''fakeKwl2'' 10 wlStats);
     event DisableAutosuspend fx1
   }"

definition GetNativeAndKernelWakeLockStats :: "fixture option" where
  "GetNativeAndKernelWakeLockStats = do {
     let kwls = [kernel_wakelock ''wakeup2'' ''fakeKwl'' 42];
     (fakeLock, fx1) \<leftarrow> acquireWakeLock ''fakeNwl'' (fixture_new 1);
     (wlStats, fx2) \<leftarrow> getWakelockStats kwls fx1;
     _ \<leftarrow> assert_that (length wlStats = 2);
     _ \<leftarrow> assert_that (native_held_ok ''fakeNwl'' wlStats);
     _ \<leftarrow> assert_that (kernel_ok ''fakeKwl'' 42 wlStats);
     fx3 \<leftarrow> release_lock fakeLock (sleep_1s fx2);
     (wlStats, fx4) \<leftarrow> getWakelockStats kwls fx3;
     _ \<leftarrow> assert_that (length wlStats = 2);
     _ \<leftarrow> assert_that (native_released_ok ''fakeNwl'' wlStats);
     _ \<leftarrow> assert_that (kernel_ok ''fakeKwl'' 42 wlStats);
     event DisableAutosuspend fx4
   }"

text \<open>The references that \<open>acquireWakeLock\<close> returns are dropped at once.\<close>

definition NativeWakeLockStatsLruEviction :: "fixture option" where
  "NativeWakeLockStatsLruEviction = do {
     fx1 \<leftarrow> wakelock_once ''FakeLock1'' (fixture_new 1);
     fx2 \<leftarrow> wakelock_once ''FakeLock2'' fx1;
     (wlStats, fx3) \<leftarrow> getWakelockStats [] fx2;
     _ \<leftarrow> assert_that (map wl_name wlStats = [''FakeLock2'']);
     _ \<leftarrow> assert_that (case findWakeLockInfoByName wlStats ''FakeLock2'' of None \<Rightarrow> False | Some _ \<Rightarrow> True);
     _ \<leftarrow> assert_that (case findWakeLockInfoByName wlStats ''FakeLock1'' of None \<Rightarrow> True | Some _ \<Rightarrow> False);
     event DisableAutosuspend fx3
   }"

definition GetSuspendStats :: bool where
  "GetSuspendStats =
     (case fst (getSuspendStats None (Some (dot_entries @ suspend_stats_dir))) of
        StatsOk stats \<Rightarrow>
          stats = \<lparr>st_success = 42, st_fail = 42, failedFreeze = 42, failedPrepare = 42, failedSuspend = 42,
            failedSuspendLate = 42, failedSuspendNoirq = 42, failedResume = 42, failedResumeEarly = 42,
            failedResumeNoirq = 42, lastFailedDev = ''fakeDev'', lastFailedErrno = 42, lastFailedStep = ''fakeStep''\<rparr>
      | _ \<Rightarrow> False)"

subsection \<open>\<open>SuspendWakeupTest\<close>\<close>

definition wakeup_SetUp :: "fixture option" where
  "wakeup_SetUp = do {
     (enabled, fx) \<leftarrow> call_enable 1 (fixture_new 100);
     _ \<leftarrow> assert_that enabled;
     Some fx
   }"

definition wakeup_test_passes :: "(fixture \<Rightarrow> fixture option) \<Rightarrow> bool" where
  "wakeup_test_passes body = passes (do {
     fx1 \<leftarrow> wakeup_SetUp;
     fx2 \<leftarrow> body fx1;
     event DisableAutosuspend fx2
   })"

definition wakeup :: "string \<Rightarrow> fixture \<Rightarrow> fixture option" where
  "wakeup wakeupReason fx = checkLoop 1 (fx\<lparr>fx_reasons_file := wakeupReason\<rparr>)"

definition expect_info :: "SuspendInfo \<Rightarrow> fixture \<Rightarrow> fixture option" where
  "expect_info expected fx = do {
     let fx1 = settle fx;
     _ \<leftarrow> assert_that (getSuspendInfo (sys_suspend (fx_sys fx1)) = expected);
     Some fx1
   }"

definition info_zero :: SuspendInfo where
  "info_zero = mSuspendInfo (sleep_state_new test_config)"

definition LongSuspendStat :: "fixture \<Rightarrow> fixture option" where
  "LongSuspendStat fx = do {
     fx1 \<leftarrow> suspendFor ''0.020000'' 10000 1 fx;
     expect_info (info_zero\<lparr>suspendAttemptCount := 1, suspendTimeMillis := 10000, suspendOverheadTimeMillis := 20,
       sleepTimeMillis := 100\<rparr>) fx1
   }"

definition ShortSuspendStat :: "fixture \<Rightarrow> fixture option" where
  "ShortSuspendStat fx = do {
     fx1 \<leftarrow> suspendFor ''0.020000'' 10 1 fx;
     expect_info (info_zero\<lparr>suspendAttemptCount := 1, shortSuspendCount := 1, shortSuspendTimeMillis := 10,
       suspendTimeMillis := 10, suspendOverheadTimeMillis := 20, sleepTimeMillis := 100\<rparr>) fx1
   }"

definition info_backoff :: SuspendInfo where
  "info_backoff = info_zero\<lparr>suspendAttemptCount := 2, shortSuspendCount := 2, shortSuspendTimeMillis := 10 * 2,
     suspendTimeMillis := 10 * 2, suspendOverheadTimeMillis := 20 * 2, newBackoffCount := 1,
     sleepTimeMillis := 100 * 2\<rparr>"

definition ShortSuspendBackoffStat :: "fixture \<Rightarrow> fixture option" where
  "ShortSuspendBackoffStat fx = do {
     fx1 \<leftarrow> suspendFor ''0.020000'' 10 2 fx;
     expect_info info_backoff fx1
   }"

definition ShortSuspendBackoffContinueStat :: "fixture \<Rightarrow> fixture option" where
  "ShortSuspendBackoffContinueStat fx = do {
     fx1 \<leftarrow> suspendFor ''0.020000'' 10 2 fx;
     fx2 \<leftarrow> expect_info info_backoff fx1;
     fx3 \<leftarrow> suspendFor ''0.020000'' 10 1 fx2;
     expect_info (info_backoff\<lparr>suspendAttemptCount := 3, shortSuspendCount := 3, shortSuspendTimeMillis := 30,
       suspendTimeMillis := 30, suspendOverheadTimeMillis := 60, backoffContinueCount := 1,
       sleepTimeMillis := 200 + of_int (ms_scaled (baseSleepTime test_config) (sleepTimeScaleFactor test_config))\<rparr>) fx3
   }"

definition expect_wakeups :: "(string \<times> i64) list \<Rightarrow> fixture \<Rightarrow> fixture option" where
  "expect_wakeups expected fx =
     (case internal_getWakeupStats (Some (sys_suspend (fx_sys fx))) of
        Inl _ \<Rightarrow> None
      | Inr wStats \<Rightarrow> if map (\<lambda>w. (wu_name w, wu_count w)) wStats = expected then Some fx else None)"

definition GetSingleWakeupReasonStat :: "fixture \<Rightarrow> fixture option" where
  "GetSingleWakeupReasonStat fx = do {
     fx1 \<leftarrow> wakeup ''abc'' fx;
     expect_wakeups [(''abc'', 1)] fx1
   }"

definition GetChainedWakeupReasonStat :: "fixture \<Rightarrow> fixture option" where
  "GetChainedWakeupReasonStat fx = do {
     fx1 \<leftarrow> wakeup (''a'' @ [newline] @ ''b'') fx;
     expect_wakeups [(''a;b'', 1)] fx1
   }"

definition GetMultipleWakeupReasonStats :: "fixture \<Rightarrow> fixture option" where
  "GetMultipleWakeupReasonStats fx = do {
     fx1 \<leftarrow> wakeup ''abc'' fx;
     fx2 \<leftarrow> wakeup (''d'' @ [newline] @ ''e'') fx1;
     fx3 \<leftarrow> wakeup '''' fx2;
     fx4 \<leftarrow> wakeup '''' fx3;
     fx5 \<leftarrow> wakeup (''wxyz'' @ [newline] @ ''abc'' @ [newline]) fx4;
     fx6 \<leftarrow> wakeup ''abc'' fx5;
     expect_wakeups [(''abc'', 2), (''wxyz;abc'', 1), (''unknown'', 2), (''d;e'', 1)] fx6
   }"

subsection \<open>\<open>WakeupListTest\<close>\<close>

text \<open>The updates of a test on a new list, and what the list holds then.\<close>

fun wu_updates :: "string list list \<Rightarrow> WakeupList \<Rightarrow> WakeupList option" where
  "wu_updates [] s = Some s"
| "wu_updates (rs # rss) s = Option.bind (wu_update join_with rs s) (wu_updates rss)"

definition wakeups_after :: "nat \<Rightarrow> string list list \<Rightarrow> (string \<times> i64) list option" where
  "wakeups_after capacity updates =
     map_option (\<lambda>s. map (\<lambda>w. (wu_name w, wu_count w)) (getWakeupStats s []))
       (wu_updates updates (WakeupList_new capacity))"

definition TestEmpty :: bool where
  "TestEmpty \<longleftrightarrow> wakeups_after 3 [] = Some []"

definition TestNoCapacity :: bool where
  "TestNoCapacity \<longleftrightarrow> wakeups_after 0 [[''a'']] = Some []"

definition TestConcat :: bool where
  "TestConcat \<longleftrightarrow> wakeups_after 3 [[''a'', ''b'']] = Some [(''a;b'', 1)]"

definition TestNewEntry :: bool where
  "TestNewEntry \<longleftrightarrow> wakeups_after 3 [[''a''], [''b'']] = Some [(''b'', 1), (''a'', 1)]"

definition TestIncrement :: bool where
  "TestIncrement \<longleftrightarrow> wakeups_after 3 [[''a''], [''b''], [''a'']] = Some [(''a'', 2), (''b'', 1)]"

definition TestCapacity :: bool where
  "TestCapacity \<longleftrightarrow> wakeups_after 3 [[''a''], [''b''], [''c''], [''d'']] = Some [(''d'', 1), (''c'', 1), (''b'', 1)]"

definition TestLRUEvict :: bool where
  "TestLRUEvict \<longleftrightarrow>
     wakeups_after 3 [[''a''], [''b''], [''a''], [''c''], [''c''], [''c''], [''d'']] =
       Some [(''d'', 1), (''c'', 3), (''a'', 2)]"

subsection \<open>\<open>SystemSuspendAidlTest.cpp\<close>\<close>

text \<open>The client is another process: its callbacks are remote, and linking to their death succeeds.\<close>

definition remote_cb :: "nat \<Rightarrow> callback" where
  "remote_cb n = \<lparr>cb_object = n, cb_binder = 100 + n\<rparr>"

definition register_wakeup :: "nat \<Rightarrow> bool \<Rightarrow> fixture \<Rightarrow> fixture option" where
  "register_wakeup n expected fx = do {
     (isRegistered, fx1) \<leftarrow> call_registerCallback (Some (remote_cb n)) fx;
     _ \<leftarrow> assert_that (isRegistered = expected);
     Some fx1
   }"

definition register_wakelock :: "nat \<Rightarrow> string \<Rightarrow> bool \<Rightarrow> fixture \<Rightarrow> fixture option" where
  "register_wakelock n name expected fx = do {
     (isRegistered, fx1) \<leftarrow> call_registerWakelockCallback (Some (remote_cb n)) name fx;
     _ \<leftarrow> assert_that (isRegistered = expected);
     Some fx1
   }"

definition RegisterWakeupCallback :: "fixture option" where
  "RegisterWakeupCallback = register_wakeup 1 True (fixture_new 1)"

definition RegisterMultipleWakeupCallback :: "fixture option" where
  "RegisterMultipleWakeupCallback = Option.bind (register_wakeup 1 True (fixture_new 1)) (register_wakeup 2 True)"

definition RegisterWakelockCallback_test :: "fixture option" where
  "RegisterWakelockCallback_test = register_wakelock 1 ''test_lock'' True (fixture_new 1)"

definition RegisterSameWakelockCallbackWithSameName :: "fixture option" where
  "RegisterSameWakelockCallbackWithSameName =
     Option.bind (register_wakelock 1 ''test_lock'' True (fixture_new 1)) (register_wakelock 1 ''test_lock'' False)"

definition RegisterSameWakelockCallbackWithDifferentNames :: "fixture option" where
  "RegisterSameWakelockCallbackWithDifferentNames =
     Option.bind (register_wakelock 1 ''test_lock'' True (fixture_new 1)) (register_wakelock 1 ''test_lock2'' True)"

definition RegisterDifferentWakelockCallbacksWithSameName :: "fixture option" where
  "RegisterDifferentWakelockCallbacksWithSameName =
     Option.bind (register_wakelock 1 ''test_lock'' True (fixture_new 1)) (register_wakelock 2 ''test_lock'' True)"

subsection \<open>Results\<close>

lemma autosuspend_tests:
  "test_passes OnlyOneEnableAutosuspend \<and> test_passes EnableAutosuspendAfterDisableAutosuspend \<and>
   test_passes DisableAutosuspendBlocksSuspend \<and> test_passes AutosuspendLoop"
  by code_simp

lemma wake_lock_tests:
  "test_passes WakeLockDestructor \<and> test_passes WakeLockRelease \<and> test_passes MultipleWakeLocks \<and>
   test_passes ThreadCleanup \<and> test_passes CleanupOnAbort"
  by code_simp

lemma backoff_tests:
  "test_passes SuspendBackoffLongSuspendTest \<and> test_passes BackoffThresholdTest \<and>
   test_passes SuspendBackoffMaxTest"
  by code_simp

lemma callback_tests:
  "test_passes RegisterInvalidCallback \<and> test_passes CallbackNotifyWakeup \<and> test_passes DeadCallback"
  by code_simp

lemma callback_reason_test: "test_passes CallbackNotifyWakeupReason"
  by code_simp

lemma wakelock_callback_tests:
  "test_passes RegisterInvalidWakelockCallback \<and> test_passes RegisterCallbackTwice \<and>
   test_passes RegisterSameCallbackForTwoWakelocks \<and> test_passes RegisterTwoCallbacksForSameWakelock \<and>
   test_passes DeadWakelockCallback \<and> test_passes CallbackNotifyWakelock"
  by code_simp

lemma reacting_callback_tests:
  "test_passes CallbackRegisterCallbackNoDeadlock \<and> test_passes WakelockCallbackRegisterCallbackNoDeadlock"
  by code_simp

text \<open>\<open>WakeLockStressTest\<close>: the threads of the test do nothing but acquire and release wake locks; whatever
  the schedule, and whatever else runs, no entry is active when they have released them all.\<close>

lemma stress_test:
  assumes "sys_run test_libs test_remote es (fx_sys fx) = Done y" "all_released y"
    and "reach sys_init (sys_step test_libs test_remote) (fx_sys fx)"
  shows "getActiveWakeLockCount (fx\<lparr>fx_sys := y\<rparr>) = 0"
proof -
  let ?l = "mStatsList (sys_suspend y)"
  have inv: "activity_inv y" using reach_run [OF assms(3,1)] by (rule activity.reach_inv)
  then have "wl_inv ?l" by (simp add: activity_inv_def sys_inv_def ss_inv_def)
  moreover have "active_keys ?l = {}"
    using inv assms(2) released_not_recorded
    by (auto simp: activity_inv_def all_released_def sys_inv_def list_all_iff recorded_keys_def)
  ultimately have "active_keys (updateNow ts ?l) = {}" for ts by (simp add: active_keys_now)
  then show ?thesis
    by (simp add: getActiveWakeLockCount_def internal_getWakeLockStats_def getWakeLockStats_def
        getKernelWakelockStats_def updateStatsNow_def active_keys_def filter_empty_conv Let_def)
qed

lemma same_thread_tests:
  "passes GetNativeWakeLockStats \<and> passes GetKernelWakeLockStats \<and> passes GetNativeAndKernelWakeLockStats \<and>
   passes NativeWakeLockStatsLruEviction \<and> GetSuspendStats"
  by code_simp

lemma suspend_stat_tests:
  "wakeup_test_passes LongSuspendStat \<and> wakeup_test_passes ShortSuspendStat \<and>
   wakeup_test_passes ShortSuspendBackoffStat \<and> wakeup_test_passes ShortSuspendBackoffContinueStat"
  by code_simp

lemma wakeup_reason_tests:
  "wakeup_test_passes GetSingleWakeupReasonStat \<and> wakeup_test_passes GetChainedWakeupReasonStat \<and>
   wakeup_test_passes GetMultipleWakeupReasonStats"
  by code_simp

lemma wakeup_list_tests:
  "TestEmpty \<and> TestNoCapacity \<and> TestConcat \<and> TestNewEntry \<and> TestIncrement \<and> TestCapacity \<and> TestLRUEvict"
  by code_simp

lemma aidl_tests:
  "passes RegisterWakeupCallback \<and> passes RegisterMultipleWakeupCallback \<and> passes RegisterWakelockCallback_test \<and>
   passes RegisterSameWakelockCallbackWithSameName \<and> passes RegisterSameWakelockCallbackWithDifferentNames \<and>
   passes RegisterDifferentWakelockCallbacksWithSameName"
  by code_simp

end
