(* ===== verification/KeystoreTests.thy ===== *)
theory KeystoreTests
  imports WifiKeystore
begin

text \<open>
  The tests of \<open>wifi/keystore/1.0/vts/functional/VtsHalWifiKeystoreV1_0TargetTest.cpp\<close> and
  of \<open>wifi/keystore/1.0/default/test/WifiLegacyKeystoreIntegrationTest.cpp\<close> as evaluations of the model of the
  Wi-Fi keystore HAL, one definition per test.

  The tests run the HAL against Keystore 2.0, which is not in the sources. A fake takes its place, with
  what its interface documents and the tests need: an entry belongs to one descriptor (domain, namespace
  and alias); an asymmetric key comes with a certificate and a symmetric one without; an operation can be
  created only for a purpose the key was generated for. Certificates of the fake library are a byte
  for the kind and one for the key. The helpers that talk to the legacy keystore are over any service with its
  interface; the tests run them on a fake with an entry per user and alias.

  Shown: every test passes; and, for any services that have no entry for a key, the three methods report
  an error with no data.
\<close>

declare der_loop.simps [code]

datatype test_purpose = ENCRYPTION | SIGNING

type_synonym key_store = "(KeyDescriptor \<times> KeyEntryResponse) list"

definition kTestKeyName :: string where
  "kTestKeyName = ''TestKeyName''"

definition keyDescriptor :: "string \<Rightarrow> bool \<Rightarrow> KeyDescriptor" where
  "keyDescriptor alias useWifiNamespace =
     (if useWifiNamespace
      then \<lparr>kd_domain = SELINUX, kd_nspace = 102, kd_alias = Some alias, kd_blob = None\<rparr>
      else \<lparr>kd_domain = APP, kd_nspace = -1, kd_alias = Some alias, kd_blob = None\<rparr>)"

definition deleteKey :: "string \<Rightarrow> bool \<Rightarrow> key_store \<Rightarrow> key_store" where
  "deleteKey keyName useWifiNamespace ks = filter (\<lambda>e. fst e \<noteq> keyDescriptor keyName useWifiNamespace) ks"

text \<open>The parameters of the two kinds of keys; 3 is the algorithm EC, 32 is AES.\<close>

definition key_parameters :: "test_purpose \<Rightarrow> KeyParameter list" where
  "key_parameters p =
     (case p of
        SIGNING \<Rightarrow> [\<lparr>kp_tag = ALGORITHM, kp_value = Algorithm 3\<rparr>, \<lparr>kp_tag = PURPOSE, kp_value = KeyPurpose SIGN\<rparr>]
      | ENCRYPTION \<Rightarrow> [\<lparr>kp_tag = ALGORITHM, kp_value = Algorithm 32\<rparr>,
          \<lparr>kp_tag = PURPOSE, kp_value = KeyPurpose (OtherPurpose 0)\<rparr>]) @
     [\<lparr>kp_tag = PADDING, kp_value = PaddingMode PaddingMode_NONE\<rparr>, \<lparr>kp_tag = DIGEST, kp_value = Digest Digest_NONE\<rparr>,
      \<lparr>kp_tag = OTHER_TAG 0, kp_value = OtherValue\<rparr>, \<lparr>kp_tag = OTHER_TAG 1, kp_value = OtherValue\<rparr>]"

definition generateKey :: "string \<Rightarrow> test_purpose \<Rightarrow> bool \<Rightarrow> key_store \<Rightarrow> key_store" where
  "generateKey keyName p useWifiNamespace ks =
     (keyDescriptor keyName useWifiNamespace,
      \<lparr>certificate = (case p of SIGNING \<Rightarrow> Some [48, 7] | ENCRYPTION \<Rightarrow> None), certificateChain = None,
       authorizations = key_parameters p, iSecurityLevel = Some 1\<rparr>) #
     deleteKey keyName useWifiNamespace ks"

text \<open>The services of the test device: nothing in the legacy keystore.\<close>

definition fake_keystore :: "key_store \<Rightarrow> IKeystoreService" where
  "fake_keystore ks =
     \<lparr>getKeyEntry = (\<lambda>d. case map_of ks d of None \<Rightarrow> Inl 7 | Some r \<Rightarrow> Inr r),
      createOperation = (\<lambda>l d ps forced.
        case map_of ks d of None \<Rightarrow> Inl 7
        | Some r \<Rightarrow> if list_all (\<lambda>p. kp_tag p = PURPOSE \<longrightarrow> p \<in> set (authorizations r)) ps then Inr (Some 1) else Inl (- 3)),
      finish = (\<lambda>op bs sig. Inr (map_option (\<lambda>b. of_nat (length b) # b) bs))\<rparr>"

definition fake_services :: "key_store \<Rightarrow> services" where
  "fake_services ks = \<lparr>keystore2_service = Some (fake_keystore ks), legacy_service = Some (\<lambda>_ _. Inl 7)\<rparr>"

definition pem_begin :: "byte list" where
  "pem_begin = map of_char ''-----BEGIN CERTIFICATE-----''"

definition fake_ssl :: "(byte, byte) crypto" where
  "fake_ssl = sample_ssl\<lparr>PEM_write_X509 := \<lambda>x. Some (pem_begin @ [x]),
     PEM_read_X509 := \<lambda>bs. (if take (length pem_begin) bs = pem_begin
       then (case drop (length pem_begin) bs of [] \<Rightarrow> None | x # _ \<Rightarrow> Some x) else None)\<rparr>"

definition starts_with_prefix :: starts_with where
  "starts_with_prefix s p \<longleftrightarrow> prefix p s"

definition hal_sign :: "key_store \<Rightarrow> string \<Rightarrow> byte list \<Rightarrow> KeystoreStatusCode option" where
  "hal_sign ks keyId bs =
     (case sign starts_with_prefix 0 (fake_services ks) keyId bs of Aborts \<Rightarrow> None | Returns (code, _) \<Rightarrow> Some code)"

definition hal_getBlob :: "key_store \<Rightarrow> string \<Rightarrow> (KeystoreStatusCode \<times> byte list) option" where
  "hal_getBlob ks key = getBlob starts_with_prefix 0 0 fake_ssl (fake_services ks) key"

definition hal_getPublicKey :: "key_store \<Rightarrow> string \<Rightarrow> KeystoreStatusCode" where
  "hal_getPublicKey ks keyId = fst (getPublicKey starts_with_prefix 0 fake_ssl (fake_services ks) keyId)"

text \<open>\<open>resetState\<close> before each test.\<close>

definition start_keys :: key_store where
  "start_keys = deleteKey kTestKeyName False (deleteKey kTestKeyName True [])"

definition test_data :: "byte list" where
  "test_data = replicate 100 0"

subsection \<open>The tests\<close>

text \<open>A null name arrives as the empty string.\<close>

definition Sign_nullptr_key_name :: bool where
  "Sign_nullptr_key_name \<longleftrightarrow> hal_sign start_keys [] test_data = Some ERROR_UNKNOWN"

definition Sign_empty_key_name :: bool where
  "Sign_empty_key_name \<longleftrightarrow> hal_sign start_keys [] test_data = Some ERROR_UNKNOWN"

definition Sign_empty_data :: bool where
  "Sign_empty_data \<longleftrightarrow>
     (let ks = generateKey kTestKeyName SIGNING True start_keys in hal_sign ks kTestKeyName [] \<noteq> None)"

definition Sign_wrong_key_purpose :: bool where
  "Sign_wrong_key_purpose \<longleftrightarrow>
     (let ks = generateKey kTestKeyName ENCRYPTION True start_keys
      in hal_sign ks kTestKeyName test_data = Some ERROR_UNKNOWN)"

definition Sign_success :: bool where
  "Sign_success \<longleftrightarrow>
     (let ks = generateKey kTestKeyName SIGNING True start_keys
      in hal_sign ks kTestKeyName test_data = Some SUCCESS \<and> deleteKey kTestKeyName True ks = start_keys)"

definition GetBlob_null_key_name :: bool where
  "GetBlob_null_key_name \<longleftrightarrow> map_option fst (hal_getBlob start_keys []) = Some ERROR_UNKNOWN"

definition GetBlob_empty_key_name :: bool where
  "GetBlob_empty_key_name \<longleftrightarrow> map_option fst (hal_getBlob start_keys []) = Some ERROR_UNKNOWN"

definition GetBlob_missing_key :: bool where
  "GetBlob_missing_key \<longleftrightarrow> map_option fst (hal_getBlob start_keys kTestKeyName) = Some ERROR_UNKNOWN"

definition GetBlob_wrong_user :: bool where
  "GetBlob_wrong_user \<longleftrightarrow>
     (let ks = generateKey kTestKeyName SIGNING False start_keys
      in map_option fst (hal_getBlob ks (''USRCERT_'' @ kTestKeyName)) = Some ERROR_UNKNOWN \<and>
         deleteKey kTestKeyName False ks = start_keys)"

definition GetBlob_success :: bool where
  "GetBlob_success \<longleftrightarrow>
     (let ks = generateKey kTestKeyName SIGNING True start_keys
      in (case hal_getBlob ks (''USRCERT_'' @ kTestKeyName) of None \<Rightarrow> False
          | Some (code, cert) \<Rightarrow> code = SUCCESS \<and> take (length pem_begin) cert = pem_begin) \<and>
         deleteKey kTestKeyName True ks = start_keys)"

definition GetPublicKey_nullptr_key_name :: bool where
  "GetPublicKey_nullptr_key_name \<longleftrightarrow> hal_getPublicKey start_keys [] = ERROR_UNKNOWN"

definition GetPublicKey_empty_key_name :: bool where
  "GetPublicKey_empty_key_name \<longleftrightarrow> hal_getPublicKey start_keys [] = ERROR_UNKNOWN"

definition GetPublicKey_wrong_key_name :: bool where
  "GetPublicKey_wrong_key_name \<longleftrightarrow> hal_getPublicKey start_keys kTestKeyName = ERROR_UNKNOWN"

definition GetPublicKey_wrong_user :: bool where
  "GetPublicKey_wrong_user \<longleftrightarrow>
     (let ks = generateKey kTestKeyName SIGNING False start_keys
      in hal_getPublicKey ks kTestKeyName = ERROR_UNKNOWN \<and> deleteKey kTestKeyName False ks = start_keys)"

definition GetPublicKey_success :: bool where
  "GetPublicKey_success \<longleftrightarrow>
     (let ks = generateKey kTestKeyName SIGNING True start_keys
      in hal_getPublicKey ks kTestKeyName = SUCCESS \<and> deleteKey kTestKeyName True ks = start_keys)"

subsection \<open>The legacy keystore\<close>

text \<open>\<open>WifiLegacyKeystoreIntegrationTest.cpp\<close>: blobs that were put into the legacy keystore for the Wi-Fi user, with
  the fake certificates in place of the real ones; and the two tests of \<open>extractPubKey\<close>.\<close>

definition kDerTestCert :: "byte list" where
  "kDerTestCert = [48, 7]"

definition kPemTestCert :: "byte list" where
  "kPemTestCert = pem_begin @ [7]"

text \<open>\<open>ILegacyKeystore\<close>, called by one user; an error is the service specific one.\<close>

record 'w legacy_keystore =
  lks_put :: "string \<Rightarrow> int \<Rightarrow> byte list \<Rightarrow> 'w \<Rightarrow> int option \<times> 'w"
  lks_get :: "string \<Rightarrow> int \<Rightarrow> 'w \<Rightarrow> int + byte list"
  lks_remove :: "string \<Rightarrow> int \<Rightarrow> 'w \<Rightarrow> int option \<times> 'w"

definition ERROR_ENTRY_NOT_FOUND :: int where
  "ERROR_ENTRY_NOT_FOUND = 7"

definition UID_SELF :: int where
  "UID_SELF = -1"

definition AID_SYSTEM :: int where
  "AID_SYSTEM = 1000"

text \<open>What the helpers return; \<open>EXPECT_TRUE\<close> in them is on the same value, but in \<open>LegacyKeystoreGet\<close>, which
  returns an empty blob after a failed call and whose second result is that expectation.\<close>

definition LegacyKeystoreRemove :: "'w legacy_keystore option \<Rightarrow> string \<Rightarrow> int \<Rightarrow> 'w \<Rightarrow> bool \<times> 'w" where
  "LegacyKeystoreRemove legacyKeystore alias uid w =
     (case legacyKeystore of None \<Rightarrow> (False, w)
      | Some lks \<Rightarrow> (case lks_remove lks alias uid w of (rc, w') \<Rightarrow>
          (rc = None \<or> rc = Some ERROR_ENTRY_NOT_FOUND, w')))"

definition LegacyKeystorePut :: "'w legacy_keystore option \<Rightarrow> string \<Rightarrow> byte list \<Rightarrow> int \<Rightarrow> 'w \<Rightarrow> bool \<times> 'w" where
  "LegacyKeystorePut legacyKeystore alias blob uid w =
     (case legacyKeystore of None \<Rightarrow> (False, w)
      | Some lks \<Rightarrow> (case lks_put lks alias uid blob w of (rc, w') \<Rightarrow> (rc = None, w')))"

definition LegacyKeystoreGet :: "'w legacy_keystore option \<Rightarrow> string \<Rightarrow> int \<Rightarrow> 'w \<Rightarrow> byte list option \<times> bool" where
  "LegacyKeystoreGet legacyKeystore alias uid w =
     (case legacyKeystore of None \<Rightarrow> (None, False)
      | Some lks \<Rightarrow> (case lks_get lks alias uid w of Inl rc \<Rightarrow> (Some [], False) | Inr blob \<Rightarrow> (Some blob, True)))"

text \<open>Whether the test passes, and the keystore after it.\<close>

definition Put_get_test :: "'w legacy_keystore option \<Rightarrow> 'w \<Rightarrow> bool \<times> 'w" where
  "Put_get_test lks w =
     (let TESTBLOB = [1, 2, 3, 4]; TESTALIAS = ''LegacyKeystoreTestAlias'';
          (removed, w1) = LegacyKeystoreRemove lks TESTALIAS AID_WIFI w in
      if \<not> removed then (False, w1)
      else let (stored, w2) = LegacyKeystorePut lks TESTALIAS TESTBLOB UID_SELF w1 in
        if \<not> stored then (False, w2)
        else let (blob, got) = LegacyKeystoreGet lks TESTALIAS UID_SELF w2 in
          if blob \<noteq> Some TESTBLOB then (False, w2)
          else let (removed2, w3) = LegacyKeystoreRemove lks TESTALIAS AID_WIFI w2 in (got \<and> removed2, w3))"

type_synonym blob_store = "((int \<times> string) \<times> byte list) list"

definition store_key :: "string \<Rightarrow> int \<Rightarrow> int \<times> string" where
  "store_key alias uid = (if uid = UID_SELF then AID_SYSTEM else uid, alias)"

definition fake_legacy :: "blob_store legacy_keystore" where
  "fake_legacy =
     \<lparr>lks_put = \<lambda>alias uid blob w. (None, (store_key alias uid, blob) # filter (\<lambda>e. fst e \<noteq> store_key alias uid) w),
      lks_get = \<lambda>alias uid w. (case map_of w (store_key alias uid) of None \<Rightarrow> Inl ERROR_ENTRY_NOT_FOUND | Some b \<Rightarrow> Inr b),
      lks_remove = \<lambda>alias uid w.
        (if map_of w (store_key alias uid) = None then (Some ERROR_ENTRY_NOT_FOUND, w)
         else (None, filter (\<lambda>e. fst e \<noteq> store_key alias uid) w))\<rparr>"

definition legacy_services :: "blob_store \<Rightarrow> services" where
  "legacy_services w =
     \<lparr>keystore2_service = Some (fake_keystore []),
      legacy_service = Some (\<lambda>alias uid. lks_get fake_legacy alias uid w)\<rparr>"

text \<open>A test of \<open>getBlob\<close>: a blob is put into the legacy keystore, and what the HAL returns is checked.\<close>

definition legacy_getBlob_test :: "byte list \<Rightarrow> (byte list \<Rightarrow> bool) \<Rightarrow> bool" where
  "legacy_getBlob_test TESTBLOB check =
     (let TESTALIAS = ''LegacyKeystoreWifiTestAlias'';
          (removed, w1) = LegacyKeystoreRemove (Some fake_legacy) TESTALIAS AID_WIFI [];
          (stored, w2) = LegacyKeystorePut (Some fake_legacy) TESTALIAS TESTBLOB AID_WIFI w1;
          (removed2, w3) = LegacyKeystoreRemove (Some fake_legacy) TESTALIAS AID_WIFI w2
      in removed \<and> stored \<and> removed2 \<and>
         (case getBlob starts_with_prefix 0 0 fake_ssl (legacy_services w2) TESTALIAS of None \<Rightarrow> False
          | Some (statusCode, blob) \<Rightarrow> statusCode = SUCCESS \<and> check blob))"

definition occurrences :: "byte list \<Rightarrow> byte list \<Rightarrow> nat" where
  "occurrences p s = length (filter (\<lambda>i. take (length p) (drop i s) = p) [0..<length s])"

definition GetLegacyKeystoreTest :: bool where
  "GetLegacyKeystoreTest \<longleftrightarrow> legacy_getBlob_test kPemTestCert (\<lambda>blob. blob = kPemTestCert)"

definition IKeystoreGetAlwaysReturnsPem :: bool where
  "IKeystoreGetAlwaysReturnsPem \<longleftrightarrow>
     legacy_getBlob_test kDerTestCert (\<lambda>blob. take (length pem_begin) blob = pem_begin)"

definition IKeystoreGetAlwaysReturnsPemWithChain :: bool where
  "IKeystoreGetAlwaysReturnsPemWithChain \<longleftrightarrow>
     legacy_getBlob_test (kDerTestCert @ kDerTestCert @ kDerTestCert) (\<lambda>blob. occurrences pem_begin blob = 3)"

definition ExtractPublicKeyHandlesDer :: bool where
  "ExtractPublicKeyHandlesDer \<longleftrightarrow> extractPubKey fake_ssl kDerTestCert \<noteq> []"

definition ExtractPublicKeyHandlesPemFallback :: bool where
  "ExtractPublicKeyHandlesPemFallback \<longleftrightarrow> extractPubKey fake_ssl kPemTestCert \<noteq> []"

subsection \<open>Results\<close>

lemma sign_tests:
  "Sign_nullptr_key_name \<and> Sign_empty_key_name \<and> Sign_empty_data \<and> Sign_wrong_key_purpose \<and> Sign_success"
  by code_simp

lemma getBlob_tests:
  "GetBlob_null_key_name \<and> GetBlob_empty_key_name \<and> GetBlob_missing_key \<and> GetBlob_wrong_user \<and> GetBlob_success"
  by code_simp

lemma getPublicKey_tests:
  "GetPublicKey_nullptr_key_name \<and> GetPublicKey_empty_key_name \<and> GetPublicKey_wrong_key_name \<and>
   GetPublicKey_wrong_user \<and> GetPublicKey_success"
  by code_simp

text \<open>\<open>Put_get_test\<close> puts its blob for the calling user and removes that of the Wi-Fi user: its entry stays.\<close>

lemma put_get_test:
  "Put_get_test (Some fake_legacy) [] = (True, [((AID_SYSTEM, ''LegacyKeystoreTestAlias''), [1, 2, 3, 4])])"
  by code_simp

lemma legacy_tests:
  "fst (Put_get_test (Some fake_legacy) []) \<and> GetLegacyKeystoreTest \<and> IKeystoreGetAlwaysReturnsPem \<and> IKeystoreGetAlwaysReturnsPemWithChain \<and>
   ExtractPublicKeyHandlesDer \<and> ExtractPublicKeyHandlesPemFallback"
  by code_simp

text \<open>Whatever the services are: without an entry there is an error and no data.\<close>

lemma no_entry_error:
  assumes "keystore2_service sv = Some ks" "\<And>d. getKeyEntry ks d = Inl e" "getLegacyKeystoreBlob sv key = None"
  shows "getBlob StartsWith g1 g2 ssl sv key = Some (ERROR_UNKNOWN, [])"
    "getPublicKey StartsWith g1 ssl sv key = (ERROR_UNKNOWN, [])"
    "sign StartsWith g1 sv key bs = Returns (ERROR_UNKNOWN, [])"
  using assms by (simp_all add: getBlob_def getPublicKey_def sign_def keyStore2GetCert_def keyStore2GetPubKey_def
      keyStore2Sign_def Let_def)

end
