(* ===== verification/Spec2Isabelle.thy ===== *)
theory Spec2Isabelle
  imports SuspendMain Locking WifiKeystore NetdTests UnitTests KeystoreTests
begin

text \<open>
  A verification development of the Android system interfaces repository: the suspend service
  (\<open>src/suspend/1.0/default\<close>), the Wi-Fi keystore HAL (\<open>src/wifi/keystore/1.0/default\<close>) and the tests of the
  netd HAL with their helpers (\<open>src/net/netd\<close>).

  \<^bold>\<open>The program.\<close> The suspend service decides when the device suspends. Clients hold wake locks, got
  from an AIDL or a HIDL front end (\<open>SystemSuspendAidl.cpp\<close>, \<open>SystemSuspendHidl.cpp\<close>); each one raises the suspend
  counter of \<open>SystemSuspend\<close> and lowers it once. A thread of \<open>SystemSuspend\<close>, started by the first
  \<open>enableAutosuspend\<close>, reads \<open>/sys/power/wakeup_count\<close>, waits until the counter is zero, writes the
  count back and then \<open>mem\<close> to \<open>/sys/power/state\<close>. After every attempt it sleeps, longer and longer
  while attempts go wrong (\<open>updateSleepTime\<close>), records why the device woke up (\<open>WakeupList.cpp\<close>), and tells
  the clients of \<open>SuspendControlService\<close>. The use of wake locks is recorded in a
  \<open>WakeLockEntryList\<close>; \<open>SuspendControlServiceInternal\<close> gives all statistics to the framework and to
  \<open>dumpsys\<close>. \<open>main.cpp\<close> puts the parts together.

  \<^bold>\<open>Theories, and the code they model.\<close>
  \<^item> \<open>Prelude\<close>: machine integers (words), strings, the outcome of a step, reachable states, and the locale
    \<open>invariant_system\<close> of a transition system with an invariant. \<open>Chrono\<close>: durations of \<open>std::chrono\<close> as
    integers and \<open>double\<close> arithmetic as rounded rationals.
  \<^item> \<open>Node_List\<close>: \<open>std::list\<close> with stable iterators, coupled to an \<open>unordered_map\<close> of iterators; the abstract
    least-recently-used list; the locale \<open>lru_cache\<close>, the contract of both statistics lists.
  \<^item> \<open>WakeupList\<close> and \<open>WakeLockEntryList\<close>: the two lists, every method, each an interpretation of the contract.
    A state is a record with the fields of the class; a method is a function to an option, \<^term>\<open>None\<close> where
    C++ leaves the behaviour undefined.
  \<^item> \<open>SuspendBackoff\<close>: \<open>SystemSuspend::updateSleepTime\<close> and the counters of \<open>SuspendInfo\<close>.
  \<^item> \<open>SysfsReaders\<close>: \<open>readWakeupReasons\<close>, \<open>readSuspendTime\<close> and \<open>getSuspendStats\<close> of \<open>SystemSuspend.cpp\<close>.
  \<^item> \<open>SuspendControl\<close>: \<open>SuspendControlService\<close>. \<open>ControlInternal\<close>: \<open>SuspendControlServiceInternal\<close>, \<open>dump\<close> and the
    table printer of \<open>WakeLockEntryList.cpp\<close>.
  \<^item> \<open>SystemSuspend\<close>: the class, and its autosuspend thread as a step function on program counters
    (\<open>thread_step\<close>). \<open>WakeLocks\<close>: both front ends as lists of the actions their handlers take, instances of the
    locale \<open>wake_lock_api\<close>. \<open>SuspendSystem\<close>: all of it as one transition system (\<open>sys_step\<close>), with any number of
    clients, locks and calls interleaved with the thread. \<open>WakeLockActivity\<close>: the statistics in that system.
  \<^item> \<open>SuspendMain\<close>: \<open>main\<close>, its defaults and the state it starts from.
  \<^item> \<open>Locking\<close>: which mutexes the handlers and the thread take, in which order, and what they do meanwhile.
  \<^item> \<open>HexInput\<close>, \<open>WifiKeystore\<close>: \<open>keystore.cpp\<close> and \<open>wifikeystorehal_utils.h\<close>. \<open>NetdTestUtils\<close>:
    \<open>VtsHalNetNetdTestUtils.cpp\<close>, with \<open>RegexSearch\<close>, the part of \<open>std::regex\<close> it uses. \<open>NetdTests\<close>: the VTS tests of
    netd, in the state monad over any service.
  \<^item> \<open>TestHarness\<close>, \<open>UnitTests\<close>, \<open>KeystoreTests\<close>: fixtures and tests of \<open>SystemSuspendUnitTest.cpp\<close>,
    \<open>SystemSuspendAidlTest.cpp\<close>, \<open>VtsHalWifiKeystoreV1_0TargetTest.cpp\<close> and
    \<open>WifiLegacyKeystoreIntegrationTest.cpp\<close> as runs of the models.

  \<^bold>\<open>Steps and locks.\<close> A step of \<open>SuspendSystem\<close> is what the code does under one hold of
  \<open>mAutosuspendLock\<close> or, in the statistics and callback services, of the mutex of that service; the update of the
  wake lock statistics and the notification that follows it, and the two lists \<open>binderDied\<close> filters, are one step
  although they have a mutex each, as no step reads both. \<open>Locking\<close> backs
  this up: guarded data is used only under its mutex, and no two threads hold the same one. What is
  outside any mutex (reading files, calls to clients) is a step of its own. The condition variable is
  modelled with spurious wake-ups and timeouts; a notification is a flag of the waiting thread.

  \<^bold>\<open>What is shown.\<close>
  \<^item> Safety of suspending: no autosuspend while a wake lock is held, the protocol of the two kernel files,
    the counter counts the locks, no undefined step, one thread at most.
  \<^item> Progress: no lost wake-up; with autosuspend enabled, the counter at zero and no client calls, an attempt
    follows within eight steps of the thread and a bounded number more for each delay, whatever the kernel
    answers; a disabled thread ends; no deadlock between handlers, thread and clients that call back.
  \<^item> The statistics lists are safe for every sequence of calls and behave as a least-recently-used list of
    bounded length; holds are accounted for exactly; in the running service what they report as active is.
  \<^item> The backoff follows the documented formula (for whole factors), is bounded for all; counters count.
  \<^item> Callbacks: after any history of calls and deaths exactly the clients are notified whose registration
    succeeded and who have not died since. Readers: what is read from the kernel files.
  \<^item> Keystore: decoding of grants, the sources of certificates, signatures, conversion to PEM.
  \<^item> netd: which routing rules the test helpers count, and that the tests destroy the networks they create,
    unless a transport failure ends their process.
  \<^item> The tests of the repository, evaluated on the models, pass (the lemma below); this checks the models, on fixed
    inputs and with fakes for what is not in the sources.

  \<^bold>\<open>Bounds and fuel.\<close> Counters keep their width and wrap around, also the signed ones, where C++ leaves it
  undefined; times are unbounded integers; where a theorem needs fewer than
  \<open>2^32\<close> wake locks it says so. The loop over certificates is a partial function, shown to end if decoding
  always takes a byte. \<open>settle\<close> of \<open>TestHarness\<close> runs the thread with fuel 20, shown to be enough
  (\<open>settle_halts\<close>). All other loops are structural.

  \<^bold>\<open>Parameters.\<close> What is not in the sources is an argument: results of system calls, contents of files,
  the clock, the schedule; \<open>Trim\<close>, \<open>Join\<close>, \<open>ParseInt\<close> and \<open>StartsWith\<close> of libbase, \<open>strtod\<close> on other than
  decimal notation; whether binders are remote and can be linked to death; Keystore 2.0, the legacy
  keystore and BoringSSL; netd, the kernel and the \<open>ip\<close> command in the tests of netd. Theorems that need something of them have it as a
  hypothesis, with a witness.

  \<^bold>\<open>Not modelled.\<close> Log messages; the marshalling code generated from the AIDL and HIDL files;
  infinities and NaNs; the signal handler of \<open>dump\<close>. Regular expressions with anchors, escapes
  and counts. The benchmark. The stress test is a lemma on all schedules
  (\<open>stress_test\<close> of \<open>UnitTests\<close>) and not a run. In \<open>SuspendSystem\<close> what a called client does comes after the
  notification (\<open>call_all_fold\<close> of \<open>SuspendControl\<close>); that it cannot deadlock is in \<open>Locking\<close>.
\<close>

text \<open>The tests of the repository pass on the models. Suspend service: enabling and disabling
  autosuspend, the autosuspend loop, wake locks of living and dead clients, the backoff, wakeup and wake lock
  callbacks, also such that register others, native and kernel wake lock statistics, suspend statistics, wakeup reasons, and the
  registrations of the AIDL test. Wi-Fi keystore HAL, on a fake keystore: signing, certificates and public
  keys with missing, foreign and unsuitable keys, and certificates of the legacy keystore. netd HAL,
  on a fake service: networks, interfaces, routes and forwarding.\<close>

lemma repository_tests_pass:
  "(test_passes OnlyOneEnableAutosuspend \<and> test_passes EnableAutosuspendAfterDisableAutosuspend \<and>
    test_passes DisableAutosuspendBlocksSuspend \<and> test_passes AutosuspendLoop) \<and>
   (test_passes WakeLockDestructor \<and> test_passes WakeLockRelease \<and> test_passes MultipleWakeLocks \<and>
    test_passes ThreadCleanup \<and> test_passes CleanupOnAbort) \<and>
   (test_passes SuspendBackoffLongSuspendTest \<and> test_passes BackoffThresholdTest \<and>
    test_passes SuspendBackoffMaxTest) \<and>
   (test_passes RegisterInvalidCallback \<and> test_passes CallbackNotifyWakeup \<and> test_passes DeadCallback) \<and>
   test_passes CallbackNotifyWakeupReason \<and>
   (test_passes CallbackRegisterCallbackNoDeadlock \<and> test_passes WakelockCallbackRegisterCallbackNoDeadlock) \<and>
   (test_passes RegisterInvalidWakelockCallback \<and> test_passes RegisterCallbackTwice \<and>
    test_passes RegisterSameCallbackForTwoWakelocks \<and> test_passes RegisterTwoCallbacksForSameWakelock \<and>
    test_passes DeadWakelockCallback \<and> test_passes CallbackNotifyWakelock) \<and>
   (passes GetNativeWakeLockStats \<and> passes GetKernelWakeLockStats \<and> passes GetNativeAndKernelWakeLockStats \<and>
    passes NativeWakeLockStatsLruEviction \<and> GetSuspendStats) \<and>
   (wakeup_test_passes LongSuspendStat \<and> wakeup_test_passes ShortSuspendStat \<and>
    wakeup_test_passes ShortSuspendBackoffStat \<and> wakeup_test_passes ShortSuspendBackoffContinueStat) \<and>
   (wakeup_test_passes GetSingleWakeupReasonStat \<and> wakeup_test_passes GetChainedWakeupReasonStat \<and>
    wakeup_test_passes GetMultipleWakeupReasonStats) \<and>
   (TestEmpty \<and> TestNoCapacity \<and> TestConcat \<and> TestNewEntry \<and> TestIncrement \<and> TestCapacity \<and> TestLRUEvict) \<and>
   (passes RegisterWakeupCallback \<and> passes RegisterMultipleWakeupCallback \<and> passes RegisterWakelockCallback_test \<and>
    passes RegisterSameWakelockCallbackWithSameName \<and> passes RegisterSameWakelockCallbackWithDifferentNames \<and>
    passes RegisterDifferentWakelockCallbacksWithSameName) \<and>
   (Sign_nullptr_key_name \<and> Sign_empty_key_name \<and> Sign_empty_data \<and> Sign_wrong_key_purpose \<and> Sign_success) \<and>
   (GetBlob_null_key_name \<and> GetBlob_empty_key_name \<and> GetBlob_missing_key \<and> GetBlob_wrong_user \<and>
    GetBlob_success) \<and>
   (GetPublicKey_nullptr_key_name \<and> GetPublicKey_empty_key_name \<and> GetPublicKey_wrong_key_name \<and>
    GetPublicKey_wrong_user \<and> GetPublicKey_success) \<and>
   (fst (Put_get_test (Some fake_legacy) []) \<and> GetLegacyKeystoreTest \<and> IKeystoreGetAlwaysReturnsPem \<and> IKeystoreGetAlwaysReturnsPemWithChain \<and>
    ExtractPublicKeyHandlesDer \<and> ExtractPublicKeyHandlesPemFallback) \<and>
   (netd_test_passes (netd_1_0_test (fake_env OK id) (TestCreateAndDestroyOemNetworkOk (fake_env OK id))) \<and>
    netd_test_passes (netd_1_0_test (fake_env OK id) (TestDestroyOemNetworkInvalid (fake_env OK id)))) \<and>
   netd_test_passes (netd_test (fake_env OK id) (TestAddRemoveInterfaces (fake_env OK id) ''tun1'')) \<and>
   netd_test_passes (netd_test (fake_env OK id) (TestAddRemoveRoutes (fake_env OK id) ''tun1'')) \<and>
   netd_test_passes (netd_test (fake_env OK id) (TestForwarding (fake_env OK id) tun1 tun2))"
  by (simp only: autosuspend_tests wake_lock_tests backoff_tests callback_tests callback_reason_test
      reacting_callback_tests wakelock_callback_tests same_thread_tests suspend_stat_tests wakeup_reason_tests
      wakeup_list_tests aidl_tests sign_tests getBlob_tests getPublicKey_tests legacy_tests
      netd_1_0_tests netd_interface_test netd_route_test netd_forwarding_test simp_thms)

end
